theory Spec2Isabelle
  imports Main "HOL-Library.Word" "HOL-Library.AList" "HOL-Library.Signed_Division"
begin

unbundle bit_operations_syntax

section \<open>Shared data model\<close>

text \<open>
  A block identifier is a ULID: 16 bytes, the creation time in milliseconds in the
  top 48 bits. Go errors are values: the sentinels of the packages are constructors,
  an error made by a collaborator outside this code base (bucket, operating system,
  context) is \<open>External\<close>, and \<open>errors.Wrap\<close>/\<open>errors.Wrapf\<close> keep the wrapped
  error so that \<open>errors.Cause\<close> can find it again. The texts that
  \<open>Wrapf\<close>, \<open>Errorf\<close> and \<open>Sprintf\<close> format from other values are abridged;
  no statement below reads them.
\<close>

type_synonym ulid = "128 word"

datatype err =
    ErrorSyncMetaNotFound
  | ErrorSyncMetaCorrupted
  | ErrorMarkerNotFound
  | ErrorUnmarshalMarker
  | errBadRequest string
  | External string
  | Errorf string
  | MultiError "err list"
  | Wrap err string

fun Cause :: "err \<Rightarrow> err" where
  "Cause (Wrap e msg) = Cause e"
| "Cause e = e"

text \<open>
  A Go map is kept as an association list: the keys of the map in the order in which
  a \<open>range\<close> loop visits them (an order Go leaves open, so every statement below is
  made for all lists). \<open>m[k] = v\<close> is \<open>AList.update\<close>, \<open>delete(m, k)\<close> is
  \<open>AList.delete\<close>, a lookup is \<open>map_of\<close>.
\<close>

type_synonym labels = "(string \<times> string) list"

record meta =
  ULID :: ulid
  MinTime :: int
  MaxTime :: int
  Version :: int
  Level :: int
  Sources :: "ulid list"
  Labels :: "labels option"
  Source :: string
  Files :: "(string \<times> int) list"

section \<open>Block upload: \<open>pkg/compactor/block_upload.go\<close>\<close>

subsection \<open>sanitizeMeta\<close>

text \<open>
  The four external label names are constants of package \<open>mimir_tsdb\<close>, declared
  outside the files at hand; they are parameters of the model. The \<open>switch\<close> tries
  its cases in order.
\<close>

record ext_labels =
  TenantIDExternalLabel :: string
  CompactorShardIDExternalLabel :: string
  IngesterIDExternalLabel :: string
  DeprecatedShardIDExternalLabel :: string

definition preserved :: "ext_labels \<Rightarrow> string \<Rightarrow> bool" where
  "preserved c l \<longleftrightarrow> l = TenantIDExternalLabel c \<or> l = CompactorShardIDExternalLabel c"

definition unused :: "ext_labels \<Rightarrow> string \<Rightarrow> bool" where
  "unused c l \<longleftrightarrow> \<not> preserved c l \<and>
     (l = IngesterIDExternalLabel c \<or> l = DeprecatedShardIDExternalLabel c)"

definition unsupported :: "ext_labels \<Rightarrow> string \<Rightarrow> bool" where
  "unsupported c l \<longleftrightarrow> \<not> preserved c l \<and> \<not> unused c l"

text \<open>
  The loop \<open>for l, v := range meta.Thanos.Labels\<close>: the entries still to visit, the map
  as it stands and the rejected names so far. Deleting the entry under the cursor is
  the only mutation during the walk, so every entry present at the start is visited
  once.
\<close>

fun sanitize_labels :: "ext_labels \<Rightarrow> labels \<Rightarrow> labels \<Rightarrow> string list \<Rightarrow> labels \<times> string list" where
  "sanitize_labels c [] lbls rejLbls = (lbls, rejLbls)"
| "sanitize_labels c ((l, v) # rest) lbls rejLbls =
     (if preserved c l then sanitize_labels c rest lbls rejLbls
      else if unused c l then sanitize_labels c rest (AList.delete l lbls) rejLbls
      else sanitize_labels c rest lbls (rejLbls @ [l]))"

fun strings_Join :: "string list \<Rightarrow> string \<Rightarrow> string" where
  "strings_Join [] sep = []"
| "strings_Join [x] sep = x"
| "strings_Join (x # y # ys) sep = x @ sep @ strings_Join (y # ys) sep"

text \<open>
  \<open>sanitizeMeta\<close> works on the meta through a pointer: the caller's record is changed
  whether or not an error comes back, so the model returns both.
\<close>

definition sanitizeMeta :: "ext_labels \<Rightarrow> string \<Rightarrow> ulid \<Rightarrow> meta \<Rightarrow> err option \<times> meta" where
  "sanitizeMeta c tenantID blockID m =
     (let lbls0 = (case Labels m of None \<Rightarrow> [] | Some l \<Rightarrow> l);
          lbls1 = AList.update (TenantIDExternalLabel c) tenantID lbls0;
          (lbls2, rejLbls) = sanitize_labels c lbls1 lbls1 [];
          m' = m\<lparr>ULID := blockID, Labels := Some lbls2\<rparr>
      in if length rejLbls > 0
         then (Some (errBadRequest (''unsupported external label(s): '' @ strings_Join rejLbls '','')), m')
         else (None, m'\<lparr>Source := ''upload''\<rparr>))"


subsection \<open>The tenant's bucket\<close>

text \<open>
  The handlers talk to the tenant's bucket (\<open>bucket.NewUserBucketClient\<close>). The bucket
  is state: the objects by path, every call made so far, and the mutations that took
  effect. The store may fail any call; which one is given by \<open>fault\<close>, asked with the
  number of calls already made and the call itself. \<open>Get\<close> of a missing object and
  \<open>Delete\<close> of a missing object are errors, as the object store interface documents.
\<close>

type_synonym bytes = string

datatype bkt_call = CExists string | CGet string | CUpload string | CDelete string

datatype bkt_write = Uploaded string bytes | Deleted string

record bucket =
  objects :: "string \<rightharpoonup> bytes"
  fault :: "nat \<Rightarrow> bkt_call \<Rightarrow> err option"
  calls :: "bkt_call list"
  writes :: "bkt_write list"

definition called :: "bucket \<Rightarrow> bkt_call \<Rightarrow> bucket" where
  "called b c = b\<lparr>calls := calls b @ [c]\<rparr>"

definition bkt_Exists :: "bucket \<Rightarrow> string \<Rightarrow> (err + bool) \<times> bucket" where
  "bkt_Exists b p =
     (case fault b (length (calls b)) (CExists p) of
        Some e \<Rightarrow> (Inl e, called b (CExists p))
      | None \<Rightarrow> (Inr (objects b p \<noteq> None), called b (CExists p)))"

definition bkt_Get :: "bucket \<Rightarrow> string \<Rightarrow> (err + bytes) \<times> bucket" where
  "bkt_Get b p =
     (case fault b (length (calls b)) (CGet p) of
        Some e \<Rightarrow> (Inl e, called b (CGet p))
      | None \<Rightarrow>
          (case objects b p of
             None \<Rightarrow> (Inl (External ''object not found''), called b (CGet p))
           | Some content \<Rightarrow> (Inr content, called b (CGet p))))"

definition bkt_Upload :: "bucket \<Rightarrow> string \<Rightarrow> bytes \<Rightarrow> err option \<times> bucket" where
  "bkt_Upload b p content =
     (case fault b (length (calls b)) (CUpload p) of
        Some e \<Rightarrow> (Some e, called b (CUpload p))
      | None \<Rightarrow>
          (None, (called b (CUpload p))
                   \<lparr>objects := (objects b)(p \<mapsto> content),
                    writes := writes b @ [Uploaded p content]\<rparr>))"

definition bkt_Delete :: "bucket \<Rightarrow> string \<Rightarrow> err option \<times> bucket" where
  "bkt_Delete b p =
     (case fault b (length (calls b)) (CDelete p) of
        Some e \<Rightarrow> (Some e, called b (CDelete p))
      | None \<Rightarrow>
          (case objects b p of
             None \<Rightarrow> (Some (External ''object not found''), called b (CDelete p))
           | Some content \<Rightarrow>
               (None, (called b (CDelete p))
                        \<lparr>objects := (objects b)(p := None),
                         writes := writes b @ [Deleted p]\<rparr>)))"

subsection \<open>Requests, responses and library calls\<close>

text \<open>
  Of an HTTP request the handlers read the route variable \<open>block\<close>, the query
  parameters \<open>path\<close> and \<open>uploadComplete\<close>, the tenant (what
  \<open>tenant.ExtractTenantIDFromHTTPRequest\<close> returns), the body (\<open>None\<close> is a nil
  \<open>r.Body\<close>) and \<open>r.ContentLength\<close>, an int64 that is \<open>-1\<close> when the length is
  unknown. A handler answers with a status and a message; decoding a nil body is a nil
  dereference, a panic.

  ULID parsing and printing and the JSON codec are library code; they are parameters,
  and so is the one recognized schema version, the constant \<open>metadata.TSDBVersion1\<close>.
  \<open>path.Join\<close> is only applied to a block ID and a file name, where it puts a slash
  between the two. \<open>path.Base\<close> follows the Go standard library: no trailing slashes,
  then the part after the last slash; \<open>.\<close> for the empty path and \<open>/\<close> for slashes
  only.
\<close>

record request =
  var_block :: string
  query_path :: string
  query_uploadComplete :: string
  tenant :: "err + string"
  Body :: "bytes option"
  ContentLength :: int

datatype http_response = Resp nat string | Panic

definition http_Error :: "string \<Rightarrow> nat \<Rightarrow> http_response" where
  "http_Error msg code = Resp code msg"

definition WriteHeader :: "nat \<Rightarrow> http_response" where
  "WriteHeader code = Resp code []"

definition StatusOK :: nat where "StatusOK = 200"
definition StatusBadRequest :: nat where "StatusBadRequest = 400"
definition StatusConflict :: nat where "StatusConflict = 409"
definition StatusInternalServerError :: nat where "StatusInternalServerError = 500"
definition StatusBadGateway :: nat where "StatusBadGateway = 502"

record lib =
  ulid_Parse :: "string \<Rightarrow> err + ulid"
  ulid_String :: "ulid \<Rightarrow> string"
  json_Decode :: "bytes \<Rightarrow> err + meta"
  json_Encode :: "meta \<Rightarrow> err + bytes"
  ext :: ext_labels
  TSDBVersion1 :: int

definition path_Join :: "string \<Rightarrow> string \<Rightarrow> string" where
  "path_Join dir name = dir @ ''/'' @ name"

definition path_Base :: "string \<Rightarrow> string" where
  "path_Base p =
     (if p = [] then ''.''
      else (let q = rev (dropWhile (\<lambda>ch. ch = CHR ''/'') (rev p));
                r = rev (takeWhile (\<lambda>ch. ch \<noteq> CHR ''/'') (rev q))
            in if r = [] then ''/'' else r))"

text \<open>The regular expression \<open>^(index|chunks/\d{6})$\<close>; \<open>\d\<close> is an ASCII digit.\<close>

definition is_digit :: "char \<Rightarrow> bool" where
  "is_digit ch \<longleftrightarrow> ch \<in> set ''0123456789''"

definition rePath_MatchString :: "string \<Rightarrow> bool" where
  "rePath_MatchString p \<longleftrightarrow>
     p = ''index'' \<or> (length p = 13 \<and> take 7 p = ''chunks/'' \<and> list_all is_digit (drop 7 p))"

fun errors_As_errBadRequest :: "err \<Rightarrow> string option" where
  "errors_As_errBadRequest (errBadRequest msg) = Some msg"
| "errors_As_errBadRequest (Wrap e msg) = errors_As_errBadRequest e"
| "errors_As_errBadRequest e = None"

subsection \<open>The three operations\<close>

definition uploadMeta :: "lib \<Rightarrow> bucket \<Rightarrow> meta \<Rightarrow> ulid \<Rightarrow> string \<Rightarrow> err option \<times> bucket" where
  "uploadMeta l b m blockID name =
     (let dst = path_Join (ulid_String l blockID) name
      in case json_Encode l m of
           Inl e \<Rightarrow> (Some (Wrap e ''failed to encode block metadata''), b)
         | Inr buf \<Rightarrow>
             (case bkt_Upload b dst buf of
                (Some e, b') \<Rightarrow> (Some (Wrap e (''failed uploading '' @ name @ '' to bucket'')), b')
              | (None, b') \<Rightarrow> (None, b')))"

definition createBlockUpload :: "lib \<Rightarrow> bucket \<Rightarrow> request \<Rightarrow> string \<Rightarrow> ulid \<Rightarrow> http_response \<times> bucket" where
  "createBlockUpload l b r tenantID blockID =
     (case bkt_Exists b (path_Join (ulid_String l blockID) ''meta.json'') of
        (Inl e, b1) \<Rightarrow> (http_Error ''internal server error'' StatusInternalServerError, b1)
      | (Inr True, b1) \<Rightarrow> (http_Error ''block already exists in object storage'' StatusConflict, b1)
      | (Inr False, b1) \<Rightarrow>
          (case Body r of
             None \<Rightarrow> (Panic, b1)
           | Some body \<Rightarrow>
               (case json_Decode l body of
                  Inl e \<Rightarrow> (http_Error ''malformed request body'' StatusBadRequest, b1)
                | Inr m \<Rightarrow>
                    (case sanitizeMeta (ext l) tenantID blockID m of
                       (Some e, m') \<Rightarrow>
                         (case errors_As_errBadRequest e of
                            Some msg \<Rightarrow> (http_Error msg StatusBadRequest, b1)
                          | None \<Rightarrow> (http_Error ''internal server error'' StatusInternalServerError, b1))
                     | (None, m') \<Rightarrow>
                         (case uploadMeta l b1 m' blockID ''meta.json.temp'' of
                            (Some e, b2) \<Rightarrow> (http_Error ''internal server error'' StatusInternalServerError, b2)
                          | (None, b2) \<Rightarrow> (WriteHeader StatusOK, b2))))))"

definition completeBlockUpload :: "lib \<Rightarrow> bucket \<Rightarrow> request \<Rightarrow> string \<Rightarrow> ulid \<Rightarrow> http_response \<times> bucket" where
  "completeBlockUpload l b r tenantID blockID =
     (case bkt_Get b (path_Join (ulid_String l blockID) ''meta.json.temp'') of
        (Inl e, b1) \<Rightarrow> (http_Error ''internal server error'' StatusInternalServerError, b1)
      | (Inr rdr, b1) \<Rightarrow>
          (case json_Decode l rdr of
             Inl e \<Rightarrow> (http_Error ''internal server error'' StatusInternalServerError, b1)
           | Inr m \<Rightarrow>
               (case uploadMeta l b1 m blockID ''meta.json'' of
                  (Some e, b2) \<Rightarrow> (http_Error ''internal server error'' StatusInternalServerError, b2)
                | (None, b2) \<Rightarrow>
                    (case bkt_Delete b2 (path_Join (ulid_String l blockID) ''meta.json.temp'') of
                       (Some e, b3) \<Rightarrow> (http_Error ''internal server error'' StatusInternalServerError, b3)
                     | (None, b3) \<Rightarrow> (WriteHeader StatusOK, b3)))))"

definition HandleBlockUpload :: "lib \<Rightarrow> bucket \<Rightarrow> request \<Rightarrow> http_response \<times> bucket" where
  "HandleBlockUpload l b r =
     (let blockID = var_block r
      in if blockID = [] then (http_Error ''missing block ID'' StatusBadRequest, b)
         else case ulid_Parse l blockID of
           Inl e \<Rightarrow> (http_Error ''invalid block ID'' StatusBadRequest, b)
         | Inr bULID \<Rightarrow>
             (case tenant r of
                Inl e \<Rightarrow> (http_Error ''invalid tenant ID'' StatusBadRequest, b)
              | Inr tenantID \<Rightarrow>
                  if query_uploadComplete r = ''true''
                  then completeBlockUpload l b r tenantID bULID
                  else createBlockUpload l b r tenantID bULID))"

definition UploadBlockFile :: "lib \<Rightarrow> bucket \<Rightarrow> request \<Rightarrow> http_response \<times> bucket" where
  "UploadBlockFile l b r =
     (let blockID = var_block r; pth = query_path r
      in if blockID = [] then (http_Error ''missing block ID'' StatusBadRequest, b)
         else case ulid_Parse l blockID of
           Inl e \<Rightarrow> (http_Error ''invalid block ID'' StatusBadRequest, b)
         | Inr u \<Rightarrow>
             if pth = [] then (http_Error ''missing or invalid file path'' StatusBadRequest, b)
             else case tenant r of
               Inl e \<Rightarrow> (http_Error ''invalid tenant ID'' StatusBadRequest, b)
             | Inr tenantID \<Rightarrow>
                 if path_Base pth = ''meta.json''
                 then (http_Error ''meta.json is not allowed'' StatusBadRequest, b)
                 else if \<not> rePath_MatchString pth
                 then (http_Error (''invalid path: '' @ pth) StatusBadRequest, b)
                 else if Body r = None \<or> ContentLength r = 0
                 then (http_Error ''file cannot be empty'' StatusBadRequest, b)
                 else
                   (let metaPath = path_Join blockID ''meta.json.temp''
                    in case bkt_Exists b metaPath of
                         (Inl e, b1) \<Rightarrow> (http_Error ''internal server error'' StatusInternalServerError, b1)
                       | (Inr False, b1) \<Rightarrow>
                           (http_Error (''upload of block '' @ blockID @ '' not started yet'') StatusBadRequest, b1)
                       | (Inr True, b1) \<Rightarrow>
                           (case bkt_Get b1 metaPath of
                              (Inl e, b2) \<Rightarrow> (http_Error ''internal server error'' StatusInternalServerError, b2)
                            | (Inr rdr, b2) \<Rightarrow>
                                (case json_Decode l rdr of
                                   Inl e \<Rightarrow> (http_Error ''internal server error'' StatusInternalServerError, b2)
                                 | Inr m \<Rightarrow>
                                     (case bkt_Upload b2 (path_Join blockID pth) (case Body r of Some body \<Rightarrow> body | None \<Rightarrow> []) of
                                        (Some e, b3) \<Rightarrow> (http_Error ''failed uploading block file to bucket'' StatusBadGateway, b3)
                                      | (None, b3) \<Rightarrow> (WriteHeader StatusOK, b3))))))"


subsection \<open>Observing a handler: calls, writes, visibility\<close>

text \<open>
  What a handler did to the bucket is the tail of the call log and of the write log
  that it added. A block is visible to the fetcher when its \<open>meta.json\<close> exists:
  that is the object \<open>loadMeta\<close> asks the bucket for first.
\<close>

definition new_calls :: "bucket \<Rightarrow> bucket \<Rightarrow> bkt_call list" where
  "new_calls b b' = drop (length (calls b)) (calls b')"

definition new_writes :: "bucket \<Rightarrow> bucket \<Rightarrow> bkt_write list" where
  "new_writes b b' = drop (length (writes b)) (writes b')"

definition visible :: "lib \<Rightarrow> bucket \<Rightarrow> ulid \<Rightarrow> bool" where
  "visible l b blockID \<longleftrightarrow> objects b (path_Join (ulid_String l blockID) ''meta.json'') \<noteq> None"

fun writes_meta_json :: "bkt_write \<Rightarrow> bool" where
  "writes_meta_json (Uploaded p content) = (path_Base p = ''meta.json'')"
| "writes_meta_json (Deleted p) = False"

text \<open>
  What a commit finds staged for a block: the bytes it is going to write as
  \<open>meta.json\<close>, when the staged descriptor exists, decodes and encodes again.
\<close>

definition staged :: "lib \<Rightarrow> bucket \<Rightarrow> ulid \<Rightarrow> bytes option" where
  "staged l b blockID =
     (case objects b (path_Join (ulid_String l blockID) ''meta.json.temp'') of
        None \<Rightarrow> None
      | Some content \<Rightarrow>
          (case json_Decode l content of
             Inl e \<Rightarrow> None
           | Inr m \<Rightarrow> (case json_Encode l m of Inl e \<Rightarrow> None | Inr buf \<Rightarrow> Some buf)))"

text \<open>The store answers the call that comes \<open>n\<close> calls from now without a fault.\<close>

definition no_fault :: "bucket \<Rightarrow> nat \<Rightarrow> bkt_call \<Rightarrow> bool" where
  "no_fault b n c \<longleftrightarrow> fault b (length (calls b) + n) c = None"

text \<open>The two routes of the upload API, and the handler of each.\<close>

datatype api_call = BlockUpload request | BlockFile request

fun request_of :: "api_call \<Rightarrow> request" where
  "request_of (BlockUpload r) = r"
| "request_of (BlockFile r) = r"

fun handle :: "lib \<Rightarrow> bucket \<Rightarrow> api_call \<Rightarrow> http_response \<times> bucket" where
  "handle l b (BlockUpload r) = HandleBlockUpload l b r"
| "handle l b (BlockFile r) = UploadBlockFile l b r"

fun is_commit :: "api_call \<Rightarrow> bool" where
  "is_commit (BlockUpload r) = (query_uploadComplete r = ''true'')"
| "is_commit (BlockFile r) = False"

text \<open>
  Modelled from the spec: \<open>bucket.NewUserBucketClient\<close>, whose code is outside the
  files at hand. The spec lays the object store out per tenant prefix: the compactor's
  bucket client holds the objects of every tenant, and the client opened for a tenant
  reads and writes that tenant's objects alone.
\<close>

type_synonym bucket_client = "string \<Rightarrow> bucket"

definition NewUserBucketClient :: "string \<Rightarrow> bucket_client \<Rightarrow> bucket" where
  "NewUserBucketClient tenantID c = c tenantID"

text \<open>
  A request is served on the bucket of its tenant, and what the handler did there stays
  with that tenant. A request from which no tenant ID can be extracted is answered
  before any bucket is opened: the store is left as it is, and the bucket the handler
  is given here is one it never looks at. A client session is a list of calls, served
  one after the other; \<open>answers\<close> are the responses.
\<close>

definition serve :: "lib \<Rightarrow> bucket_client \<Rightarrow> api_call \<Rightarrow> http_response \<times> bucket_client" where
  "serve l c call =
     (case tenant (request_of call) of
        Inl e \<Rightarrow> (fst (handle l (NewUserBucketClient [] c) call), c)
      | Inr tenantID \<Rightarrow>
          (case handle l (NewUserBucketClient tenantID c) call of
             (resp, bkt') \<Rightarrow> (resp, c(tenantID := bkt'))))"

fun serve_all :: "lib \<Rightarrow> bucket_client \<Rightarrow> api_call list \<Rightarrow> bucket_client" where
  "serve_all l c [] = c"
| "serve_all l c (call # cs) = serve_all l (snd (serve l c call)) cs"

fun answers :: "lib \<Rightarrow> bucket_client \<Rightarrow> api_call list \<Rightarrow> http_response list" where
  "answers l c [] = []"
| "answers l c (call # cs) = fst (serve l c call) # answers l (snd (serve l c call)) cs"

text \<open>A commit call of a given tenant.\<close>

definition commit_of :: "string \<Rightarrow> api_call \<Rightarrow> bool" where
  "commit_of tenantID call \<longleftrightarrow> is_commit call \<and> tenant (request_of call) = Inr tenantID"

subsection \<open>A concrete tenant session\<close>

text \<open>
  One block, one tenant, a toy codec and a bucket that never fails: the inputs at
  which the statements below are evaluated.
\<close>

definition demo_ext :: ext_labels where
  "demo_ext = \<lparr>TenantIDExternalLabel = ''__org_id__'',
      CompactorShardIDExternalLabel = ''__compactor_shard_id__'',
      IngesterIDExternalLabel = ''__ingester_id__'',
      DeprecatedShardIDExternalLabel = ''__shard_id__''\<rparr>"

definition demo_meta :: meta where
  "demo_meta = \<lparr>ULID = 7, MinTime = 0, MaxTime = 7200000, Version = 1, Level = 1, Sources = [1],
      Labels = Some [(''__ingester_id__'', ''ingester-0'')], Source = ''ingester'', Files = []\<rparr>"

definition demo_lib :: lib where
  "demo_lib = \<lparr>
      ulid_Parse = (\<lambda>s. if s = ''00000000000000000000000001'' then Inr 1 else Inl (External ''bad data size'')),
      ulid_String = (\<lambda>u. ''00000000000000000000000001''),
      json_Decode = (\<lambda>bs. if bs = ''{}'' then Inr demo_meta
                          else if bs = ''v2'' then Inr (demo_meta\<lparr>Version := 2\<rparr>)
                          else Inl (External ''invalid character'')),
      json_Encode = (\<lambda>m. Inr ''{}''),
      ext = demo_ext,
      TSDBVersion1 = 1\<rparr>"

definition demo_bucket :: bucket where
  "demo_bucket = \<lparr>objects = Map.empty, fault = (\<lambda>n c. None), calls = [], writes = []\<rparr>"

definition demo_staged :: bucket where
  "demo_staged = \<lparr>objects = [''00000000000000000000000001/meta.json.temp'' \<mapsto> ''{}''],
      fault = (\<lambda>n c. None), calls = [], writes = []\<rparr>"

definition demo_begin :: request where
  "demo_begin = \<lparr>var_block = ''00000000000000000000000001'', query_path = [],
      query_uploadComplete = [], tenant = Inr ''user-1'', Body = Some ''{}'', ContentLength = 2\<rparr>"

definition demo_file :: request where
  "demo_file = \<lparr>var_block = ''00000000000000000000000001'', query_path = ''index'',
      query_uploadComplete = [], tenant = Inr ''user-1'', Body = Some ''abc'', ContentLength = 3\<rparr>"

definition demo_commit :: request where
  "demo_commit = \<lparr>var_block = ''00000000000000000000000001'', query_path = [],
      query_uploadComplete = ''true'', tenant = Inr ''user-1'', Body = Some [], ContentLength = 0\<rparr>"

definition demo_chunked :: request where
  "demo_chunked = \<lparr>var_block = ''00000000000000000000000001'', query_path = ''index'',
      query_uploadComplete = [], tenant = Inr ''user-1'', Body = Some [], ContentLength = - 1\<rparr>"

text \<open>
  The store of all tenants, empty; the same with buckets that fail their eighth call,
  which in a session of begin, one file and two commits is the first commit's removal
  of the staged descriptor; a bucket with a staged block that fails its third call,
  the removal in a first commit; and a commit of the same block sent by another tenant.
\<close>

definition demo_client :: bucket_client where
  "demo_client = (\<lambda>tenantID. demo_bucket)"

definition demo_flaky_client :: bucket_client where
  "demo_flaky_client = (\<lambda>tenantID.
     demo_bucket\<lparr>fault := (\<lambda>n c. if n = 7 then Some (External ''timeout'') else None)\<rparr>)"

definition demo_flaky_staged :: bucket where
  "demo_flaky_staged = demo_staged\<lparr>fault := (\<lambda>n c. if n = 2 then Some (External ''timeout'') else None)\<rparr>"

definition demo_other_commit :: request where
  "demo_other_commit = \<lparr>var_block = ''00000000000000000000000001'', query_path = [],
      query_uploadComplete = ''true'', tenant = Inr ''user-2'', Body = Some [], ContentLength = 0\<rparr>"

definition demo_meta_json :: request where
  "demo_meta_json = \<lparr>var_block = ''00000000000000000000000001'', query_path = ''meta.json'',
      query_uploadComplete = [], tenant = Inr ''user-1'', Body = Some ''abc'', ContentLength = 3\<rparr>"


section \<open>Metadata fetcher: \<open>pkg/storage/tsdb/block/fetcher.go\<close>\<close>

subsection \<open>Maps as objects\<close>

text \<open>
  \<open>map[ulid.ULID]*metadata.Meta\<close> is a reference type: two variables may name the
  same map, and a \<open>delete\<close> through one is seen through the other. The maps of metas
  therefore live in a store, \<open>make\<close> returns a fresh address, and the fetcher, the
  response and the caller hold addresses. The store also carries the local directory
  of cached \<open>meta.json\<close> files, by block; its operations are taken to succeed (the
  code logs and ignores their failures).
\<close>

type_synonym addr = nat

type_synonym meta_map = "(ulid \<times> meta) list"

datatype disk_entry = DiskMeta meta | DiskUnreadable err

record world =
  heap :: "addr \<Rightarrow> meta_map"
  top :: addr
  disk :: "ulid \<rightharpoonup> disk_entry"

definition make_map :: "world \<Rightarrow> addr \<times> world" where
  "make_map w = (top w, w\<lparr>heap := (heap w)(top w := []), top := Suc (top w)\<rparr>)"

definition store :: "world \<Rightarrow> addr \<Rightarrow> meta_map \<Rightarrow> world" where
  "store w a m = w\<lparr>heap := (heap w)(a := m)\<rparr>"

definition len :: "('k \<times> 'v) list \<Rightarrow> nat" where
  "len m = length (remdups (map fst m))"

text \<open>The loop \<open>for id, m := range src { dst[id] = m }\<close>.\<close>

definition copy_into :: "('k \<times> 'v) list \<Rightarrow> ('k \<times> 'v) list \<Rightarrow> ('k \<times> 'v) list" where
  "copy_into src dst = fold (\<lambda>(k, v) acc. AList.update k v acc) src dst"

text \<open>
  A call either returns, or blocks for ever (a send on a channel nobody reads, with a
  context that is never cancelled), or panics (\<open>make\<close> of a channel of negative size).
\<close>

datatype 'a outcome = Returns 'a | Blocks | Panics

subsection \<open>The bucket as the fetcher sees it\<close>

text \<open>
  The fetcher only reads the bucket, and the bucket changes under it; so each call is
  answered on its own: \<open>Exists\<close>, \<open>Get\<close> (which yields what reading the stream to
  its end yields) and the bucket's test \<open>IsObjNotFoundErr\<close>. A run of the listing
  \<open>Iter\<close> is the block directories it finds in order, the error it ends with, and,
  when the context is cancelled during the run, the number of block IDs the scheduler
  still managed to send.
\<close>

record bucket_reader =
  Exists :: "string \<Rightarrow> err + bool"
  Get :: "string \<Rightarrow> err + (err + bytes)"
  IsObjNotFoundErr :: "err \<Rightarrow> bool"

record iter_run =
  dirs :: "ulid list"
  list_err :: "err option"
  cancelled_after :: "nat option"

definition ctx_Err :: err where
  "ctx_Err = External ''context canceled''"

text \<open>
  The goroutine that feeds the channel: what it sent and what it returned, or \<open>None\<close>
  when it never returns. Without workers nothing is ever received.
\<close>

definition scheduler :: "int \<Rightarrow> ulid list \<Rightarrow> err option \<Rightarrow> nat option \<Rightarrow> (ulid list \<times> err option) option" where
  "scheduler conc ids end_err cancelled =
     (if conc = 0 then
        (if ids = [] then Some ([], end_err)
         else case cancelled of None \<Rightarrow> None | Some n \<Rightarrow> Some ([], Some ctx_Err))
      else
        (case cancelled of
           None \<Rightarrow> Some (ids, end_err)
         | Some n \<Rightarrow>
             if n < length ids then Some (take n ids, Some ctx_Err) else Some (ids, end_err)))"

subsection \<open>BaseFetcher and loadMeta\<close>

text \<open>
  Modelled from the spec: the file name \<open>block.MetaFilename\<close>, declared outside the
  files at hand; the spec places the descriptor at \<open><BlockID>/meta.json\<close>.
\<close>

definition MetaFilename :: string where
  "MetaFilename = ''meta.json''"

record BaseFetcher =
  concurrency :: int
  bkt :: bucket_reader
  cacheDir :: string
  syncs :: nat
  cached :: addr

definition read_local :: "BaseFetcher \<Rightarrow> world \<Rightarrow> ulid \<Rightarrow> meta option \<times> world" where
  "read_local f w blockID =
     (if cacheDir f \<noteq> [] then
        (case disk w blockID of
           Some (DiskMeta m) \<Rightarrow> (Some m, w)
         | None \<Rightarrow> (None, w)
         | Some (DiskUnreadable e) \<Rightarrow> (None, w\<lparr>disk := (disk w)(blockID := None)\<rparr>))
      else (None, w))"

definition write_local :: "BaseFetcher \<Rightarrow> world \<Rightarrow> ulid \<Rightarrow> meta \<Rightarrow> world" where
  "write_local f w blockID m =
     (if cacheDir f \<noteq> [] then w\<lparr>disk := (disk w)(blockID \<mapsto> DiskMeta m)\<rparr> else w)"

definition loadMeta :: "lib \<Rightarrow> BaseFetcher \<Rightarrow> world \<Rightarrow> ulid \<Rightarrow> (err + meta) \<times> world" where
  "loadMeta l f w blockID =
     (let metaFile = path_Join (ulid_String l blockID) MetaFilename
      in case Exists (bkt f) metaFile of
           Inl e \<Rightarrow> (Inl (Wrap e (''meta.json file exists: '' @ metaFile)), w)
         | Inr False \<Rightarrow> (Inl ErrorSyncMetaNotFound, w)
         | Inr True \<Rightarrow>
             (case map_of (heap w (cached f)) blockID of
                Some m \<Rightarrow> (Inr m, w)
              | None \<Rightarrow>
                  (case read_local f w blockID of
                     (Some m, w1) \<Rightarrow> (Inr m, w1)
                   | (None, w1) \<Rightarrow>
                       (case Get (bkt f) metaFile of
                          Inl e \<Rightarrow>
                            if IsObjNotFoundErr (bkt f) e
                            then (Inl (Wrap ErrorSyncMetaNotFound ''meta.json was deleted''), w1)
                            else (Inl (Wrap e (''get meta file: '' @ metaFile)), w1)
                        | Inr (Inl e) \<Rightarrow> (Inl (Wrap e (''read meta file: '' @ metaFile)), w1)
                        | Inr (Inr metaContent) \<Rightarrow>
                            (case json_Decode l metaContent of
                               Inl e \<Rightarrow>
                                 (Inl (Wrap ErrorSyncMetaCorrupted
                                         (''meta.json '' @ metaFile @ '' unmarshal'')), w1)
                             | Inr m \<Rightarrow>
                                 if Version m \<noteq> TSDBVersion1 l
                                 then (Inl (Errorf (''unexpected meta file: '' @ metaFile @ '' version'')), w1)
                                 else (Inr m, write_local f w1 blockID m))))))"

subsection \<open>fetchMetadata\<close>

record response =
  metas :: addr
  partial :: "(ulid \<times> err) list"
  metaErrs :: "err list"
  noMetas :: nat
  corruptedMetas :: nat

text \<open>
  The body of a worker's loop for one block ID. The workers run side by side, but every
  change of the response is made under the mutex, so a sync is the sequence of these
  steps in the order in which the IDs were taken up; that order is the order of the
  list the steps are folded over.
\<close>

definition worker_step :: "lib \<Rightarrow> BaseFetcher \<Rightarrow> ulid \<Rightarrow> response \<times> world \<Rightarrow> response \<times> world" where
  "worker_step l f blockID rw =
     (case rw of (resp, w) \<Rightarrow>
        (case loadMeta l f w blockID of
           (Inr m, w1) \<Rightarrow>
             (resp, store w1 (metas resp) (AList.update blockID m (heap w1 (metas resp))))
         | (Inl e, w1) \<Rightarrow>
             if Cause e = ErrorSyncMetaNotFound
             then (resp\<lparr>noMetas := noMetas resp + 1,
                        partial := AList.update blockID e (partial resp)\<rparr>, w1)
             else if Cause e = ErrorSyncMetaCorrupted
             then (resp\<lparr>corruptedMetas := corruptedMetas resp + 1,
                        partial := AList.update blockID e (partial resp)\<rparr>, w1)
             else (resp\<lparr>metaErrs := metaErrs resp @ [e]\<rparr>, w1)))"

text \<open>The sweep of the local cache directory after a complete sync.\<close>

definition sweep_local :: "BaseFetcher \<Rightarrow> world \<Rightarrow> meta_map \<Rightarrow> world" where
  "sweep_local f w loaded =
     (if cacheDir f \<noteq> []
      then w\<lparr>disk := (\<lambda>blockID. if map_of loaded blockID \<noteq> None then disk w blockID else None)\<rparr>
      else w)"

definition fetchMetadata ::
  "lib \<Rightarrow> iter_run \<Rightarrow> BaseFetcher \<Rightarrow> world \<Rightarrow> ((err + response) \<times> BaseFetcher \<times> world) outcome" where
  "fetchMetadata l run f w =
     (let f1 = f\<lparr>syncs := syncs f + 1\<rparr>;
          (a, w1) = make_map w;
          resp0 = \<lparr>metas = a, partial = [], metaErrs = [], noMetas = 0, corruptedMetas = 0\<rparr>
      in if concurrency f < 0 then Panics
         else case scheduler (concurrency f) (dirs run) (list_err run) (cancelled_after run) of
           None \<Rightarrow> Blocks
         | Some (sent, sched_err) \<Rightarrow>
             (let (resp, w2) = fold (worker_step l f1) sent (resp0, w1)
              in case sched_err of
                   Some e \<Rightarrow> Returns (Inl (Wrap e ''BaseFetcher: iter bucket''), f1, w2)
                 | None \<Rightarrow>
                     if length (metaErrs resp) > 0 then Returns (Inr resp, f1, w2)
                     else
                       (let (c, w3) = make_map w2;
                            w4 = store w3 c (copy_into (heap w3 (metas resp)) (heap w3 c));
                            f2 = f1\<lparr>cached := c\<rparr>
                        in Returns (Inr resp, f2, sweep_local f2 w4 (heap w4 (metas resp))))))"


subsection \<open>Gauges\<close>

text \<open>
  Modelled from the spec: the transactional gauge vector \<open>extprom.TxGaugeVec\<close>, whose
  code is outside the files at hand. It has a staging buffer and published values;
  \<open>ResetTx\<close> clears the staging buffer, \<open>Set\<close> and \<open>Inc\<close> write to it, and
  \<open>Submit\<close> makes the staged values the published ones. The values are counts of
  blocks.
\<close>

record TxGaugeVec =
  tx :: "string \<Rightarrow> nat"
  published :: "string \<Rightarrow> nat"

definition ResetTx :: "TxGaugeVec \<Rightarrow> TxGaugeVec" where
  "ResetTx g = g\<lparr>tx := (\<lambda>lv. 0)\<rparr>"

definition Submit :: "TxGaugeVec \<Rightarrow> TxGaugeVec" where
  "Submit g = g\<lparr>published := tx g\<rparr>"

definition gauge_Set :: "TxGaugeVec \<Rightarrow> string \<Rightarrow> nat \<Rightarrow> TxGaugeVec" where
  "gauge_Set g lv v = g\<lparr>tx := (tx g)(lv := v)\<rparr>"

definition gauge_Inc :: "TxGaugeVec \<Rightarrow> string \<Rightarrow> TxGaugeVec" where
  "gauge_Inc g lv = g\<lparr>tx := (tx g)(lv := tx g lv + 1)\<rparr>"

definition CorruptedMeta :: string where "CorruptedMeta = ''corrupted-meta-json''"
definition NoMeta :: string where "NoMeta = ''no-meta-json''"
definition LoadedMeta :: string where "LoadedMeta = ''loaded''"
definition FailedMeta :: string where "FailedMeta = ''failed''"
definition tooFreshMeta :: string where "tooFreshMeta = ''too-fresh''"
definition MarkedForDeletionMeta :: string where "MarkedForDeletionMeta = ''marked-for-deletion''"

record FetcherMetrics =
  Syncs :: nat
  SyncFailures :: nat
  Synced :: TxGaugeVec
  Modified :: TxGaugeVec

subsection \<open>Filters\<close>

text \<open>
  What a filter run reads from outside: the clock \<open>ulid.Now()\<close> at the moment the
  loop is at a block, the outcome of \<open>metadata.ReadMarker\<close> for a block's deletion
  mark, the comparison of the mark's age with the delay (a comparison of two
  floating-point numbers of seconds, taken as given), and the scheduling of the
  deletion-mark workers: which worker takes which block ID, how many IDs are sent
  before a cancellation is seen, and whether the feeding goroutine reports its error
  before the workers do. Workers are numbered in the order in which they finish.
\<close>

record DeletionMark =
  mark_ID :: ulid
  DeletionTime :: int

record filter_env =
  Now :: "ulid \<Rightarrow> 64 word"
  ReadMarker :: "ulid \<Rightarrow> err + DeletionMark"
  past_delay :: "int \<Rightarrow> DeletionMark \<Rightarrow> bool"
  owner :: "ulid \<Rightarrow> nat"
  marks_cancelled_after :: "nat option"
  scheduler_first :: bool

text \<open>
  Modelled from the spec: the provenance tags \<open>metadata.BucketRepairSource\<close>,
  \<open>metadata.CompactorSource\<close> and \<open>metadata.CompactorRepairSource\<close>, declared
  outside the files at hand; the spec names them bucket-repair, compactor and
  compactor-repair.
\<close>

definition BucketRepairSource :: string where "BucketRepairSource = ''bucket-repair''"
definition CompactorSource :: string where "CompactorSource = ''compactor''"
definition CompactorRepairSource :: string where "CompactorRepairSource = ''compactor-repair''"

text \<open>\<open>id.Time()\<close>: the 48 bits of the timestamp, as a uint64.\<close>

definition ulid_Time :: "ulid \<Rightarrow> 64 word" where
  "ulid_Time blockID = ucast (drop_bit 80 blockID)"

text \<open>
  The consistency delay is a \<open>time.Duration\<close>, an int64 of nanoseconds; its division
  by \<open>time.Millisecond\<close> truncates, the conversion to uint64 keeps the bits, and the
  subtraction of the two uint64 wraps.
\<close>

definition too_fresh :: "filter_env \<Rightarrow> int \<Rightarrow> ulid \<Rightarrow> meta \<Rightarrow> bool" where
  "too_fresh env consistencyDelay blockID m \<longleftrightarrow>
     Now env blockID - ulid_Time blockID < word_of_int (consistencyDelay sdiv 1000000)
     \<and> Source m \<noteq> BucketRepairSource
     \<and> Source m \<noteq> CompactorSource
     \<and> Source m \<noteq> CompactorRepairSource"

fun ConsistencyDelay_loop ::
  "filter_env \<Rightarrow> int \<Rightarrow> meta_map \<Rightarrow> meta_map \<Rightarrow> TxGaugeVec \<Rightarrow> meta_map \<times> TxGaugeVec" where
  "ConsistencyDelay_loop env d [] ms synced = (ms, synced)"
| "ConsistencyDelay_loop env d ((blockID, m) # rest) ms synced =
     (if too_fresh env d blockID m
      then ConsistencyDelay_loop env d rest (AList.delete blockID ms) (gauge_Inc synced tooFreshMeta)
      else ConsistencyDelay_loop env d rest ms synced)"

record IgnoreDeletionMarkFilter =
  delay :: int
  mark_concurrency :: int
  deletionMarkMap :: "(ulid \<times> DeletionMark) list"

definition DeletionMarkBlocks :: "IgnoreDeletionMarkFilter \<Rightarrow> (ulid \<times> DeletionMark) list" where
  "DeletionMarkBlocks f = copy_into (deletionMarkMap f) []"

text \<open>
  One pass of a deletion-mark worker's loop has two effects: on what the workers share
  (the local mark map, the metas and the gauge, all under the mutex), and on the
  worker's own \<open>lastErr\<close>. The shared effects are applied in the order in which the IDs
  were sent; each worker's \<open>lastErr\<close> runs over the IDs that worker took.
\<close>

definition probe_step ::
  "filter_env \<Rightarrow> IgnoreDeletionMarkFilter \<Rightarrow> ulid \<Rightarrow>
   (ulid \<times> DeletionMark) list \<times> meta_map \<times> TxGaugeVec \<Rightarrow>
   (ulid \<times> DeletionMark) list \<times> meta_map \<times> TxGaugeVec" where
  "probe_step env f blockID st =
     (case st of (dm, ms, synced) \<Rightarrow>
        (case ReadMarker env blockID of
           Inl e \<Rightarrow> (dm, ms, synced)
         | Inr m \<Rightarrow>
             if past_delay env (delay f) m
             then (AList.update blockID m dm, AList.delete blockID ms,
                   gauge_Inc synced MarkedForDeletionMeta)
             else (AList.update blockID m dm, ms, synced)))"

definition probe_err :: "filter_env \<Rightarrow> ulid \<Rightarrow> err option" where
  "probe_err env blockID =
     (case ReadMarker env blockID of
        Inl e \<Rightarrow>
          if Cause e = ErrorMarkerNotFound then None
          else if Cause e = ErrorUnmarshalMarker then None
          else Some e
      | Inr m \<Rightarrow> None)"

fun worker_lastErr :: "filter_env \<Rightarrow> ulid list \<Rightarrow> err option \<Rightarrow> err option" where
  "worker_lastErr env [] lastErr = lastErr"
| "worker_lastErr env (blockID # rest) lastErr =
     worker_lastErr env rest (case probe_err env blockID of Some e \<Rightarrow> Some e | None \<Rightarrow> lastErr)"

definition workers_errs :: "filter_env \<Rightarrow> nat \<Rightarrow> ulid list \<Rightarrow> err option list" where
  "workers_errs env n sent =
     map (\<lambda>k. worker_lastErr env (filter (\<lambda>blockID. owner env blockID mod n = k) sent) None) [0..<n]"

text \<open>\<open>errgroup.Wait\<close> returns the first error that a goroutine returned.\<close>

fun eg_Wait :: "err option list \<Rightarrow> err option" where
  "eg_Wait [] = None"
| "eg_Wait (Some e # rest) = Some e"
| "eg_Wait (None # rest) = eg_Wait rest"

text \<open>
  To speak of a worker's last error: the block IDs that worker \<open>k\<close> of \<open>n\<close> took, and
  those of a list whose probe fails with an error that the worker keeps.
\<close>

definition taken_by :: "filter_env \<Rightarrow> nat \<Rightarrow> ulid list \<Rightarrow> nat \<Rightarrow> ulid list" where
  "taken_by env n sent k = filter (\<lambda>blockID. owner env blockID mod n = k) sent"

definition failing :: "filter_env \<Rightarrow> ulid list \<Rightarrow> ulid list" where
  "failing env ids = filter (\<lambda>blockID. probe_err env blockID \<noteq> None) ids"

definition IgnoreDeletionMark_Filter ::
  "filter_env \<Rightarrow> IgnoreDeletionMarkFilter \<Rightarrow> meta_map \<Rightarrow> TxGaugeVec \<Rightarrow>
   (err option \<times> IgnoreDeletionMarkFilter \<times> meta_map \<times> TxGaugeVec) outcome" where
  "IgnoreDeletionMark_Filter env f ms synced =
     (let blockIDs = map fst ms
      in if mark_concurrency f < 0 then Panics
         else case scheduler (mark_concurrency f) blockIDs None (marks_cancelled_after env) of
           None \<Rightarrow> Blocks
         | Some (sent, sched_err) \<Rightarrow>
             (let (deletionMarkMap', ms', synced') = fold (probe_step env f) sent ([], ms, synced);
                  errs = workers_errs env (nat (mark_concurrency f)) sent
              in case eg_Wait (if scheduler_first env then sched_err # errs else errs @ [sched_err]) of
                   Some e \<Rightarrow> Returns (Some (Wrap e ''filter blocks marked for deletion''), f, ms', synced')
                 | None \<Rightarrow> Returns (None, f\<lparr>deletionMarkMap := deletionMarkMap'\<rparr>, ms', synced')))"

text \<open>
  \<open>MetadataFilter\<close> is an interface. Its two implementations in this file are
  modelled as they are written; any other implementation is a function of what the
  interface hands to it: the map of metas and the two gauges.
\<close>

datatype MetadataFilter =
    ConsistencyDelayMetaFilter int
  | IgnoreDeletionMark IgnoreDeletionMarkFilter
  | OtherFilter "meta_map \<Rightarrow> TxGaugeVec \<Rightarrow> TxGaugeVec \<Rightarrow>
                 (err option \<times> meta_map \<times> TxGaugeVec \<times> TxGaugeVec) outcome"

text \<open>A filter is called with a reference to the map; what it does to the map it does there.\<close>

fun Filter ::
  "filter_env \<Rightarrow> MetadataFilter \<Rightarrow> world \<Rightarrow> addr \<Rightarrow> TxGaugeVec \<Rightarrow> TxGaugeVec \<Rightarrow>
   (err option \<times> MetadataFilter \<times> world \<times> TxGaugeVec \<times> TxGaugeVec) outcome" where
  "Filter env (ConsistencyDelayMetaFilter d) w a synced modified =
     (case ConsistencyDelay_loop env d (heap w a) (heap w a) synced of
        (ms', synced') \<Rightarrow>
          Returns (None, ConsistencyDelayMetaFilter d, store w a ms', synced', modified))"
| "Filter env (IgnoreDeletionMark f) w a synced modified =
     (case IgnoreDeletionMark_Filter env f (heap w a) synced of
        Returns (e, f', ms', synced') \<Rightarrow>
          Returns (e, IgnoreDeletionMark f', store w a ms', synced', modified)
      | Blocks \<Rightarrow> Blocks
      | Panics \<Rightarrow> Panics)"
| "Filter env (OtherFilter g) w a synced modified =
     (case g (heap w a) synced modified of
        Returns (e, ms', synced', modified') \<Rightarrow>
          Returns (e, OtherFilter g, store w a ms', synced', modified')
      | Blocks \<Rightarrow> Blocks
      | Panics \<Rightarrow> Panics)"

text \<open>The loop over the filters in \<open>fetch\<close>; it stops at the first error.\<close>

fun run_filters ::
  "filter_env \<Rightarrow> MetadataFilter list \<Rightarrow> world \<Rightarrow> addr \<Rightarrow> TxGaugeVec \<Rightarrow> TxGaugeVec \<Rightarrow>
   (err option \<times> MetadataFilter list \<times> world \<times> TxGaugeVec \<times> TxGaugeVec) outcome" where
  "run_filters env [] w a synced modified = Returns (None, [], w, synced, modified)"
| "run_filters env (flt # rest) w a synced modified =
     (case Filter env flt w a synced modified of
        Returns (Some e, flt', w', synced', modified') \<Rightarrow>
          Returns (Some e, flt' # rest, w', synced', modified')
      | Returns (None, flt', w', synced', modified') \<Rightarrow>
          (case run_filters env rest w' a synced' modified' of
             Returns (e, rest', w'', synced'', modified'') \<Rightarrow>
               Returns (e, flt' # rest', w'', synced'', modified'')
           | Blocks \<Rightarrow> Blocks
           | Panics \<Rightarrow> Panics)
      | Blocks \<Rightarrow> Blocks
      | Panics \<Rightarrow> Panics)"

subsection \<open>fetch and Fetch\<close>

text \<open>
  \<open>f.g.Do\<close> is the single-flight group: the caller either runs \<open>fetchMetadata\<close>
  itself, or finds a run in flight and is handed that run's result. What \<open>fetch\<close>
  returns is a reference to the map of metas (or nil), the partial map (or nil) and the
  error (or nil). The deferred update of the failure counter is applied on every way
  out; the duration histogram is left out.
\<close>

datatype flight = Leads iter_run | Shares "err + response"

record fetched =
  ret_metas :: "addr option"
  ret_partial :: "(ulid \<times> err) list option"
  ret_err :: "err option"

definition deferred :: "FetcherMetrics \<Rightarrow> err option \<Rightarrow> FetcherMetrics" where
  "deferred mt e = (if e \<noteq> None then mt\<lparr>SyncFailures := SyncFailures mt + 1\<rparr> else mt)"

definition g_Do ::
  "lib \<Rightarrow> flight \<Rightarrow> BaseFetcher \<Rightarrow> world \<Rightarrow> ((err + response) \<times> BaseFetcher \<times> world) outcome" where
  "g_Do l fl f w = (case fl of Leads run \<Rightarrow> fetchMetadata l run f w | Shares v \<Rightarrow> Returns (v, f, w))"

definition fetch ::
  "lib \<Rightarrow> filter_env \<Rightarrow> flight \<Rightarrow> BaseFetcher \<Rightarrow> world \<Rightarrow> FetcherMetrics \<Rightarrow> MetadataFilter list \<Rightarrow>
   (fetched \<times> BaseFetcher \<times> world \<times> FetcherMetrics \<times> MetadataFilter list) outcome" where
  "fetch l env fl f w mt filters =
     (let mt1 = mt\<lparr>Syncs := Syncs mt + 1, Synced := ResetTx (Synced mt), Modified := ResetTx (Modified mt)\<rparr>
      in case g_Do l fl f w of
           Blocks \<Rightarrow> Blocks
         | Panics \<Rightarrow> Panics
         | Returns (Inl e, f', w') \<Rightarrow>
             Returns (\<lparr>ret_metas = None, ret_partial = None, ret_err = Some e\<rparr>,
                      f', w', deferred mt1 (Some e), filters)
         | Returns (Inr resp, f', w') \<Rightarrow>
             (let (a, w1) = make_map w';
                  w2 = store w1 a (copy_into (heap w1 (metas resp)) (heap w1 a));
                  synced1 = gauge_Set (gauge_Set (gauge_Set (Synced mt1)
                              FailedMeta (length (metaErrs resp)))
                              NoMeta (noMetas resp))
                              CorruptedMeta (corruptedMetas resp)
              in case run_filters env filters w2 a synced1 (Modified mt1) of
                   Blocks \<Rightarrow> Blocks
                 | Panics \<Rightarrow> Panics
                 | Returns (Some e, filters', w3, synced', modified') \<Rightarrow>
                     Returns (\<lparr>ret_metas = None, ret_partial = None,
                                ret_err = Some (Wrap e ''filter metas'')\<rparr>,
                              f', w3,
                              deferred (mt1\<lparr>Synced := synced', Modified := modified'\<rparr>)
                                (Some (Wrap e ''filter metas'')),
                              filters')
                 | Returns (None, filters', w3, synced', modified') \<Rightarrow>
                     (let mt2 = mt1\<lparr>Synced := Submit (gauge_Set synced' LoadedMeta (len (heap w3 a))),
                                     Modified := Submit modified'\<rparr>
                      in if length (metaErrs resp) > 0
                         then Returns (\<lparr>ret_metas = Some a, ret_partial = Some (partial resp),
                                         ret_err = Some (Wrap (MultiError (metaErrs resp)) ''incomplete view'')\<rparr>,
                                       f', w3,
                                       deferred mt2 (Some (Wrap (MultiError (metaErrs resp)) ''incomplete view'')),
                                       filters')
                         else Returns (\<lparr>ret_metas = Some a, ret_partial = Some (partial resp),
                                         ret_err = None\<rparr>,
                                       f', w3, deferred mt2 None, filters'))))"

record MetaFetcher =
  wrapped :: BaseFetcher
  metrics :: FetcherMetrics
  filters :: "MetadataFilter list"

definition Fetch ::
  "lib \<Rightarrow> filter_env \<Rightarrow> flight \<Rightarrow> MetaFetcher \<Rightarrow> world \<Rightarrow> (fetched \<times> MetaFetcher \<times> world) outcome" where
  "Fetch l env fl mf w =
     (case fetch l env fl (wrapped mf) w (metrics mf) (filters mf) of
        Returns (res, f', w', mt', filters') \<Rightarrow>
          Returns (res, \<lparr>wrapped = f', metrics = mt', filters = filters'\<rparr>, w')
      | Blocks \<Rightarrow> Blocks
      | Panics \<Rightarrow> Panics)"


subsection \<open>Vocabulary for the statements about a sync\<close>

text \<open>
  An error of \<open>loadMeta\<close> is a partial-block error when its cause is one of the two
  sentinels; every other error is a transport-level one. A listing completes when it
  ends without an error and no cancellation cuts the sending short. \<open>scan\<close> is the
  part of \<open>fetchMetadata\<close> between the creation of the response and
  \<open>eg.Wait\<close>: the workers' steps over the block IDs that were sent.
  \<open>incomplete_view\<close> is the error \<open>fetch\<close> ends with.
\<close>

definition partial_error :: "err \<Rightarrow> bool" where
  "partial_error e \<longleftrightarrow> Cause e = ErrorSyncMetaNotFound \<or> Cause e = ErrorSyncMetaCorrupted"

definition completes :: "iter_run \<Rightarrow> bool" where
  "completes run \<longleftrightarrow>
     list_err run = None \<and> (case cancelled_after run of None \<Rightarrow> True | Some n \<Rightarrow> length (dirs run) \<le> n)"

definition scan :: "lib \<Rightarrow> BaseFetcher \<Rightarrow> world \<Rightarrow> ulid list \<Rightarrow> response \<times> world" where
  "scan l f w sent =
     fold (worker_step l (f\<lparr>syncs := syncs f + 1\<rparr>)) sent
       (\<lparr>metas = top w, partial = [], metaErrs = [], noMetas = 0, corruptedMetas = 0\<rparr>,
        snd (make_map w))"

definition incomplete_view :: "response \<Rightarrow> err option" where
  "incomplete_view resp =
     (if length (metaErrs resp) > 0
      then Some (Wrap (MultiError (metaErrs resp)) ''incomplete view'') else None)"

text \<open>
  \<open>filter_run\<close> is the part of \<open>fetch\<close> between the answer of the single-flight
  group and the test of the filters' error: the copy of the response's map, the three
  gauges staged from the response, and the loop over the filters.
\<close>

definition filter_run ::
  "filter_env \<Rightarrow> MetadataFilter list \<Rightarrow> world \<Rightarrow> response \<Rightarrow> FetcherMetrics \<Rightarrow>
   (err option \<times> MetadataFilter list \<times> world \<times> TxGaugeVec \<times> TxGaugeVec) outcome" where
  "filter_run env flts w resp mt =
     (let (a, w1) = make_map w;
          w2 = store w1 a (copy_into (heap w1 (metas resp)) (heap w1 a));
          synced1 = gauge_Set (gauge_Set (gauge_Set (ResetTx (Synced mt))
                      FailedMeta (length (metaErrs resp)))
                      NoMeta (noMetas resp))
                      CorruptedMeta (corruptedMetas resp)
      in run_filters env flts w2 a synced1 (ResetTx (Modified mt)))"

definition allocated :: "world \<Rightarrow> addr \<Rightarrow> bool" where
  "allocated w a \<longleftrightarrow> a < top w \<and> distinct (map fst (heap w a))"


text \<open>
  What a call of \<open>fetch\<close> may assume of the state it starts in: the fetcher's cache
  is a map that exists, and so is the map of a response handed over by the
  single-flight group.
\<close>

definition wf_call :: "world \<Rightarrow> BaseFetcher \<Rightarrow> flight \<Rightarrow> bool" where
  "wf_call w f fl \<longleftrightarrow>
     cached f < top w \<and>
     (case fl of
        Leads run \<Rightarrow> True
      | Shares v \<Rightarrow> (case v of Inl e \<Rightarrow> True | Inr resp \<Rightarrow> allocated w (metas resp)))"

text \<open>The filters written in this file, as opposed to any other implementation.\<close>

fun source_filter :: "MetadataFilter \<Rightarrow> bool" where
  "source_filter (ConsistencyDelayMetaFilter d) = True"
| "source_filter (IgnoreDeletionMark f) = True"
| "source_filter (OtherFilter g) = False"


subsection \<open>A concrete fetcher\<close>

text \<open>
  A bucket with one block, whose \<open>meta.json\<close> reads \<open>{}\<close> (the toy codec's one
  document), a fetcher with one worker, no cache directory and an empty cache at
  address 0, a listing that finds the block, and the outside of a filter run with a
  clock at one second and no deletion marks. Variants: a bucket whose every call
  fails, a listing cut short, a block with a deletion mark that cannot be read.
\<close>

definition demo_lib2 :: lib where
  "demo_lib2 = demo_lib\<lparr>ulid_String :=
     (\<lambda>u. if u = 1 then ''00000000000000000000000001''
          else if u = 2 then ''00000000000000000000000002''
          else if u = 3 then ''00000000000000000000000003''
          else ''00000000000000000000000004'')\<rparr>"

definition demo_reader :: bucket_reader where
  "demo_reader = \<lparr>
     Exists = (\<lambda>p. Inr (p = ''00000000000000000000000001/meta.json'')),
     Get = (\<lambda>p. Inr (Inr ''{}'')),
     IsObjNotFoundErr = (\<lambda>e. e = External ''object not found'')\<rparr>"

definition demo_fetcher :: BaseFetcher where
  "demo_fetcher = \<lparr>concurrency = 1, bkt = demo_reader, cacheDir = [], syncs = 0, cached = 0\<rparr>"

definition demo_world :: world where
  "demo_world = \<lparr>heap = (\<lambda>a. []), top = 1, disk = Map.empty\<rparr>"

definition demo_run :: iter_run where
  "demo_run = \<lparr>dirs = [1], list_err = None, cancelled_after = None\<rparr>"

definition demo_env :: filter_env where
  "demo_env = \<lparr>Now = (\<lambda>blockID. 1000), ReadMarker = (\<lambda>blockID. Inl ErrorMarkerNotFound),
     past_delay = (\<lambda>d m. False), owner = (\<lambda>blockID. 0), marks_cancelled_after = None,
     scheduler_first = False\<rparr>"

definition demo_metrics :: FetcherMetrics where
  "demo_metrics = \<lparr>Syncs = 0, SyncFailures = 0,
     Synced = \<lparr>tx = (\<lambda>lv. 0), published = (\<lambda>lv. 0)\<rparr>,
     Modified = \<lparr>tx = (\<lambda>lv. 0), published = (\<lambda>lv. 0)\<rparr>\<rparr>"


definition demo_meta_fetcher :: MetaFetcher where
  "demo_meta_fetcher = \<lparr>wrapped = demo_fetcher, metrics = demo_metrics,
     filters = [ConsistencyDelayMetaFilter 1800000000000]\<rparr>"

definition demo_failing_reader :: bucket_reader where
  "demo_failing_reader = \<lparr>
     Exists = (\<lambda>p. Inl (External ''context canceled'')),
     Get = (\<lambda>p. Inl (External ''context canceled'')),
     IsObjNotFoundErr = (\<lambda>e. e = External ''object not found'')\<rparr>"

definition demo_failing_fetcher :: BaseFetcher where
  "demo_failing_fetcher = demo_fetcher\<lparr>bkt := demo_failing_reader\<rparr>"

definition demo_cancelled_run :: iter_run where
  "demo_cancelled_run = \<lparr>dirs = [1, 2], list_err = None, cancelled_after = Some 1\<rparr>"


subsection \<open>Vocabulary for the statements about one block\<close>

text \<open>
  \<open>loadMeta\<close> gets as far as the bucket's \<open>Get\<close> when the block is neither in the
  in-memory cache nor readable from the local cache directory. The bucket's answers
  for a block: its \<open>meta.json\<close> exists at the \<open>Exists\<close> call and is gone at the
  \<open>Get\<close>; its \<open>meta.json\<close> parses but has another version than the recognized
  one; its answers cannot produce a transport-level error. The two errors \<open>loadMeta\<close>
  makes of the first two (their texts are abridged).
\<close>

definition reaches_bucket :: "BaseFetcher \<Rightarrow> world \<Rightarrow> ulid \<Rightarrow> bool" where
  "reaches_bucket f w blockID \<longleftrightarrow>
     map_of (heap w (cached f)) blockID = None \<and>
     (cacheDir f = [] \<or> (case disk w blockID of Some (DiskMeta m) \<Rightarrow> False | _ \<Rightarrow> True))"

definition deleted_in_between :: "lib \<Rightarrow> BaseFetcher \<Rightarrow> ulid \<Rightarrow> bool" where
  "deleted_in_between l f blockID \<longleftrightarrow>
     (let metaFile = path_Join (ulid_String l blockID) MetaFilename
      in Exists (bkt f) metaFile = Inr True \<and>
         (case Get (bkt f) metaFile of Inl e \<Rightarrow> IsObjNotFoundErr (bkt f) e | Inr r \<Rightarrow> False))"

definition unknown_version :: "lib \<Rightarrow> BaseFetcher \<Rightarrow> ulid \<Rightarrow> bool" where
  "unknown_version l f blockID \<longleftrightarrow>
     (let metaFile = path_Join (ulid_String l blockID) MetaFilename
      in Exists (bkt f) metaFile = Inr True \<and>
         (case Get (bkt f) metaFile of
            Inr (Inr metaContent) \<Rightarrow>
              (case json_Decode l metaContent of
                 Inr m \<Rightarrow> Version m \<noteq> TSDBVersion1 l
               | Inl e \<Rightarrow> False)
          | _ \<Rightarrow> False))"

definition transport_safe :: "lib \<Rightarrow> BaseFetcher \<Rightarrow> ulid \<Rightarrow> bool" where
  "transport_safe l f blockID \<longleftrightarrow>
     (let metaFile = path_Join (ulid_String l blockID) MetaFilename
      in case Exists (bkt f) metaFile of
           Inl e \<Rightarrow> False
         | Inr False \<Rightarrow> True
         | Inr True \<Rightarrow>
             (case Get (bkt f) metaFile of
                Inl e \<Rightarrow> IsObjNotFoundErr (bkt f) e
              | Inr (Inl e) \<Rightarrow> False
              | Inr (Inr metaContent) \<Rightarrow>
                  (case json_Decode l metaContent of
                     Inl e \<Rightarrow> True
                   | Inr m \<Rightarrow> Version m = TSDBVersion1 l)))"

definition deleted_err :: err where
  "deleted_err = Wrap ErrorSyncMetaNotFound ''meta.json was deleted''"

definition version_err :: "lib \<Rightarrow> ulid \<Rightarrow> err" where
  "version_err l blockID =
     Errorf (''unexpected meta file: '' @ path_Join (ulid_String l blockID) MetaFilename @ '' version'')"


definition demo_deleted_fetcher :: BaseFetcher where
  "demo_deleted_fetcher = demo_fetcher\<lparr>bkt := demo_reader\<lparr>Get := (\<lambda>p. Inl (External ''object not found''))\<rparr>\<rparr>"

definition demo_v2_fetcher :: BaseFetcher where
  "demo_v2_fetcher = demo_fetcher\<lparr>bkt := demo_reader\<lparr>Get := (\<lambda>p. Inr (Inr ''v2''))\<rparr>\<rparr>"

text \<open>
  A bucket with two blocks, the first of version 2 and the second of the recognized
  version, and the listing that finds both.
\<close>

definition demo_pair_fetcher :: BaseFetcher where
  "demo_pair_fetcher = demo_fetcher\<lparr>bkt := \<lparr>
     Exists = (\<lambda>p. Inr (p = ''00000000000000000000000001/meta.json''
                         \<or> p = ''00000000000000000000000002/meta.json'')),
     Get = (\<lambda>p. if p = ''00000000000000000000000001/meta.json'' then Inr (Inr ''v2'')
                 else Inr (Inr ''{}'')),
     IsObjNotFoundErr = (\<lambda>e. e = External ''object not found'')\<rparr>\<rparr>"

definition demo_pair_run :: iter_run where
  "demo_pair_run = \<lparr>dirs = [1, 2], list_err = None, cancelled_after = None\<rparr>"


section \<open>Readiness gate of a compaction job\<close>

text \<open>
  Modelled from the spec: the readiness gate \<open>jobWaitPeriodElapsed\<close> and the job it
  reads; their code is not among the files at hand, only the test
  \<open>TestJobWaitPeriodElapsed\<close> is. After the spec: when the wait period is 0 the job
  is ready; otherwise the level-1 metas of the job are probed in order for the
  attributes of their \<open>meta.json\<close>; a failed probe ends the scan with that meta and
  the error; a last modification within the wait period ends it with that meta and no
  error; when the scan runs to its end the job is ready. Metas of another level are not
  probed. Times and durations are nanoseconds.
\<close>

record Job =
  userID :: string
  key :: string
  shardID :: string
  metasByMinTime :: "meta list"

record gate_env =
  time_Now :: int
  Attributes :: "string \<Rightarrow> err + int"

fun probe_level1 :: "lib \<Rightarrow> gate_env \<Rightarrow> int \<Rightarrow> meta list \<Rightarrow> bool \<times> meta option \<times> err option" where
  "probe_level1 l env waitPeriod [] = (True, None, None)"
| "probe_level1 l env waitPeriod (m # rest) =
     (if Level m = 1 then
        (case Attributes env (path_Join (ulid_String l (ULID m)) MetaFilename) of
           Inl e \<Rightarrow> (False, Some m, Some e)
         | Inr lastModified \<Rightarrow>
             if time_Now env - lastModified < waitPeriod then (False, Some m, None)
             else probe_level1 l env waitPeriod rest)
      else probe_level1 l env waitPeriod rest)"

definition jobWaitPeriodElapsed :: "lib \<Rightarrow> gate_env \<Rightarrow> Job \<Rightarrow> int \<Rightarrow> bool \<times> meta option \<times> err option" where
  "jobWaitPeriodElapsed l env job waitPeriod =
     (if waitPeriod = 0 then (True, None, None)
      else probe_level1 l env waitPeriod (metasByMinTime job))"

text \<open>A level-1 meta is too recent, or its probe fails.\<close>

definition too_recent :: "lib \<Rightarrow> gate_env \<Rightarrow> int \<Rightarrow> meta \<Rightarrow> bool" where
  "too_recent l env waitPeriod m \<longleftrightarrow>
     Level m = 1 \<and>
     (case Attributes env (path_Join (ulid_String l (ULID m)) MetaFilename) of
        Inl e \<Rightarrow> False
      | Inr lastModified \<Rightarrow> time_Now env - lastModified < waitPeriod)"

definition probe_fails :: "lib \<Rightarrow> gate_env \<Rightarrow> meta \<Rightarrow> bool" where
  "probe_fails l env m \<longleftrightarrow>
     Level m = 1 \<and>
     (case Attributes env (path_Join (ulid_String l (ULID m)) MetaFilename) of
        Inl e \<Rightarrow> True
      | Inr lastModified \<Rightarrow> False)"


subsection \<open>The cases of TestJobWaitPeriodElapsed\<close>

definition minute :: int where
  "minute = 60000000000"

definition test_meta :: "ulid \<Rightarrow> int \<Rightarrow> meta" where
  "test_meta blockID lvl = \<lparr>ULID = blockID, MinTime = 0, MaxTime = 0, Version = 0, Level = lvl,
      Sources = [], Labels = None, Source = [], Files = []\<rparr>"

definition test_job :: "meta list \<Rightarrow> Job" where
  "test_job ms = \<lparr>userID = ''user-1'', key = ''group-1'', shardID = ''shard-1'', metasByMinTime = ms\<rparr>"

definition test_bucket :: "(string \<times> (err + int)) list \<Rightarrow> gate_env" where
  "test_bucket mocked = \<lparr>time_Now = 100 * minute,
      Attributes = (\<lambda>p. case map_of mocked p of Some r \<Rightarrow> r | None \<Rightarrow> Inl (External ''not mocked''))\<rparr>"

subsection \<open>A concrete run of the deletion-mark filter\<close>

text \<open>
  Two blocks: the first has a deletion mark that is past the delay, the probe of the
  second times out. One worker, and no marks published so far.
\<close>

definition demo_mark_env :: filter_env where
  "demo_mark_env = demo_env\<lparr>
     ReadMarker := (\<lambda>blockID. if blockID = 1 then Inr \<lparr>mark_ID = 1, DeletionTime = 0\<rparr>
                               else Inl (External ''timeout'')),
     past_delay := (\<lambda>d m. True)\<rparr>"

definition demo_mark_filter :: IgnoreDeletionMarkFilter where
  "demo_mark_filter = \<lparr>delay = 0, mark_concurrency = 1, deletionMarkMap = []\<rparr>"

definition demo_gauge :: TxGaugeVec where
  "demo_gauge = \<lparr>tx = (\<lambda>lv. 0), published = (\<lambda>lv. 0)\<rparr>"

text \<open>
  Two more runs: one in which both probes fail, with different errors, and one in which
  no probe fails and the context is cancelled after the first block ID was sent.
\<close>

definition demo_two_failures_env :: filter_env where
  "demo_two_failures_env = demo_env\<lparr>
     ReadMarker := (\<lambda>blockID. if blockID = 1 then Inl (External ''connection reset'')
                               else Inl (External ''timeout''))\<rparr>"

definition demo_cancelled_env :: filter_env where
  "demo_cancelled_env = demo_env\<lparr>marks_cancelled_after := Some 1\<rparr>"

section \<open>Properties\<close>

subsection \<open>sanitizeMeta\<close>

lemma sanitize_labels_eq:
  "sanitize_labels c es lbls rej =
     (filter (\<lambda>(k, v). \<not> (unused c k \<and> k \<in> fst ` set es)) lbls,
      rej @ filter (unsupported c) (map fst es))"
proof (induction es arbitrary: lbls rej)
  case Nil
  then show ?case by simp
next
  case (Cons e es)
  obtain l v where e: "e = (l, v)" by (cases e)
  have del: "filter (\<lambda>(k, v). \<not> (unused c k \<and> k \<in> fst ` set es)) (AList.delete l lbls)
      = filter (\<lambda>(k, v). \<not> (unused c k \<and> (k = l \<or> k \<in> fst ` set es))) lbls"
    if "unused c l"
    using that by (induction lbls) (auto simp: AList.delete_eq)
  have keep: "filter (\<lambda>(k, v). \<not> (unused c k \<and> k \<in> fst ` set es)) lbls
      = filter (\<lambda>(k, v). \<not> (unused c k \<and> (k = l \<or> k \<in> fst ` set es))) lbls"
    if "\<not> unused c l"
    using that by (induction lbls) auto
  show ?case
    using Cons.IH del keep
    by (auto simp: e unsupported_def unused_def)
qed

lemma sanitize_labels_self:
  "sanitize_labels c lbls lbls [] =
     (filter (\<lambda>(k, v). \<not> unused c k) lbls, filter (unsupported c) (map fst lbls))"
proof -
  have "filter (\<lambda>(k, v). \<not> (unused c k \<and> k \<in> fst ` set lbls)) lbls
      = filter (\<lambda>(k, v). \<not> unused c k) lbls"
    by (rule filter_cong) force+
  then show ?thesis by (simp add: sanitize_labels_eq)
qed

lemma map_of_filter_keep:
  "map_of al k = Some v \<Longrightarrow> P k \<Longrightarrow> map_of (filter (\<lambda>(k, v). P k) al) k = Some v"
  by (induction al) (auto split: if_splits)

text \<open>
  C9. sanitizeMeta is idempotent: whenever it succeeds on a meta for a tenant and a
  block ID, running it again on the result with the same tenant and block ID succeeds
  too and returns the very same meta.
\<close>

theorem sanitizeMeta_idempotent:
  assumes "sanitizeMeta c tenantID blockID m = (None, m')"
  shows "sanitizeMeta c tenantID blockID m' = (None, m')"
proof -
  define T where "T = TenantIDExternalLabel c"
  define lbls0 where "lbls0 = (case Labels m of None \<Rightarrow> [] | Some l \<Rightarrow> l)"
  define lbls1 where "lbls1 = AList.update T tenantID lbls0"
  define L where "L = filter (\<lambda>(k, v). \<not> unused c k) lbls1"
  define R where "R = filter (unsupported c) (map fst lbls1)"
  have run: "sanitize_labels c lbls1 lbls1 [] = (L, R)"
    by (simp add: sanitize_labels_self L_def R_def)
  from assms have "(if length R > 0
       then (Some (errBadRequest (''unsupported external label(s): '' @ strings_Join R '','')),
             m\<lparr>ULID := blockID, Labels := Some L\<rparr>)
       else (None, m\<lparr>ULID := blockID, Labels := Some L, Source := ''upload''\<rparr>)) = (None, m')"
    unfolding sanitizeMeta_def Let_def T_def [symmetric] lbls0_def [symmetric]
      lbls1_def [symmetric] run by simp
  then have "R = []"
    and m': "m' = m\<lparr>ULID := blockID, Labels := Some L, Source := ''upload''\<rparr>"
    by (auto split: if_splits)
  then have norej: "filter (unsupported c) (map fst lbls1) = []"
    by (simp add: R_def)
  have "map_of lbls1 T = Some tenantID"
    by (simp add: lbls1_def update_conv')
  moreover have "\<not> unused c T"
    by (simp add: unused_def preserved_def T_def)
  ultimately have "map_of L T = Some tenantID"
    unfolding L_def by (rule map_of_filter_keep)
  then have upd: "AList.update T tenantID L = L"
    by (rule update_triv)
  have LL: "filter (\<lambda>(k, v). \<not> unused c k) L = L"
    by (simp add: L_def case_prod_unfold)
  have "set L \<subseteq> set lbls1"
    by (auto simp: L_def)
  with norej have norej': "filter (unsupported c) (map fst L) = []"
    by (auto simp: filter_empty_conv)
  have run': "sanitize_labels c L L [] = (L, [])"
    by (simp add: sanitize_labels_self LL norej')
  show ?thesis
    using upd run' by (simp add: sanitizeMeta_def m' T_def [symmetric])
qed


theorem sanitizeMeta_idempotent_witness:
  "sanitizeMeta demo_ext ''user-1'' 1 demo_meta
     = (None, demo_meta\<lparr>ULID := 1, Labels := Some [(''__org_id__'', ''user-1'')], Source := ''upload''\<rparr>)
   \<and> sanitizeMeta demo_ext ''user-1'' 1
        (demo_meta\<lparr>ULID := 1, Labels := Some [(''__org_id__'', ''user-1'')], Source := ''upload''\<rparr>)
     = (None, demo_meta\<lparr>ULID := 1, Labels := Some [(''__org_id__'', ''user-1'')], Source := ''upload''\<rparr>)"
proof -
  have first: "sanitizeMeta demo_ext ''user-1'' 1 demo_meta
     = (None, demo_meta\<lparr>ULID := 1, Labels := Some [(''__org_id__'', ''user-1'')], Source := ''upload''\<rparr>)"
    by (simp add: sanitizeMeta_def demo_ext_def demo_meta_def preserved_def unused_def)
  show ?thesis
    using first sanitizeMeta_idempotent [OF first] by simp
qed

subsection \<open>Paths\<close>

lemma rePath_last:
  assumes "rePath_MatchString p"
  shows "p \<noteq> [] \<and> (last p = CHR ''x'' \<or> is_digit (last p))"
proof (cases "p = ''index''")
  case True
  then show ?thesis by simp
next
  case False
  with assms have len: "length p = 13" and dig: "list_all is_digit (drop 7 p)"
    by (auto simp: rePath_MatchString_def)
  from len have ne: "p \<noteq> []" "drop 7 p \<noteq> []" by auto
  have "last (drop 7 p) = last p" using len by (intro last_drop) simp
  moreover have "last (drop 7 p) \<in> set (drop 7 p)" using ne(2) by (rule last_in_set)
  ultimately have "is_digit (last p)" using dig by (auto simp: list_all_iff)
  with ne show ?thesis by simp
qed

lemma path_Base_last:
  assumes "p \<noteq> []" "last p \<noteq> CHR ''/''"
  shows "path_Base p \<noteq> [] \<and> last (path_Base p) = last p"
proof (cases p rule: rev_cases)
  case Nil
  with assms show ?thesis by simp
next
  case (snoc ys c)
  with assms(2) have c: "c \<noteq> CHR ''/''" by simp
  then show ?thesis by (simp add: path_Base_def snoc)
qed

lemma meta_json_not_allowed:
  assumes "path_Base p = ''meta.json''"
  shows "\<not> rePath_MatchString p"
proof
  assume m: "rePath_MatchString p"
  from rePath_last [OF m] have ne: "p \<noteq> []" and l: "last p = CHR ''x'' \<or> is_digit (last p)"
    by auto
  from l have "last p \<noteq> CHR ''/''" by (auto simp: is_digit_def)
  from path_Base_last [OF ne this] assms have "last p = CHR ''n''" by simp
  with l show False by (auto simp: is_digit_def)
qed

lemma allowed_file_not_meta_json:
  assumes "rePath_MatchString pth"
  shows "path_Base (path_Join dir pth) \<noteq> ''meta.json''"
proof
  assume b: "path_Base (path_Join dir pth) = ''meta.json''"
  from rePath_last [OF assms] have ne: "pth \<noteq> []" and l: "last pth = CHR ''x'' \<or> is_digit (last pth)"
    by auto
  have j: "path_Join dir pth \<noteq> []" "last (path_Join dir pth) = last pth"
    using ne by (simp_all add: path_Join_def)
  from l have "last pth \<noteq> CHR ''/''" by (auto simp: is_digit_def)
  with path_Base_last [OF j(1)] j(2) b have "last pth = CHR ''n''" by simp
  with l show False by (auto simp: is_digit_def)
qed

lemma path_Base_meta_json: "path_Base (path_Join dir ''meta.json'') = ''meta.json''"
  by (simp add: path_Base_def path_Join_def takeWhile_append)

subsection \<open>What each handler does to the bucket\<close>

lemma UploadBlockFile_bad_path:
  "\<not> rePath_MatchString (query_path r) \<Longrightarrow>
   \<exists>msg. UploadBlockFile l b r = (Resp StatusBadRequest msg, b)"
  by (auto simp: UploadBlockFile_def Let_def http_Error_def split: sum.splits)

lemma UploadBlockFile_empty:
  "Body r = None \<or> ContentLength r = 0 \<Longrightarrow>
   \<exists>msg. UploadBlockFile l b r = (Resp StatusBadRequest msg, b)"
  by (auto simp: UploadBlockFile_def Let_def http_Error_def split: sum.splits)

lemma UploadBlockFile_upload_reached:
  "CUpload p \<in> set (new_calls b (snd (UploadBlockFile l b r))) \<Longrightarrow>
   rePath_MatchString (query_path r) \<and> Body r \<noteq> None \<and> ContentLength r \<noteq> 0
   \<and> p = path_Join (var_block r) (query_path r)"
  by (auto simp: UploadBlockFile_def Let_def http_Error_def new_calls_def
      bkt_Exists_def bkt_Get_def bkt_Upload_def called_def
      split: sum.splits if_splits option.splits prod.splits bool.splits)

lemma createBlockUpload_writes:
  "\<exists>ws. writes (snd (createBlockUpload l b r t blockID)) = writes b @ ws \<and>
     (ws = [] \<or> (\<exists>c. ws = [Uploaded (path_Join (ulid_String l blockID) ''meta.json.temp'') c]))"
  by (auto simp: createBlockUpload_def uploadMeta_def Let_def bkt_Exists_def bkt_Upload_def called_def
      split: sum.splits option.splits prod.splits bool.splits)

lemma createBlockUpload_objects:
  "p \<noteq> path_Join (ulid_String l blockID) ''meta.json.temp'' \<Longrightarrow>
   objects (snd (createBlockUpload l b r t blockID)) p = objects b p"
  by (auto simp: createBlockUpload_def uploadMeta_def Let_def bkt_Exists_def bkt_Upload_def called_def
      split: sum.splits option.splits prod.splits bool.splits)

lemma UploadBlockFile_writes:
  "\<exists>ws. writes (snd (UploadBlockFile l b r)) = writes b @ ws \<and>
     (ws = [] \<or> (rePath_MatchString (query_path r) \<and>
        (\<exists>c. ws = [Uploaded (path_Join (var_block r) (query_path r)) c])))"
  by (auto simp: UploadBlockFile_def Let_def http_Error_def
      bkt_Exists_def bkt_Get_def bkt_Upload_def called_def
      split: sum.splits if_splits option.splits prod.splits bool.splits)

lemma UploadBlockFile_objects:
  "p \<noteq> path_Join (var_block r) (query_path r) \<or> \<not> rePath_MatchString (query_path r) \<Longrightarrow>
   objects (snd (UploadBlockFile l b r)) p = objects b p"
  by (auto simp: UploadBlockFile_def Let_def http_Error_def
      bkt_Exists_def bkt_Get_def bkt_Upload_def called_def
      split: sum.splits if_splits option.splits prod.splits bool.splits)

lemma completeBlockUpload_writes:
  "\<exists>ws. writes (snd (completeBlockUpload l b r t blockID)) = writes b @ ws \<and>
     (ws = [] \<or> (\<exists>c. ws = [Uploaded (path_Join (ulid_String l blockID) ''meta.json'') c]
               \<or> ws = [Uploaded (path_Join (ulid_String l blockID) ''meta.json'') c,
                        Deleted (path_Join (ulid_String l blockID) ''meta.json.temp'')]))"
  by (auto simp: completeBlockUpload_def uploadMeta_def Let_def bkt_Get_def bkt_Upload_def
      bkt_Delete_def called_def
      split: sum.splits option.splits prod.splits bool.splits)

lemma completeBlockUpload_ok:
  "fst (completeBlockUpload l b r t blockID) = WriteHeader StatusOK \<Longrightarrow>
   (\<exists>c. writes (snd (completeBlockUpload l b r t blockID)) =
          writes b @ [Uploaded (path_Join (ulid_String l blockID) ''meta.json'') c,
                      Deleted (path_Join (ulid_String l blockID) ''meta.json.temp'')])
   \<and> objects (snd (completeBlockUpload l b r t blockID))
        (path_Join (ulid_String l blockID) ''meta.json'') \<noteq> None"
  by (auto simp: completeBlockUpload_def uploadMeta_def Let_def bkt_Get_def bkt_Upload_def
      bkt_Delete_def called_def http_Error_def WriteHeader_def StatusOK_def
      StatusInternalServerError_def path_Join_def
      split: sum.splits option.splits prod.splits bool.splits if_splits)

lemma completeBlockUpload_appears:
  "objects b p = None \<Longrightarrow> objects (snd (completeBlockUpload l b r t blockID)) p \<noteq> None \<Longrightarrow>
   p = path_Join (ulid_String l blockID) ''meta.json'' \<and>
   (\<exists>c. Uploaded p c \<in> set (new_writes b (snd (completeBlockUpload l b r t blockID))))"
  by (auto simp: completeBlockUpload_def uploadMeta_def Let_def bkt_Get_def bkt_Upload_def
      bkt_Delete_def called_def new_writes_def
      split: sum.splits option.splits prod.splits bool.splits if_splits)

lemma handle_visibility:
  assumes before: "\<not> visible l b bid" and after: "visible l (snd (handle l b call)) bid"
  shows "is_commit call \<and>
    (\<exists>c. Uploaded (path_Join (ulid_String l bid) ''meta.json'') c
            \<in> set (new_writes b (snd (handle l b call))))"
proof (cases call)
  case (BlockFile r)
  let ?p = "path_Join (ulid_String l bid) ''meta.json''"
  have "?p \<noteq> path_Join (var_block r) (query_path r) \<or> \<not> rePath_MatchString (query_path r)"
    using allowed_file_not_meta_json [of "query_path r" "var_block r"] path_Base_meta_json
    by metis
  then have "objects (snd (UploadBlockFile l b r)) ?p = objects b ?p"
    by (rule UploadBlockFile_objects)
  with before after BlockFile show ?thesis by (simp add: visible_def)
next
  case (BlockUpload r)
  let ?p = "path_Join (ulid_String l bid) ''meta.json''"
  from before have none: "objects b ?p = None" by (simp add: visible_def)
  from after BlockUpload have some: "objects (snd (HandleBlockUpload l b r)) ?p \<noteq> None"
    by (simp add: visible_def)
  have notemp: "?p \<noteq> path_Join (ulid_String l u) ''meta.json.temp''" for u
    by (auto simp: path_Join_def dest: arg_cong [where f = last])
  show ?thesis
  proof (cases "query_uploadComplete r = ''true''")
    case False
    with some none createBlockUpload_objects [OF notemp] show ?thesis
      by (auto simp: HandleBlockUpload_def Let_def split: if_splits sum.splits)
  next
    case True
    from some none True obtain t u
      where h: "HandleBlockUpload l b r = completeBlockUpload l b r t u"
      by (auto simp: HandleBlockUpload_def Let_def split: if_splits sum.splits)
    from some h have "objects (snd (completeBlockUpload l b r t u)) ?p \<noteq> None"
      by simp
    from completeBlockUpload_appears [OF none this] obtain c
      where "Uploaded ?p c \<in> set (new_writes b (snd (completeBlockUpload l b r t u)))"
      by blast
    with h show ?thesis by (auto simp: BlockUpload True)
  qed
qed

lemmas demo_defs = demo_ext_def demo_meta_def demo_lib_def demo_bucket_def demo_staged_def
  demo_begin_def demo_file_def demo_commit_def demo_chunked_def demo_meta_json_def
  demo_client_def demo_flaky_client_def demo_other_commit_def demo_flaky_staged_def

lemmas upload_defs = UploadBlockFile_def HandleBlockUpload_def createBlockUpload_def
  completeBlockUpload_def uploadMeta_def bkt_Exists_def bkt_Get_def bkt_Upload_def bkt_Delete_def
  called_def path_Join_def path_Base_def rePath_MatchString_def is_digit_def http_Error_def
  WriteHeader_def StatusOK_def StatusBadRequest_def sanitizeMeta_def Let_def
  preserved_def unused_def visible_def new_writes_def new_calls_def

subsection \<open>uploadFile: what is rejected\<close>

text \<open>
  C6, as the code has it. UploadBlockFile answers 400, without touching the bucket,
  every request whose path is not exactly \<open>index\<close> or \<open>chunks/\<close> followed by six
  digits (a path whose base is \<open>meta.json\<close> is such a path), and every request whose
  body is nil or whose content length is 0. An upload call on the bucket is only made
  for a request that passed these checks, and it goes to the block's directory under
  the requested path.
\<close>

theorem UploadBlockFile_rejects:
  "(\<not> rePath_MatchString (query_path r) \<or> Body r = None \<or> ContentLength r = 0 \<longrightarrow>
      (\<exists>msg. UploadBlockFile l b r = (Resp StatusBadRequest msg, b)))
   \<and> (path_Base (query_path r) = ''meta.json'' \<longrightarrow> \<not> rePath_MatchString (query_path r))
   \<and> (CUpload p \<in> set (new_calls b (snd (UploadBlockFile l b r))) \<longrightarrow>
        rePath_MatchString (query_path r) \<and> Body r \<noteq> None \<and> ContentLength r \<noteq> 0
        \<and> p = path_Join (var_block r) (query_path r))"
  using UploadBlockFile_bad_path [of r l b] UploadBlockFile_empty [of r l b]
    meta_json_not_allowed [of "query_path r"] UploadBlockFile_upload_reached [of p b l r]
  by blast

theorem UploadBlockFile_rejects_witness:
  "path_Base (query_path demo_meta_json) = ''meta.json''
   \<and> \<not> rePath_MatchString (query_path demo_meta_json)
   \<and> UploadBlockFile demo_lib demo_staged demo_meta_json
       = (Resp 400 ''meta.json is not allowed'', demo_staged)
   \<and> CUpload ''00000000000000000000000001/index''
       \<in> set (new_calls demo_staged (snd (UploadBlockFile demo_lib demo_staged demo_file)))
   \<and> rePath_MatchString (query_path demo_file) \<and> Body demo_file \<noteq> None
   \<and> ContentLength demo_file \<noteq> 0"
  using UploadBlockFile_rejects [of demo_meta_json demo_lib demo_staged
      "''00000000000000000000000001/index''"]
    UploadBlockFile_rejects [of demo_file demo_lib demo_staged
      "''00000000000000000000000001/index''"]
  by (simp add: demo_defs upload_defs)

text \<open>
  The claim as written also rejects a request of unknown content length. The check is
  \<open>r.ContentLength == 0\<close>: a chunked request, whose length is \<open>-1\<close>, passes it even
  with an empty body, and its (empty) file is uploaded.
\<close>

theorem UploadBlockFile_unknown_length_counterexample:
  "Body demo_chunked = Some [] \<and> ContentLength demo_chunked = - 1 \<and>
   fst (UploadBlockFile demo_lib demo_staged demo_chunked) = Resp 200 [] \<and>
   writes (snd (UploadBlockFile demo_lib demo_staged demo_chunked))
     = [Uploaded ''00000000000000000000000001/index'' []]"
  by (simp add: demo_defs upload_defs)


subsection \<open>The visibility flip\<close>

lemma path_Base_meta_json_temp: "path_Base (path_Join dir ''meta.json.temp'') = ''meta.json.temp''"
  by (simp add: path_Base_def path_Join_def takeWhile_append)

lemma createBlockUpload_new_writes:
  assumes "w \<in> set (new_writes b (snd (createBlockUpload l b r t blockID)))"
  shows "(\<exists>c. w = Uploaded (path_Join (ulid_String l blockID) ''meta.json.temp'') c)
     \<and> \<not> writes_meta_json w"
  using createBlockUpload_writes [of l b r t blockID] assms
  by (auto simp: new_writes_def path_Base_meta_json_temp)

lemma UploadBlockFile_new_writes:
  assumes "w \<in> set (new_writes b (snd (UploadBlockFile l b r)))"
  shows "\<not> writes_meta_json w"
  using UploadBlockFile_writes [of l b r] assms allowed_file_not_meta_json
  by (auto simp: new_writes_def)

lemma completeBlockUpload_new_writes:
  "length (filter writes_meta_json (new_writes b (snd (completeBlockUpload l b r t blockID)))) \<le> 1"
  using completeBlockUpload_writes [of l b r t blockID]
  by (auto simp: new_writes_def)

lemma completeBlockUpload_ok_new_writes:
  assumes "fst (completeBlockUpload l b r t blockID) = WriteHeader StatusOK"
  shows "(\<exists>c. new_writes b (snd (completeBlockUpload l b r t blockID))
            = [Uploaded (path_Join (ulid_String l blockID) ''meta.json'') c,
               Deleted (path_Join (ulid_String l blockID) ''meta.json.temp'')])
     \<and> length (filter writes_meta_json
          (new_writes b (snd (completeBlockUpload l b r t blockID)))) = 1
     \<and> visible l (snd (completeBlockUpload l b r t blockID)) blockID"
  using completeBlockUpload_ok [OF assms]
  by (auto simp: new_writes_def visible_def path_Base_meta_json)

lemma handle_writes:
  "\<exists>ws. writes (snd (handle l b c)) = writes b @ ws
     \<and> length (filter writes_meta_json ws) \<le> (if is_commit c then 1 else 0)"
proof (cases c)
  case (BlockFile r)
  from UploadBlockFile_writes [of l b r] allowed_file_not_meta_json show ?thesis
    by (auto simp: BlockFile)
next
  case (BlockUpload r)
  show ?thesis
  proof (cases "query_uploadComplete r = ''true''")
    case True
    have "HandleBlockUpload l b r = (fst (HandleBlockUpload l b r), b)
        \<or> (\<exists>t u. HandleBlockUpload l b r = completeBlockUpload l b r t u)"
      using True by (auto simp: HandleBlockUpload_def Let_def http_Error_def split: sum.splits)
    then show ?thesis
    proof
      assume "HandleBlockUpload l b r = (fst (HandleBlockUpload l b r), b)"
      then have "snd (HandleBlockUpload l b r) = b" by (metis snd_conv)
      then show ?thesis by (simp add: BlockUpload)
    next
      assume "\<exists>t u. HandleBlockUpload l b r = completeBlockUpload l b r t u"
      then obtain t u where h: "HandleBlockUpload l b r = completeBlockUpload l b r t u" by blast
      from completeBlockUpload_writes [of l b r t u] show ?thesis
        by (auto simp: BlockUpload h True path_Base_meta_json)
    qed
  next
    case False
    have "HandleBlockUpload l b r = (fst (HandleBlockUpload l b r), b)
        \<or> (\<exists>t u. HandleBlockUpload l b r = createBlockUpload l b r t u)"
      using False by (auto simp: HandleBlockUpload_def Let_def http_Error_def split: sum.splits)
    then show ?thesis
    proof
      assume "HandleBlockUpload l b r = (fst (HandleBlockUpload l b r), b)"
      then have "snd (HandleBlockUpload l b r) = b" by (metis snd_conv)
      then show ?thesis by (simp add: BlockUpload)
    next
      assume "\<exists>t u. HandleBlockUpload l b r = createBlockUpload l b r t u"
      then obtain t u where h: "HandleBlockUpload l b r = createBlockUpload l b r t u" by blast
      from createBlockUpload_writes [of l b r t u] show ?thesis
        by (auto simp: BlockUpload h False path_Base_meta_json_temp)
    qed
  qed
qed

lemma HandleBlockUpload_commit_ok:
  assumes c: "query_uploadComplete r = ''true''"
    and ok: "fst (HandleBlockUpload l b r) = WriteHeader StatusOK"
  shows "\<exists>ws. writes (snd (HandleBlockUpload l b r)) = writes b @ ws
     \<and> length (filter writes_meta_json ws) = 1"
proof -
  from c ok obtain t u where h: "HandleBlockUpload l b r = completeBlockUpload l b r t u"
    by (auto simp: HandleBlockUpload_def Let_def http_Error_def WriteHeader_def StatusOK_def
        StatusBadRequest_def split: sum.splits if_splits)
  from ok h have "fst (completeBlockUpload l b r t u) = WriteHeader StatusOK" by simp
  from completeBlockUpload_ok [OF this] h show ?thesis
    by (auto simp: path_Base_meta_json)
qed


lemma completeBlockUpload_commits:
  assumes st: "staged l b blockID = Some buf"
    and g: "no_fault b 0 (CGet (path_Join (ulid_String l blockID) ''meta.json.temp''))"
    and u: "no_fault b 1 (CUpload (path_Join (ulid_String l blockID) ''meta.json''))"
  shows "new_writes b (snd (completeBlockUpload l b r t blockID)) =
      Uploaded (path_Join (ulid_String l blockID) ''meta.json'') buf #
        (if no_fault b 2 (CDelete (path_Join (ulid_String l blockID) ''meta.json.temp''))
         then [Deleted (path_Join (ulid_String l blockID) ''meta.json.temp'')] else [])"
    and "visible l (snd (completeBlockUpload l b r t blockID)) blockID"
    and "fst (completeBlockUpload l b r t blockID) =
      (if no_fault b 2 (CDelete (path_Join (ulid_String l blockID) ''meta.json.temp''))
       then WriteHeader StatusOK
       else http_Error ''internal server error'' StatusInternalServerError)"
    and "staged l (snd (completeBlockUpload l b r t blockID)) blockID =
      (if no_fault b 2 (CDelete (path_Join (ulid_String l blockID) ''meta.json.temp''))
       then None else Some buf)"
    and "fault (snd (completeBlockUpload l b r t blockID)) = fault b"
    and "length (calls (snd (completeBlockUpload l b r t blockID))) = length (calls b) + 3"
  using assms
  by (auto simp: staged_def no_fault_def completeBlockUpload_def uploadMeta_def Let_def
      bkt_Get_def bkt_Upload_def bkt_Delete_def called_def new_writes_def visible_def
      path_Join_def
      split: sum.splits option.splits prod.splits if_splits)

lemma completeBlockUpload_refuses:
  assumes "staged l b blockID = None
    \<or> \<not> no_fault b 0 (CGet (path_Join (ulid_String l blockID) ''meta.json.temp''))
    \<or> \<not> no_fault b 1 (CUpload (path_Join (ulid_String l blockID) ''meta.json''))"
  shows "new_writes b (snd (completeBlockUpload l b r t blockID)) = []"
    and "fst (completeBlockUpload l b r t blockID) =
      http_Error ''internal server error'' StatusInternalServerError"
    and "objects (snd (completeBlockUpload l b r t blockID)) = objects b"
  using assms
  by (auto simp: staged_def no_fault_def completeBlockUpload_def uploadMeta_def Let_def
      bkt_Get_def bkt_Upload_def bkt_Delete_def called_def new_writes_def
      split: sum.splits option.splits prod.splits if_splits)

lemma completeBlockUpload_ok_unstaged:
  assumes "fst (completeBlockUpload l b r t blockID) = WriteHeader StatusOK"
  shows "staged l (snd (completeBlockUpload l b r t blockID)) blockID = None"
  using assms
  by (auto simp: staged_def completeBlockUpload_def uploadMeta_def Let_def
      bkt_Get_def bkt_Upload_def bkt_Delete_def called_def http_Error_def WriteHeader_def
      StatusOK_def StatusInternalServerError_def
      split: sum.splits option.splits prod.splits if_splits)

lemma completeBlockUpload_repeated:
  assumes "fst (completeBlockUpload l b r t blockID) = WriteHeader StatusOK"
  shows "new_writes (snd (completeBlockUpload l b r t blockID))
      (snd (completeBlockUpload l (snd (completeBlockUpload l b r t blockID)) r' t' blockID)) = []"
  using completeBlockUpload_refuses(1) [OF disjI1 [OF completeBlockUpload_ok_unstaged [OF assms]]] .

lemma new_writes_trans:
  assumes "writes b1 = writes b @ xs" and "writes b2 = writes b1 @ ys"
  shows "new_writes b b2 = new_writes b b1 @ new_writes b1 b2"
  using assms by (simp add: new_writes_def)

lemma completeBlockUpload_retried:
  assumes st: "staged l b blockID = Some buf"
    and g: "no_fault b 0 (CGet (path_Join (ulid_String l blockID) ''meta.json.temp''))"
    and u: "no_fault b 1 (CUpload (path_Join (ulid_String l blockID) ''meta.json''))"
    and d: "\<not> no_fault b 2 (CDelete (path_Join (ulid_String l blockID) ''meta.json.temp''))"
    and g': "no_fault b 3 (CGet (path_Join (ulid_String l blockID) ''meta.json.temp''))"
    and u': "no_fault b 4 (CUpload (path_Join (ulid_String l blockID) ''meta.json''))"
  shows "filter writes_meta_json
      (new_writes b (snd (completeBlockUpload l (snd (completeBlockUpload l b r t blockID)) r' t' blockID)))
    = [Uploaded (path_Join (ulid_String l blockID) ''meta.json'') buf,
       Uploaded (path_Join (ulid_String l blockID) ''meta.json'') buf]"
proof -
  let ?b1 = "snd (completeBlockUpload l b r t blockID)"
  let ?b2 = "snd (completeBlockUpload l ?b1 r' t' blockID)"
  note first = completeBlockUpload_commits [OF st g u, of r t]
  from first(4) d have st1: "staged l ?b1 blockID = Some buf" by simp
  from first(5,6) g' have g1: "no_fault ?b1 0 (CGet (path_Join (ulid_String l blockID) ''meta.json.temp''))"
    by (simp add: no_fault_def add.commute)
  from first(5,6) u' have u1: "no_fault ?b1 1 (CUpload (path_Join (ulid_String l blockID) ''meta.json''))"
    by (simp add: no_fault_def add.commute)
  note second = completeBlockUpload_commits [OF st1 g1 u1, of r' t']
  from completeBlockUpload_writes [of l b r t blockID] obtain xs where
    x: "writes ?b1 = writes b @ xs" by blast
  from completeBlockUpload_writes [of l ?b1 r' t' blockID] obtain ys where
    y: "writes ?b2 = writes ?b1 @ ys" by blast
  from new_writes_trans [OF x y] first(1) second(1) d show ?thesis
    by (simp add: path_Base_meta_json)
qed

lemma handle_no_tenant:
  "tenant (request_of call) = Inl e \<Longrightarrow> handle l b call = (fst (handle l b' call), b)"
  by (cases call)
    (auto simp: HandleBlockUpload_def UploadBlockFile_def Let_def split: sum.splits)

lemma serve_at:
  "snd (serve l c call) t =
     (if tenant (request_of call) = Inr t then snd (handle l (c t) call) else c t)"
  by (auto simp: serve_def NewUserBucketClient_def split: sum.splits prod.splits)

lemma serve_answer:
  "tenant (request_of call) = Inr t \<Longrightarrow> fst (serve l c call) = fst (handle l (c t) call)"
  by (auto simp: serve_def NewUserBucketClient_def split: sum.splits prod.splits)

lemma serve_visibility:
  assumes before: "\<not> visible l (c t) bid" and after: "visible l (snd (serve l c call) t) bid"
  shows "commit_of t call \<and>
    (\<exists>content. Uploaded (path_Join (ulid_String l bid) ''meta.json'') content
            \<in> set (new_writes (c t) (snd (serve l c call) t)))"
proof (cases "tenant (request_of call) = Inr t")
  case True
  with after have "visible l (snd (handle l (c t) call)) bid" by (simp add: serve_at)
  from handle_visibility [OF before this] True show ?thesis
    by (simp add: serve_at commit_of_def)
next
  case False
  with before after show ?thesis by (simp add: serve_at)
qed

lemma serve_all_visibility:
  "\<not> visible l (c t) bid \<Longrightarrow> visible l (serve_all l c cs t) bid \<Longrightarrow>
   \<exists>call \<in> set cs. commit_of t call"
proof (induction cs arbitrary: c)
  case Nil
  then show ?case by simp
next
  case (Cons call cs)
  show ?case
  proof (cases "visible l (snd (serve l c call) t) bid")
    case True
    with Cons.prems(1) serve_visibility have "commit_of t call" by blast
    then show ?thesis by simp
  next
    case False
    with Cons.IH Cons.prems(2) show ?thesis by simp
  qed
qed

lemma serve_writes:
  "\<exists>ws. writes (snd (serve l c call) t) = writes (c t) @ ws
     \<and> length (filter writes_meta_json ws) \<le> (if commit_of t call then 1 else 0)"
proof (cases "tenant (request_of call) = Inr t")
  case True
  with handle_writes [of l "c t" call] show ?thesis
    by (auto simp: serve_at commit_of_def split: if_splits)
next
  case False
  then show ?thesis by (simp add: serve_at)
qed

lemma serve_all_writes:
  "\<exists>ws. writes (serve_all l c cs t) = writes (c t) @ ws
     \<and> length (filter writes_meta_json ws) \<le> length (filter (commit_of t) cs)"
proof (induction cs arbitrary: c)
  case Nil
  then show ?case by simp
next
  case (Cons call cs)
  from serve_writes [of l c call t] obtain ws1 where
    w1: "writes (snd (serve l c call) t) = writes (c t) @ ws1"
    and n1: "length (filter writes_meta_json ws1) \<le> (if commit_of t call then 1 else 0)" by blast
  from Cons.IH [of "snd (serve l c call)"] obtain ws2 where
    w2: "writes (serve_all l (snd (serve l c call)) cs t) = writes (snd (serve l c call) t) @ ws2"
    and n2: "length (filter writes_meta_json ws2) \<le> length (filter (commit_of t) cs)" by blast
  from w1 w2 n1 n2 show ?case
    by (intro exI [of _ "ws1 @ ws2"]) (auto split: if_splits)
qed

lemma serve_all_meta_json_count:
  "length (filter writes_meta_json (new_writes (c t) (serve_all l c cs t)))
     \<le> length (filter (commit_of t) cs)"
  using serve_all_writes [of l c cs t] by (auto simp: new_writes_def)

lemma serve_all_append: "serve_all l c (cs @ ds) = serve_all l (serve_all l c cs) ds"
  by (induction cs arbitrary: c) auto

lemma protocol_run_writes_once:
  assumes pre: "\<forall>call \<in> set cs. \<not> commit_of t call"
    and c: "commit_of t (BlockUpload r)"
    and ok: "fst (serve l (serve_all l c cs) (BlockUpload r)) = WriteHeader StatusOK"
  shows "length (filter writes_meta_json
      (new_writes (c t) (serve_all l c (cs @ [BlockUpload r]) t))) = 1"
proof -
  let ?c1 = "serve_all l c cs"
  from serve_all_writes [of l c cs t] obtain ws1 where
    w1: "writes (?c1 t) = writes (c t) @ ws1"
    and n1: "length (filter writes_meta_json ws1) \<le> length (filter (commit_of t) cs)" by blast
  from pre have "filter (commit_of t) cs = []" by (simp add: filter_empty_conv)
  with n1 have z: "length (filter writes_meta_json ws1) = 0" by simp
  from c have tr: "tenant r = Inr t" and cm: "query_uploadComplete r = ''true''"
    by (simp_all add: commit_of_def)
  from ok tr have "fst (HandleBlockUpload l (?c1 t) r) = WriteHeader StatusOK"
    using serve_answer [of "BlockUpload r" t l ?c1] by simp
  from HandleBlockUpload_commit_ok [OF cm this] obtain ws2 where
    w2: "writes (snd (HandleBlockUpload l (?c1 t) r)) = writes (?c1 t) @ ws2"
    and n2: "length (filter writes_meta_json ws2) = 1" by blast
  have "serve_all l c (cs @ [BlockUpload r]) t = snd (HandleBlockUpload l (?c1 t) r)"
    using tr by (simp add: serve_all_append serve_at)
  with w1 w2 z n2 show ?thesis by (simp add: new_writes_def)
qed

lemma serve_other_tenant:
  "tenant (request_of call) \<noteq> Inr t \<Longrightarrow> snd (serve l c call) t = c t"
  by (simp add: serve_at)

lemmas session_defs = serve_def NewUserBucketClient_def staged_def no_fault_def commit_of_def
  StatusInternalServerError_def

text \<open>
  C4, as the code has it. In the upload protocol \<open>meta.json\<close> is written at commit
  only, and that write is what makes the block visible. Begin writes nothing but
  \<open>meta.json.temp\<close>; uploadFile never writes a \<open>meta.json\<close>. A commit call writes
  \<open>meta.json\<close> at most once. It writes it, with the staged descriptor's content
  encoded again, exactly when the staged descriptor is there, decodes and encodes, and
  the bucket answers the \<open>Get\<close> and the \<open>Upload\<close>; the block is visible from then
  on. The call then removes the staged descriptor and answers 200, or, when the removal
  fails, answers 500 and leaves the staged descriptor in place. In every other case the
  call writes nothing and answers 500. A commit repeated after one that answered 200
  writes nothing; a commit retried after one whose removal failed writes \<open>meta.json\<close>
  a second time. In a session of calls by any tenants, served on each tenant's bucket: a
  block that was not visible to a tenant and is visible after a call became so by a
  commit call of that tenant, whose writes contain the upload of its \<open>meta.json\<close>;
  it can only have become visible if the session contains a commit of that tenant; a
  call of another tenant leaves the tenant's bucket as it is; there are no more writes
  of a \<open>meta.json\<close> in a tenant's bucket than the tenant made commit calls; and a
  run of the protocol, calls without a commit of the tenant followed by a commit of the
  tenant that answers 200, writes \<open>meta.json\<close> exactly once.
\<close>

theorem meta_json_written_only_at_commit:
  "(\<forall>w \<in> set (new_writes b (snd (createBlockUpload l b r t blockID))).
      (\<exists>content. w = Uploaded (path_Join (ulid_String l blockID) ''meta.json.temp'') content)
      \<and> \<not> writes_meta_json w)
   \<and> (\<forall>w \<in> set (new_writes b (snd (UploadBlockFile l b r))). \<not> writes_meta_json w)
   \<and> length (filter writes_meta_json
        (new_writes b (snd (completeBlockUpload l b r t blockID)))) \<le> 1
   \<and> (staged l b blockID = Some buf
        \<and> no_fault b 0 (CGet (path_Join (ulid_String l blockID) ''meta.json.temp''))
        \<and> no_fault b 1 (CUpload (path_Join (ulid_String l blockID) ''meta.json'')) \<longrightarrow>
        new_writes b (snd (completeBlockUpload l b r t blockID)) =
          Uploaded (path_Join (ulid_String l blockID) ''meta.json'') buf #
            (if no_fault b 2 (CDelete (path_Join (ulid_String l blockID) ''meta.json.temp''))
             then [Deleted (path_Join (ulid_String l blockID) ''meta.json.temp'')] else [])
        \<and> visible l (snd (completeBlockUpload l b r t blockID)) blockID
        \<and> fst (completeBlockUpload l b r t blockID) =
            (if no_fault b 2 (CDelete (path_Join (ulid_String l blockID) ''meta.json.temp''))
             then WriteHeader StatusOK
             else http_Error ''internal server error'' StatusInternalServerError)
        \<and> staged l (snd (completeBlockUpload l b r t blockID)) blockID =
            (if no_fault b 2 (CDelete (path_Join (ulid_String l blockID) ''meta.json.temp''))
             then None else Some buf))
   \<and> (staged l b blockID = None
        \<or> \<not> no_fault b 0 (CGet (path_Join (ulid_String l blockID) ''meta.json.temp''))
        \<or> \<not> no_fault b 1 (CUpload (path_Join (ulid_String l blockID) ''meta.json'')) \<longrightarrow>
        new_writes b (snd (completeBlockUpload l b r t blockID)) = []
        \<and> fst (completeBlockUpload l b r t blockID) =
            http_Error ''internal server error'' StatusInternalServerError)
   \<and> (fst (completeBlockUpload l b r t blockID) = WriteHeader StatusOK \<longrightarrow>
        (\<exists>content. new_writes b (snd (completeBlockUpload l b r t blockID))
            = [Uploaded (path_Join (ulid_String l blockID) ''meta.json'') content,
               Deleted (path_Join (ulid_String l blockID) ''meta.json.temp'')])
        \<and> length (filter writes_meta_json
             (new_writes b (snd (completeBlockUpload l b r t blockID)))) = 1
        \<and> visible l (snd (completeBlockUpload l b r t blockID)) blockID
        \<and> new_writes (snd (completeBlockUpload l b r t blockID))
            (snd (completeBlockUpload l (snd (completeBlockUpload l b r t blockID)) r' t' blockID)) = [])
   \<and> (staged l b blockID = Some buf
        \<and> no_fault b 0 (CGet (path_Join (ulid_String l blockID) ''meta.json.temp''))
        \<and> no_fault b 1 (CUpload (path_Join (ulid_String l blockID) ''meta.json''))
        \<and> \<not> no_fault b 2 (CDelete (path_Join (ulid_String l blockID) ''meta.json.temp''))
        \<and> no_fault b 3 (CGet (path_Join (ulid_String l blockID) ''meta.json.temp''))
        \<and> no_fault b 4 (CUpload (path_Join (ulid_String l blockID) ''meta.json'')) \<longrightarrow>
        filter writes_meta_json
          (new_writes b (snd (completeBlockUpload l
             (snd (completeBlockUpload l b r t blockID)) r' t' blockID)))
        = [Uploaded (path_Join (ulid_String l blockID) ''meta.json'') buf,
           Uploaded (path_Join (ulid_String l blockID) ''meta.json'') buf])
   \<and> (\<not> visible l (c tn) bid \<and> visible l (snd (serve l c call) tn) bid \<longrightarrow>
        commit_of tn call \<and>
        (\<exists>content. Uploaded (path_Join (ulid_String l bid) ''meta.json'') content
                \<in> set (new_writes (c tn) (snd (serve l c call) tn))))
   \<and> (\<not> visible l (c tn) bid \<and> visible l (serve_all l c cs tn) bid \<longrightarrow>
        (\<exists>call \<in> set cs. commit_of tn call))
   \<and> (tenant (request_of call) \<noteq> Inr tn \<longrightarrow> snd (serve l c call) tn = c tn)
   \<and> length (filter writes_meta_json (new_writes (c tn) (serve_all l c cs tn)))
        \<le> length (filter (commit_of tn) cs)
   \<and> ((\<forall>call \<in> set cs. \<not> commit_of tn call) \<and> commit_of tn (BlockUpload r)
        \<and> fst (serve l (serve_all l c cs) (BlockUpload r)) = WriteHeader StatusOK \<longrightarrow>
        length (filter writes_meta_json
          (new_writes (c tn) (serve_all l c (cs @ [BlockUpload r]) tn))) = 1)"
proof -
  let ?temp = "path_Join (ulid_String l blockID) ''meta.json.temp''"
  let ?meta = "path_Join (ulid_String l blockID) ''meta.json''"
  let ?b1 = "snd (completeBlockUpload l b r t blockID)"
  have c1: "\<forall>w \<in> set (new_writes b (snd (createBlockUpload l b r t blockID))).
      (\<exists>content. w = Uploaded ?temp content) \<and> \<not> writes_meta_json w"
    using createBlockUpload_new_writes [of _ b l r t blockID] by blast
  have c2: "\<forall>w \<in> set (new_writes b (snd (UploadBlockFile l b r))). \<not> writes_meta_json w"
    using UploadBlockFile_new_writes [of _ b l r] by blast
  note c3 = completeBlockUpload_new_writes [of b l r t blockID]
  have c4: "new_writes b ?b1 =
          Uploaded ?meta buf # (if no_fault b 2 (CDelete ?temp) then [Deleted ?temp] else [])
        \<and> visible l ?b1 blockID
        \<and> fst (completeBlockUpload l b r t blockID) =
            (if no_fault b 2 (CDelete ?temp) then WriteHeader StatusOK
             else http_Error ''internal server error'' StatusInternalServerError)
        \<and> staged l ?b1 blockID = (if no_fault b 2 (CDelete ?temp) then None else Some buf)"
    if "staged l b blockID = Some buf \<and> no_fault b 0 (CGet ?temp) \<and> no_fault b 1 (CUpload ?meta)"
    using completeBlockUpload_commits(1-4) [of l b blockID buf r t] that by blast
  have c5: "new_writes b ?b1 = []
        \<and> fst (completeBlockUpload l b r t blockID) =
            http_Error ''internal server error'' StatusInternalServerError"
    if "staged l b blockID = None \<or> \<not> no_fault b 0 (CGet ?temp) \<or> \<not> no_fault b 1 (CUpload ?meta)"
    using completeBlockUpload_refuses(1,2) [OF that, of r t] by blast
  have c6: "(\<exists>content. new_writes b ?b1 = [Uploaded ?meta content, Deleted ?temp])
        \<and> length (filter writes_meta_json (new_writes b ?b1)) = 1
        \<and> visible l ?b1 blockID
        \<and> new_writes ?b1 (snd (completeBlockUpload l ?b1 r' t' blockID)) = []"
    if "fst (completeBlockUpload l b r t blockID) = WriteHeader StatusOK"
    using completeBlockUpload_ok_new_writes [OF that] completeBlockUpload_repeated [OF that, of r' t']
    by blast
  have c7: "filter writes_meta_json
          (new_writes b (snd (completeBlockUpload l ?b1 r' t' blockID)))
        = [Uploaded ?meta buf, Uploaded ?meta buf]"
    if "staged l b blockID = Some buf \<and> no_fault b 0 (CGet ?temp) \<and> no_fault b 1 (CUpload ?meta)
        \<and> \<not> no_fault b 2 (CDelete ?temp) \<and> no_fault b 3 (CGet ?temp) \<and> no_fault b 4 (CUpload ?meta)"
    using completeBlockUpload_retried [of l b blockID buf r t r' t'] that by blast
  have c8: "commit_of tn call \<and>
        (\<exists>content. Uploaded (path_Join (ulid_String l bid) ''meta.json'') content
                \<in> set (new_writes (c tn) (snd (serve l c call) tn)))"
    if "\<not> visible l (c tn) bid \<and> visible l (snd (serve l c call) tn) bid"
    using serve_visibility [of l c tn bid call] that by blast
  have c9: "\<exists>call \<in> set cs. commit_of tn call"
    if "\<not> visible l (c tn) bid \<and> visible l (serve_all l c cs tn) bid"
    using serve_all_visibility [of l c tn bid cs] that by blast
  note c10 = serve_other_tenant [of call tn l c]
  note c11 = serve_all_meta_json_count [of c tn l cs]
  have c12: "length (filter writes_meta_json
          (new_writes (c tn) (serve_all l c (cs @ [BlockUpload r]) tn))) = 1"
    if "(\<forall>call \<in> set cs. \<not> commit_of tn call) \<and> commit_of tn (BlockUpload r)
        \<and> fst (serve l (serve_all l c cs) (BlockUpload r)) = WriteHeader StatusOK"
    using protocol_run_writes_once [of cs tn r l c] that by blast
  show ?thesis
    apply (intro conjI impI)
    subgoal using c1 .
    subgoal using c2 .
    subgoal using c3 .
    subgoal using c4 by blast
    subgoal using c4 by blast
    subgoal using c4 by blast
    subgoal using c4 by blast
    subgoal using c5 by blast
    subgoal using c5 by blast
    subgoal using c6 by blast
    subgoal using c6 by blast
    subgoal using c6 by blast
    subgoal using c6 by blast
    subgoal using c7 by blast
    subgoal using c8 by blast
    subgoal using c8 by blast
    subgoal using c9 by blast
    subgoal using c10 by blast
    subgoal using c11 .
    subgoal using c12 by blast
    done
qed


theorem meta_json_written_only_at_commit_witness:
  "staged demo_lib demo_staged 1 = Some ''{}''
   \<and> \<not> visible demo_lib demo_staged 1
   \<and> fst (completeBlockUpload demo_lib demo_staged demo_commit ''user-1'' 1) = WriteHeader StatusOK
   \<and> new_writes demo_staged (snd (completeBlockUpload demo_lib demo_staged demo_commit ''user-1'' 1))
       = [Uploaded ''00000000000000000000000001/meta.json'' ''{}'',
          Deleted ''00000000000000000000000001/meta.json.temp'']
   \<and> visible demo_lib (snd (completeBlockUpload demo_lib demo_staged demo_commit ''user-1'' 1)) 1
   \<and> answers demo_lib demo_client
        [BlockUpload demo_begin, BlockFile demo_file, BlockUpload demo_commit]
       = [Resp 200 [], Resp 200 [], Resp 200 []]
   \<and> \<not> visible demo_lib
        (serve_all demo_lib demo_client [BlockUpload demo_begin, BlockFile demo_file] ''user-1'') 1
   \<and> visible demo_lib
        (serve_all demo_lib demo_client
           [BlockUpload demo_begin, BlockFile demo_file, BlockUpload demo_commit] ''user-1'') 1
   \<and> commit_of ''user-1'' (BlockUpload demo_commit)
   \<and> length (filter writes_meta_json (new_writes (demo_client ''user-1'')
          (serve_all demo_lib demo_client
             [BlockUpload demo_begin, BlockFile demo_file, BlockUpload demo_commit] ''user-1''))) = 1
   \<and> answers demo_lib demo_client [BlockUpload demo_begin, BlockUpload demo_other_commit]
       = [Resp 200 [], Resp 500 ''internal server error'']
   \<and> \<not> visible demo_lib
        (serve_all demo_lib demo_client [BlockUpload demo_begin, BlockUpload demo_other_commit]
           ''user-1'') 1
   \<and> \<not> visible demo_lib
        (serve_all demo_lib demo_client [BlockUpload demo_begin, BlockUpload demo_other_commit]
           ''user-2'') 1
   \<and> snd (serve demo_lib demo_client (BlockUpload demo_other_commit)) ''user-1'' = demo_client ''user-1''
   \<and> staged demo_lib demo_bucket 1 = None
   \<and> new_writes demo_bucket (snd (completeBlockUpload demo_lib demo_bucket demo_commit ''user-1'' 1)) = []
   \<and> fst (completeBlockUpload demo_lib demo_bucket demo_commit ''user-1'' 1)
       = Resp 500 ''internal server error''
   \<and> staged demo_lib demo_flaky_staged 1 = Some ''{}''
   \<and> \<not> no_fault demo_flaky_staged 2 (CDelete ''00000000000000000000000001/meta.json.temp'')
   \<and> fst (completeBlockUpload demo_lib demo_flaky_staged demo_commit ''user-1'' 1)
       = Resp 500 ''internal server error''
   \<and> new_writes demo_flaky_staged
        (snd (completeBlockUpload demo_lib demo_flaky_staged demo_commit ''user-1'' 1))
       = [Uploaded ''00000000000000000000000001/meta.json'' ''{}'']
   \<and> filter writes_meta_json (new_writes demo_flaky_staged
        (snd (completeBlockUpload demo_lib
           (snd (completeBlockUpload demo_lib demo_flaky_staged demo_commit ''user-1'' 1))
           demo_commit ''user-1'' 1)))
       = [Uploaded ''00000000000000000000000001/meta.json'' ''{}'',
          Uploaded ''00000000000000000000000001/meta.json'' ''{}'']"
  using meta_json_written_only_at_commit [where l = demo_lib and b = demo_staged
      and r = demo_commit and t = "''user-1''" and blockID = 1 and buf = "''{}''"
      and r' = demo_commit and t' = "''user-1''"
      and c = demo_client and tn = "''user-1''" and bid = 1
      and call = "BlockUpload demo_commit"
      and cs = "[BlockUpload demo_begin, BlockFile demo_file]"]
    meta_json_written_only_at_commit [where l = demo_lib and b = demo_flaky_staged
      and r = demo_commit and t = "''user-1''" and blockID = 1 and buf = "''{}''"
      and r' = demo_commit and t' = "''user-1''"
      and c = demo_client and tn = "''user-1''" and bid = 1
      and call = "BlockUpload demo_other_commit"
      and cs = "[BlockUpload demo_begin, BlockFile demo_file]"]
    meta_json_written_only_at_commit [where l = demo_lib and b = demo_bucket
      and r = demo_commit and t = "''user-1''" and blockID = 1 and buf = "''{}''"
      and r' = demo_commit and t' = "''user-1''"
      and c = demo_client and tn = "''user-1''" and bid = 1
      and call = "BlockUpload demo_other_commit"
      and cs = "[BlockUpload demo_begin, BlockFile demo_file]"]
  by (simp add: demo_defs upload_defs session_defs)

text \<open>
  The claim as written has \<open>meta.json\<close> written exactly once. Here the bucket fails
  the first commit's removal of the staged descriptor: that commit has uploaded
  \<open>meta.json\<close> and answers 500, the client sends the commit again, and the second
  commit uploads \<open>meta.json\<close> once more before it answers 200.
\<close>

theorem meta_json_written_twice_counterexample:
  "answers demo_lib demo_flaky_client
        [BlockUpload demo_begin, BlockFile demo_file, BlockUpload demo_commit, BlockUpload demo_commit]
       = [Resp 200 [], Resp 200 [], Resp 500 ''internal server error'', Resp 200 []]
   \<and> filter writes_meta_json (new_writes (demo_flaky_client ''user-1'')
        (serve_all demo_lib demo_flaky_client
           [BlockUpload demo_begin, BlockFile demo_file, BlockUpload demo_commit,
            BlockUpload demo_commit] ''user-1''))
       = [Uploaded ''00000000000000000000000001/meta.json'' ''{}'',
          Uploaded ''00000000000000000000000001/meta.json'' ''{}'']"
  by (simp add: demo_defs upload_defs session_defs)


subsection \<open>Frames: what a sync and a fetch leave alone\<close>

lemma read_local_frame:
  "read_local f w i = (r, w') \<Longrightarrow>
   heap w' = heap w \<and> top w' = top w \<and> (\<forall>x. x \<noteq> i \<longrightarrow> disk w' x = disk w x)
   \<and> (disk w' i = disk w i \<or> disk w' i = None)"
  by (auto simp: read_local_def split: if_splits option.splits disk_entry.splits)

lemma loadMeta_frame:
  assumes "loadMeta l f w i = (r, w')"
  shows "heap w' = heap w \<and> top w' = top w \<and> (\<forall>x. x \<noteq> i \<longrightarrow> disk w' x = disk w x)"
proof -
  obtain r1 w1 where rl: "read_local f w i = (r1, w1)" by (cases "read_local f w i")
  note fr = read_local_frame [OF rl]
  from assms have "w' = w \<or> w' = w1 \<or> (\<exists>m. w' = write_local f w1 i m)"
    by (auto simp: loadMeta_def Let_def rl split: sum.splits bool.splits option.splits if_splits)
  with fr show ?thesis
    by (auto simp: write_local_def)
qed

lemma worker_step_frame:
  assumes "worker_step l f i (resp, w) = (resp', w')"
  shows "metas resp' = metas resp \<and> top w' = top w
     \<and> (\<forall>x. x \<noteq> metas resp \<longrightarrow> heap w' x = heap w x)
     \<and> (\<forall>x. x \<noteq> i \<longrightarrow> disk w' x = disk w x)"
proof -
  obtain r w1 where lm: "loadMeta l f w i = (r, w1)" by (cases "loadMeta l f w i")
  note fr = loadMeta_frame [OF lm]
  from assms fr show ?thesis
    by (cases r) (auto simp: worker_step_def lm store_def split: if_splits)
qed

lemma fold_worker_step_frame:
  assumes "fold (worker_step l f) ids (resp, w) = (resp', w')"
  shows "metas resp' = metas resp \<and> top w' = top w
     \<and> (\<forall>x. x \<noteq> metas resp \<longrightarrow> heap w' x = heap w x)
     \<and> (\<forall>x. x \<notin> set ids \<longrightarrow> disk w' x = disk w x)"
  using assms
proof (induction ids arbitrary: resp w)
  case Nil
  then show ?case by simp
next
  case (Cons i ids)
  obtain r1 w1 where st: "worker_step l f i (resp, w) = (r1, w1)"
    by (cases "worker_step l f i (resp, w)")
  from Cons.prems have "fold (worker_step l f) ids (r1, w1) = (resp', w')"
    by (simp add: st)
  from Cons.IH [OF this] worker_step_frame [OF st] show ?case
    by auto
qed

lemma scheduler_completes:
  "0 < conc \<Longrightarrow> completes run \<Longrightarrow>
   scheduler conc (dirs run) (list_err run) (cancelled_after run) = Some (dirs run, None)"
  by (auto simp: scheduler_def completes_def split: option.splits)

lemma scheduler_workers:
  "0 < conc \<Longrightarrow> \<exists>sent e. scheduler conc ids end_err c = Some (sent, e)"
  by (auto simp: scheduler_def split: option.splits)

lemma copy_into_distinct: "distinct (map fst src) \<Longrightarrow> copy_into src [] = src"
proof -
  have "distinct (map fst (dst @ src)) \<Longrightarrow> copy_into src dst = dst @ src" for dst
  proof (induction src arbitrary: dst)
    case Nil
    then show ?case by (simp add: copy_into_def)
  next
    case (Cons p src)
    obtain k v where p: "p = (k, v)" by (cases p)
    from Cons.prems have "k \<notin> fst ` set dst" by (auto simp: p)
    then have u: "AList.update k v dst = dst @ [(k, v)]"
      by (induction dst) auto
    from Cons.prems have "distinct (map fst ((dst @ [(k, v)]) @ src))" by (simp add: p)
    from Cons.IH [OF this] show ?case
      by (simp add: copy_into_def p u)
  qed
  from this [of "[]"] show "distinct (map fst src) \<Longrightarrow> copy_into src [] = src" by simp
qed

lemma worker_step_distinct:
  assumes "worker_step l f i (resp, w) = (resp', w')"
    and "distinct (map fst (heap w (metas resp)))"
  shows "distinct (map fst (heap w' (metas resp')))"
proof -
  obtain r w1 where lm: "loadMeta l f w i = (r, w1)" by (cases "loadMeta l f w i")
  note fr = loadMeta_frame [OF lm]
  from assms fr show ?thesis
    by (cases r) (auto simp: worker_step_def lm store_def distinct_update split: if_splits)
qed

lemma fold_worker_step_distinct:
  assumes "fold (worker_step l f) ids (resp, w) = (resp', w')"
    and "distinct (map fst (heap w (metas resp)))"
  shows "distinct (map fst (heap w' (metas resp')))"
  using assms
proof (induction ids arbitrary: resp w)
  case Nil
  then show ?case by simp
next
  case (Cons i ids)
  obtain r1 w1 where st: "worker_step l f i (resp, w) = (r1, w1)"
    by (cases "worker_step l f i (resp, w)")
  from Cons.prems have "fold (worker_step l f) ids (r1, w1) = (resp', w')"
    by (simp add: st)
  from Cons.IH [OF this worker_step_distinct [OF st Cons.prems(2)]] show ?case .
qed

lemma scan_frame:
  assumes "scan l f w sent = (resp, w2)"
  shows "metas resp = top w \<and> top w2 = Suc (top w)
     \<and> (\<forall>x. x \<noteq> top w \<longrightarrow> heap w2 x = heap w x)
     \<and> distinct (map fst (heap w2 (top w)))"
proof -
  let ?r0 = "\<lparr>metas = top w, partial = [], metaErrs = [], noMetas = 0, corruptedMetas = 0\<rparr>"
  let ?w1 = "snd (make_map w)"
  from assms have fd: "fold (worker_step l (f\<lparr>syncs := syncs f + 1\<rparr>)) sent (?r0, ?w1) = (resp, w2)"
    by (simp add: scan_def)
  have d0: "distinct (map fst (heap ?w1 (metas ?r0)))" by (simp add: make_map_def)
  from fold_worker_step_frame [OF fd] fold_worker_step_distinct [OF fd d0]
  show ?thesis by (auto simp: make_map_def)
qed

lemma fetchMetadata_eq:
  assumes "0 \<le> concurrency f"
    and "scheduler (concurrency f) (dirs run) (list_err run) (cancelled_after run) = Some (sent, sched_err)"
    and "scan l f w sent = (resp, w2)"
  shows "fetchMetadata l run f w =
    (case sched_err of
       Some e \<Rightarrow> Returns (Inl (Wrap e ''BaseFetcher: iter bucket''), f\<lparr>syncs := syncs f + 1\<rparr>, w2)
     | None \<Rightarrow>
         if metaErrs resp \<noteq> [] then Returns (Inr resp, f\<lparr>syncs := syncs f + 1\<rparr>, w2)
         else Returns (Inr resp, f\<lparr>syncs := syncs f + 1, cached := Suc (top w)\<rparr>,
                sweep_local (f\<lparr>syncs := syncs f + 1, cached := Suc (top w)\<rparr>)
                  (store (snd (make_map w2)) (Suc (top w)) (heap w2 (top w)))
                  (heap w2 (top w))))"
proof -
  note sf = scan_frame [OF assms(3)]
  have cp: "copy_into (heap w2 (top w)) [] = heap w2 (top w)"
    using sf by (simp add: copy_into_distinct)
  from assms(3) have fd: "fold (worker_step l (f\<lparr>syncs := Suc (syncs f)\<rparr>)) sent
       (\<lparr>metas = top w, partial = [], metaErrs = [], noMetas = 0, corruptedMetas = 0\<rparr>,
        w\<lparr>heap := (heap w)(top w := []), top := Suc (top w)\<rparr>) = (resp, w2)"
    by (simp add: scan_def make_map_def)
  show ?thesis
    using assms(1,2) sf cp
    by (simp add: fetchMetadata_def Let_def make_map_def fd store_def split: option.splits)
qed

lemma Filter_frame:
  assumes "Filter env flt w a s m = Returns (e, flt', w', s', m')"
  shows "\<exists>ms. w' = store w a ms"
  using assms
  by (cases flt) (auto split: prod.splits outcome.splits)

lemma store_store [simp]: "store (store w a x) a y = store w a y"
  by (simp add: store_def)

lemma run_filters_frame:
  assumes "run_filters env flts w a s m = Returns (e, flts', w', s', m')"
  shows "w' = w \<or> (\<exists>ms. w' = store w a ms)"
  using assms
proof (induction flts arbitrary: w s m e flts' w' s' m')
  case Nil
  then show ?case by simp
next
  case (Cons flt flts)
  show ?case
  proof (cases "Filter env flt w a s m")
    case (Returns r)
    obtain e1 flt1 w1 s1 m1 where r: "r = (e1, flt1, w1, s1, m1)" by (cases r)
    from Filter_frame [OF Returns [unfolded r]] obtain ms where w1: "w1 = store w a ms" by blast
    show ?thesis
    proof (cases e1)
      case (Some err)
      with Cons.prems Returns r w1 show ?thesis by auto
    next
      case None
      with Cons.prems Returns r obtain e2 rest2 where
        "run_filters env flts w1 a s1 m1 = Returns (e2, rest2, w', s', m')"
        by (auto split: outcome.splits)
      from Cons.IH [OF this] w1 show ?thesis by auto
    qed
  next
    case Blocks
    with Cons.prems show ?thesis by simp
  next
    case Panics
    with Cons.prems show ?thesis by simp
  qed
qed

lemma fetch_outcomes:
  assumes "g_Do l fl f w = Returns (Inr resp, f', w')"
  shows "fetch l env fl f w mt flts = Blocks \<or> fetch l env fl f w mt flts = Panics
    \<or> (\<exists>e ms mt' flts'. fetch l env fl f w mt flts =
          Returns (\<lparr>ret_metas = None, ret_partial = None, ret_err = Some (Wrap e ''filter metas'')\<rparr>,
                   f', store (snd (make_map w')) (top w') ms, mt', flts'))
    \<or> (\<exists>ms mt' flts'. fetch l env fl f w mt flts =
          Returns (\<lparr>ret_metas = Some (top w'), ret_partial = Some (partial resp),
                     ret_err = incomplete_view resp\<rparr>,
                   f', store (snd (make_map w')) (top w') ms, mt', flts'))"
proof -
  let ?w2 = "store (snd (make_map w')) (top w') (copy_into (heap (snd (make_map w')) (metas resp))
      (heap (snd (make_map w')) (top w')))"
  let ?s1 = "gauge_Set (gauge_Set (gauge_Set (ResetTx (Synced mt))
                              FailedMeta (length (metaErrs resp)))
                              NoMeta (noMetas resp))
                              CorruptedMeta (corruptedMetas resp)"
  show ?thesis
  proof (cases "run_filters env flts ?w2 (top w') ?s1 (ResetTx (Modified mt))")
    case (Returns r)
    obtain e flts' w3 s' m' where r: "r = (e, flts', w3, s', m')" by (cases r)
    from run_filters_frame [OF Returns [unfolded r]]
    obtain ms where w3: "w3 = store (snd (make_map w')) (top w') ms"
      by auto
    show ?thesis
      using assms Returns r w3
      by (cases e) (auto simp: fetch_def Let_def make_map_def incomplete_view_def)
  next
    case Blocks
    with assms show ?thesis by (simp add: fetch_def Let_def make_map_def)
  next
    case Panics
    with assms show ?thesis by (simp add: fetch_def Let_def make_map_def)
  qed
qed

lemma fetch_no_filters:
  assumes "g_Do l fl f w = Returns (Inr resp, f', w')" and "metas resp \<noteq> top w'"
  shows "\<exists>mt'. fetch l env fl f w mt [] =
          Returns (\<lparr>ret_metas = Some (top w'), ret_partial = Some (partial resp),
                     ret_err = incomplete_view resp\<rparr>,
                   f', store (snd (make_map w')) (top w') (copy_into (heap w' (metas resp)) []),
                   mt', [])"
  using assms
  by (simp add: fetch_def Let_def make_map_def incomplete_view_def store_def)

lemma fetch_failed:
  assumes "g_Do l fl f w = Returns (Inl e, f', w')"
  shows "\<exists>mt'. fetch l env fl f w mt flts =
          Returns (\<lparr>ret_metas = None, ret_partial = None, ret_err = Some e\<rparr>, f', w', mt', flts)"
  using assms by (simp add: fetch_def Let_def)



lemma sweep_local_frame [simp]:
  "heap (sweep_local f w ms) = heap w" "top (sweep_local f w ms) = top w"
  by (simp_all add: sweep_local_def)

lemma fetchMetadata_returns:
  assumes "fetchMetadata l run f w = Returns (v, f', w')"
  shows "0 \<le> concurrency f \<and> (\<exists>sent sched_err.
     scheduler (concurrency f) (dirs run) (list_err run) (cancelled_after run) = Some (sent, sched_err))"
  using assms
  by (auto simp: fetchMetadata_def Let_def split: prod.splits if_splits option.splits)

lemma fetchMetadata_wf:
  assumes wf: "cached f < top w" and ret: "fetchMetadata l run f w = Returns (v, f', w')"
  shows "top w < top w' \<and> cached f' < top w' \<and> (\<forall>x < top w. heap w' x = heap w x)
    \<and> (case v of
          Inl e \<Rightarrow> cached f' = cached f
        | Inr resp \<Rightarrow>
            metas resp = top w \<and> allocated w' (metas resp)
            \<and> (metaErrs resp \<noteq> [] \<longrightarrow> cached f' = cached f)
            \<and> (metaErrs resp = [] \<longrightarrow>
                 cached f' = Suc (top w) \<and> heap w' (cached f') = heap w' (metas resp)))"
proof -
  from fetchMetadata_returns [OF ret] obtain sent sched_err where
    c: "0 \<le> concurrency f" and
    sch: "scheduler (concurrency f) (dirs run) (list_err run) (cancelled_after run) = Some (sent, sched_err)"
    by blast
  obtain resp w2 where sc: "scan l f w sent = (resp, w2)" by (cases "scan l f w sent")
  note sf = scan_frame [OF sc]
  note eq = fetchMetadata_eq [OF c sch sc]
  show ?thesis
  proof (cases sched_err)
    case (Some e)
    with eq ret sf wf show ?thesis by auto
  next
    case None
    show ?thesis
    proof (cases "metaErrs resp = []")
      case True
      with eq ret None sf wf show ?thesis
        by (auto simp: allocated_def store_def make_map_def)
    next
      case False
      with eq ret None sf wf show ?thesis
        by (auto simp: allocated_def)
    qed
  qed
qed

lemma g_Do_wf:
  assumes wf: "wf_call w f fl" and g: "g_Do l fl f w = Returns (v, f', w')"
  shows "top w \<le> top w' \<and> cached f' < top w' \<and> cached f < top w'
    \<and> heap w' (cached f) = heap w (cached f)
    \<and> (\<forall>resp. v = Inr resp \<longrightarrow> allocated w' (metas resp))
    \<and> (cached f' \<noteq> cached f \<longrightarrow>
          (\<exists>run resp. fl = Leads run \<and> v = Inr resp \<and> metaErrs resp = []
             \<and> top w \<le> cached f' \<and> heap w' (cached f') = heap w' (metas resp)))"
proof (cases fl)
  case (Leads run)
  with g have ret: "fetchMetadata l run f w = Returns (v, f', w')" by (simp add: g_Do_def)
  from wf have c: "cached f < top w" by (simp add: wf_call_def)
  from fetchMetadata_wf [OF c ret] c Leads show ?thesis
    by (cases v) auto
next
  case (Shares v0)
  with g wf show ?thesis
    by (auto simp: g_Do_def wf_call_def split: sum.splits)
qed

lemma fetch_runs_filters_on_copy:
  assumes g: "g_Do l fl f w = Returns (Inr resp, f', w')"
    and al: "allocated w' (metas resp)"
    and r: "fetch l env fl f w mt flts = Returns (res, f'', w'', mt', flts')"
  shows "\<exists>s e s' m'. run_filters env flts
            (store (snd (make_map w')) (top w') (heap w' (metas resp))) (top w')
            s (ResetTx (Modified mt)) = Returns (e, flts', w'', s', m')"
proof -
  from al have ne: "metas resp \<noteq> top w'" and cp: "copy_into (heap w' (metas resp)) [] = heap w' (metas resp)"
    by (auto simp: allocated_def copy_into_distinct)
  from r g ne cp show ?thesis
    by (auto simp: fetch_def Let_def make_map_def store_def
        split: outcome.splits prod.splits option.splits if_splits)
qed


lemma set_delete_subset: "set (AList.delete k ms) \<subseteq> set ms"
  by (auto simp: AList.delete_eq)

lemma ConsistencyDelay_loop_subset:
  "set (fst (ConsistencyDelay_loop env d es ms s)) \<subseteq> set ms"
proof (induction es arbitrary: ms s)
  case Nil
  then show ?case by simp
next
  case (Cons e es)
  obtain i m where e: "e = (i, m)" by (cases e)
  show ?case
  proof (cases "too_fresh env d i m")
    case True
    have "set (fst (ConsistencyDelay_loop env d es (AList.delete i ms) (gauge_Inc s tooFreshMeta)))
        \<subseteq> set (AList.delete i ms)"
      by (rule Cons.IH)
    with set_delete_subset [of i ms] True show ?thesis by (auto simp: e)
  next
    case False
    with Cons.IH [of ms s] show ?thesis by (simp add: e)
  qed
qed

lemma fold_probe_step_subset:
  "set (fst (snd (fold (probe_step env f) ids (dm, ms, s)))) \<subseteq> set ms"
proof (induction ids arbitrary: dm ms s)
  case Nil
  then show ?case by simp
next
  case (Cons i ids)
  obtain dm1 ms1 s1 where st: "probe_step env f i (dm, ms, s) = (dm1, ms1, s1)"
    by (cases "probe_step env f i (dm, ms, s)")
  then have "set ms1 \<subseteq> set ms"
    using set_delete_subset [of i ms]
    by (auto simp: probe_step_def split: sum.splits if_splits)
  with Cons.IH [of dm1 ms1 s1] show ?case by (auto simp: st)
qed

lemma IgnoreDeletionMark_Filter_subset:
  assumes "IgnoreDeletionMark_Filter env f ms s = Returns (e, f', ms', s')"
  shows "set ms' \<subseteq> set ms"
proof -
  from assms have "\<exists>sent. ms' = fst (snd (fold (probe_step env f) sent ([], ms, s)))"
    by (auto simp: IgnoreDeletionMark_Filter_def Let_def split: if_splits option.splits prod.splits)
      (metis fst_conv snd_conv)+
  then obtain sent where "ms' = fst (snd (fold (probe_step env f) sent ([], ms, s)))" ..
  with fold_probe_step_subset [of env f sent "[]" ms s] show ?thesis by simp
qed

lemma Filter_source_subset:
  assumes "source_filter flt" and "Filter env flt w a s m = Returns (e, flt', w', s', m')"
  shows "set (heap w' a) \<subseteq> set (heap w a) \<and> (\<forall>x. x \<noteq> a \<longrightarrow> heap w' x = heap w x)"
proof (cases flt)
  case (ConsistencyDelayMetaFilter d)
  with assms(2) ConsistencyDelay_loop_subset [of env d "heap w a" "heap w a" s] show ?thesis
    by (auto simp: store_def split: prod.splits)
next
  case (IgnoreDeletionMark f)
  with assms(2) obtain f1 ms1 where
    fl: "IgnoreDeletionMark_Filter env f (heap w a) s = Returns (e, f1, ms1, s')"
    and w': "w' = store w a ms1"
    by (auto split: outcome.splits)
  from IgnoreDeletionMark_Filter_subset [OF fl] w' show ?thesis
    by (simp add: store_def)
next
  case (OtherFilter g)
  with assms(1) show ?thesis by simp
qed

lemma run_filters_source_subset:
  assumes "list_all source_filter flts"
    and "run_filters env flts w a s m = Returns (e, flts', w', s', m')"
  shows "set (heap w' a) \<subseteq> set (heap w a)"
  using assms
proof (induction flts arbitrary: w s m e flts' w' s' m')
  case Nil
  then show ?case by simp
next
  case (Cons flt flts)
  from Cons.prems(1) have sf: "source_filter flt" and rest: "list_all source_filter flts" by auto
  show ?case
  proof (cases "Filter env flt w a s m")
    case (Returns r)
    obtain e1 flt1 w1 s1 m1 where r: "r = (e1, flt1, w1, s1, m1)" by (cases r)
    note sub = Filter_source_subset [OF sf Returns [unfolded r]]
    show ?thesis
    proof (cases e1)
      case (Some err)
      with Cons.prems(2) Returns r sub show ?thesis by auto
    next
      case None
      with Cons.prems(2) Returns r obtain e2 rest2 where
        "run_filters env flts w1 a s1 m1 = Returns (e2, rest2, w', s', m')"
        by (auto split: outcome.splits)
      from Cons.IH [OF rest this] sub show ?thesis by auto
    qed
  next
    case Blocks
    with Cons.prems(2) show ?thesis by simp
  next
    case Panics
    with Cons.prems(2) show ?thesis by simp
  qed
qed

lemma g_Do_leads:
  assumes conc: "0 < concurrency f"
    and sch: "scheduler (concurrency f) (dirs run) (list_err run) (cancelled_after run) = Some (sent, sched_err)"
    and sc: "scan l f w sent = (resp, w2)"
  shows "g_Do l (Leads run) f w =
    (case sched_err of
       Some e \<Rightarrow> Returns (Inl (Wrap e ''BaseFetcher: iter bucket''), f\<lparr>syncs := syncs f + 1\<rparr>, w2)
     | None \<Rightarrow>
         if metaErrs resp \<noteq> [] then Returns (Inr resp, f\<lparr>syncs := syncs f + 1\<rparr>, w2)
         else Returns (Inr resp, f\<lparr>syncs := syncs f + 1, cached := Suc (top w)\<rparr>,
                sweep_local (f\<lparr>syncs := syncs f + 1, cached := Suc (top w)\<rparr>)
                  (store (snd (make_map w2)) (Suc (top w)) (heap w2 (top w)))
                  (heap w2 (top w))))"
  using fetchMetadata_eq [OF _ sch sc] conc by (simp add: g_Do_def)



lemmas fetch_demo_defs = demo_lib2_def demo_lib_def demo_reader_def demo_fetcher_def demo_world_def
  demo_run_def demo_env_def demo_metrics_def demo_meta_def demo_ext_def
  demo_failing_reader_def demo_failing_fetcher_def demo_cancelled_run_def
  demo_deleted_fetcher_def demo_v2_fetcher_def

lemmas fetch_defs = fetch_def g_Do_def fetchMetadata_def scheduler_def worker_step_def loadMeta_def
  read_local_def write_local_def sweep_local_def make_map_def store_def copy_into_def len_def
  path_Join_def MetaFilename_def Let_def gauge_Set_def gauge_Inc_def ResetTx_def Submit_def
  deferred_def too_fresh_def ulid_Time_def scan_def ctx_Err_def
  BucketRepairSource_def CompactorSource_def CompactorRepairSource_def signed_divide_int_def


lemma sync_with_errors:
  assumes wf: "cached f < top w"
    and conc: "0 < concurrency f"
    and sch: "scheduler (concurrency f) (dirs run) (list_err run) (cancelled_after run) = Some (sent, sched_err)"
    and sc: "scan l f w sent = (resp, w2)"
    and errs: "metaErrs resp \<noteq> []"
  shows "fetchMetadata l run f w =
      Returns (case sched_err of None \<Rightarrow> Inr resp | Some e \<Rightarrow> Inl (Wrap e ''BaseFetcher: iter bucket''),
               f\<lparr>syncs := syncs f + 1\<rparr>, w2)
    \<and> heap w2 (cached f) = heap w (cached f)
    \<and> (\<forall>res f' w' mt' flts'.
          fetch l env (Leads run) f w mt flts = Returns (res, f', w', mt', flts') \<longrightarrow>
            cached f' = cached f \<and> heap w' (cached f') = heap w (cached f)
            \<and> (sched_err = None \<longrightarrow>
                 (ret_metas res = Some (top w2) \<and> ret_partial res = Some (partial resp)
                  \<and> ret_err res = Some (Wrap (MultiError (metaErrs resp)) ''incomplete view''))
                 \<or> (\<exists>e. ret_metas res = None \<and> ret_partial res = None
                        \<and> ret_err res = Some (Wrap e ''filter metas''))))
    \<and> (sched_err = None \<longrightarrow>
          (\<exists>w' mt'. fetch l env (Leads run) f w mt [] =
              Returns (\<lparr>ret_metas = Some (top w2), ret_partial = Some (partial resp),
                         ret_err = Some (Wrap (MultiError (metaErrs resp)) ''incomplete view'')\<rparr>,
                       f\<lparr>syncs := syncs f + 1\<rparr>, w', mt', [])
              \<and> heap w' (top w2) = heap w2 (metas resp)
              \<and> heap w' (cached f) = heap w (cached f)))"
proof -
  note sf = scan_frame [OF sc]
  from sf wf have keep: "heap w2 (cached f) = heap w (cached f)" by simp
  have fm: "fetchMetadata l run f w =
      Returns (case sched_err of None \<Rightarrow> Inr resp | Some e \<Rightarrow> Inl (Wrap e ''BaseFetcher: iter bucket''),
               f\<lparr>syncs := syncs f + 1\<rparr>, w2)"
    using fetchMetadata_eq [OF _ sch sc] conc errs by (simp split: option.splits)
  then have g: "g_Do l (Leads run) f w =
      Returns (case sched_err of None \<Rightarrow> Inr resp | Some e \<Rightarrow> Inl (Wrap e ''BaseFetcher: iter bucket''),
               f\<lparr>syncs := syncs f + 1\<rparr>, w2)"
    by (simp add: g_Do_def)
  have iv: "incomplete_view resp = Some (Wrap (MultiError (metaErrs resp)) ''incomplete view'')"
    using errs by (simp add: incomplete_view_def)
  have all: "cached f' = cached f \<and> heap w' (cached f') = heap w (cached f)
            \<and> (sched_err = None \<longrightarrow>
                 (ret_metas res = Some (top w2) \<and> ret_partial res = Some (partial resp)
                  \<and> ret_err res = Some (Wrap (MultiError (metaErrs resp)) ''incomplete view''))
                 \<or> (\<exists>e. ret_metas res = None \<and> ret_partial res = None
                        \<and> ret_err res = Some (Wrap e ''filter metas'')))"
    if r: "fetch l env (Leads run) f w mt flts = Returns (res, f', w', mt', flts')"
    for res f' w' mt' flts'
  proof (cases sched_err)
    case (Some e)
    from fetch_failed [OF g [unfolded Some, simplified], of env mt flts] r keep Some
    show ?thesis by auto
  next
    case None
    from g None have g': "g_Do l (Leads run) f w = Returns (Inr resp, f\<lparr>syncs := syncs f + 1\<rparr>, w2)"
      by simp
    from wf sf have "cached f \<noteq> top w2" by simp
    with fetch_outcomes [OF g', of env mt flts] r keep iv show ?thesis
      by (auto simp: store_def make_map_def)
  qed
  have nofilters: "\<exists>w' mt'. fetch l env (Leads run) f w mt [] =
              Returns (\<lparr>ret_metas = Some (top w2), ret_partial = Some (partial resp),
                         ret_err = Some (Wrap (MultiError (metaErrs resp)) ''incomplete view'')\<rparr>,
                       f\<lparr>syncs := syncs f + 1\<rparr>, w', mt', [])
              \<and> heap w' (top w2) = heap w2 (metas resp)
              \<and> heap w' (cached f) = heap w (cached f)"
    if None: "sched_err = None"
  proof -
    from g None have g': "g_Do l (Leads run) f w = Returns (Inr resp, f\<lparr>syncs := syncs f + 1\<rparr>, w2)"
      by simp
    from sf have ne: "metas resp \<noteq> top w2" by simp
    have cp: "copy_into (heap w2 (metas resp)) [] = heap w2 (metas resp)"
      using sf by (simp add: copy_into_distinct)
    from wf sf have "cached f \<noteq> top w2" by simp
    with fetch_no_filters [OF g' ne, of env mt] iv cp keep show ?thesis
      by (auto simp: store_def make_map_def)
  qed
  from fm keep all nofilters show ?thesis by blast
qed



subsection \<open>A sync that saw a transport-level error\<close>

text \<open>
  C3, as the code has it. Take a sync with workers in which at least one block failed
  with a transport-level error (the response's \<open>metaErrs\<close> is not empty). The
  in-memory cache is then left alone, the same map with the same content, on every way
  out. What is returned depends on the listing and on the filters: if the listing of
  the bucket ended with an error or was cut short by a cancellation, \<open>fetchMetadata\<close>
  returns that error and no response; if it completed, \<open>fetchMetadata\<close> returns the
  response, and \<open>fetch\<close> returns the metas, the partial map and the aggregated errors
  wrapped as \<open>incomplete view\<close>, unless a filter fails, in which case it returns that
  filter's error and no maps. With no filters it does return the former.
\<close>

theorem transport_error_keeps_cache:
  assumes wf: "cached f < top w"
    and conc: "0 < concurrency f"
    and sch: "scheduler (concurrency f) (dirs run) (list_err run) (cancelled_after run) = Some (sent, sched_err)"
    and sc: "scan l f w sent = (resp, w2)"
    and errs: "metaErrs resp \<noteq> []"
  shows "fetchMetadata l run f w =
      Returns (case sched_err of None \<Rightarrow> Inr resp | Some e \<Rightarrow> Inl (Wrap e ''BaseFetcher: iter bucket''),
               f\<lparr>syncs := syncs f + 1\<rparr>, w2)
    \<and> heap w2 (cached f) = heap w (cached f)
    \<and> (\<forall>res f' w' mt' flts'.
          fetch l env (Leads run) f w mt flts = Returns (res, f', w', mt', flts') \<longrightarrow>
            cached f' = cached f \<and> heap w' (cached f') = heap w (cached f)
            \<and> (sched_err = None \<longrightarrow>
                 (ret_metas res = Some (top w2) \<and> ret_partial res = Some (partial resp)
                  \<and> ret_err res = Some (Wrap (MultiError (metaErrs resp)) ''incomplete view''))
                 \<or> (\<exists>e. ret_metas res = None \<and> ret_partial res = None
                        \<and> ret_err res = Some (Wrap e ''filter metas''))))
    \<and> (sched_err = None \<longrightarrow>
          (\<exists>w' mt'. fetch l env (Leads run) f w mt [] =
              Returns (\<lparr>ret_metas = Some (top w2), ret_partial = Some (partial resp),
                         ret_err = Some (Wrap (MultiError (metaErrs resp)) ''incomplete view'')\<rparr>,
                       f\<lparr>syncs := syncs f + 1\<rparr>, w', mt', [])
              \<and> heap w' (top w2) = heap w2 (metas resp)
              \<and> heap w' (cached f) = heap w (cached f)))"
  using sync_with_errors [OF assms] by blast

theorem transport_error_keeps_cache_witness:
  "metaErrs (fst (scan demo_lib2 demo_failing_fetcher demo_world [1]))
     = [Wrap (External ''context canceled'')
          ''meta.json file exists: 00000000000000000000000001/meta.json'']
   \<and> fetchMetadata demo_lib2 demo_run demo_failing_fetcher demo_world
       = Returns (Inr (fst (scan demo_lib2 demo_failing_fetcher demo_world [1])),
                  demo_failing_fetcher\<lparr>syncs := 1\<rparr>,
                  snd (scan demo_lib2 demo_failing_fetcher demo_world [1]))
   \<and> heap (snd (scan demo_lib2 demo_failing_fetcher demo_world [1])) (cached demo_failing_fetcher)
       = heap demo_world (cached demo_failing_fetcher)"
proof -
  obtain resp w2 where sc: "scan demo_lib2 demo_failing_fetcher demo_world [1] = (resp, w2)"
    by (cases "scan demo_lib2 demo_failing_fetcher demo_world [1]")
  have ev: "metaErrs (fst (scan demo_lib2 demo_failing_fetcher demo_world [1]))
     = [Wrap (External ''context canceled'')
          ''meta.json file exists: 00000000000000000000000001/meta.json'']"
    by (simp add: fetch_demo_defs fetch_defs)
  have wf: "cached demo_failing_fetcher < top demo_world"
    and conc: "0 < concurrency demo_failing_fetcher"
    and sch: "scheduler (concurrency demo_failing_fetcher) (dirs demo_run) (list_err demo_run)
        (cancelled_after demo_run) = Some ([1], None)"
    by (simp_all add: fetch_demo_defs scheduler_def)
  from ev sc have errs: "metaErrs resp \<noteq> []" by simp
  have s0: "syncs demo_failing_fetcher = 0" by (simp add: fetch_demo_defs)
  show ?thesis
    using transport_error_keeps_cache [OF wf conc sch sc errs] ev sc s0 by simp
qed

text \<open>
  The claim as written has every such sync return the aggregated errors and the partial
  set. Here the context is cancelled after the first of two block IDs was sent: the
  block's \<open>Exists\<close> fails, a transport-level error, the listing ends with the
  context's error, and \<open>fetch\<close> returns that error alone.
\<close>

theorem transport_error_listing_failed_counterexample:
  "metaErrs (fst (scan demo_lib2 demo_failing_fetcher demo_world [1]))
     = [Wrap (External ''context canceled'')
          ''meta.json file exists: 00000000000000000000000001/meta.json'']
   \<and> (case fetch demo_lib2 demo_env (Leads demo_cancelled_run) demo_failing_fetcher demo_world
             demo_metrics [] of
         Returns (res, f', w', mt', flts') \<Rightarrow>
           res = \<lparr>ret_metas = None, ret_partial = None,
                   ret_err = Some (Wrap (External ''context canceled'') ''BaseFetcher: iter bucket'')\<rparr>
       | Blocks \<Rightarrow> False
       | Panics \<Rightarrow> False)"
  by (simp add: fetch_demo_defs fetch_defs)


subsection \<open>The map handed to the filters\<close>

text \<open>
  C10. Take any call of \<open>Fetch\<close>, leading the single flight or sharing its result,
  that starts in a state where the cache (and a shared response's map) exists, and
  that returns. The filters do not touch the fetcher. If the single-flight result is a
  response, the filter chain ran on a map made by this call (its address was not in use
  before), holding a copy of the response's map, and that map is the one returned,
  when a map is returned; it is neither the response's map nor the cache, and both
  hold after the call what they held when the single flight returned. The map that was
  the cache before the call is never changed; the fetcher's cache is another map after
  the call only if this call led the flight and its sync had no transport-level error,
  and then it is a new map with the content of the response's map.
\<close>

theorem filters_run_on_fresh_copy:
  assumes wf: "wf_call w (wrapped mf) fl"
    and g: "g_Do l fl (wrapped mf) w = Returns (v, f', w')"
    and ret: "Fetch l env fl mf w = Returns (res, mf', w'')"
  shows "wrapped mf' = f'
    \<and> heap w'' (cached (wrapped mf)) = heap w (cached (wrapped mf))
    \<and> heap w'' (cached f') = heap w' (cached f')
    \<and> (cached f' \<noteq> cached (wrapped mf) \<longrightarrow>
          (\<exists>run resp. fl = Leads run \<and> v = Inr resp \<and> metaErrs resp = []
             \<and> top w \<le> cached f' \<and> heap w' (cached f') = heap w' (metas resp)))
    \<and> (\<forall>resp. v = Inr resp \<longrightarrow>
          top w \<le> top w' \<and> top w' \<noteq> cached f' \<and> top w' \<noteq> metas resp
          \<and> heap w'' (metas resp) = heap w' (metas resp)
          \<and> (\<exists>s e s' m'. run_filters env (filters mf)
                (store (snd (make_map w')) (top w') (heap w' (metas resp))) (top w')
                s (ResetTx (Modified (metrics mf))) = Returns (e, filters mf', w'', s', m'))
          \<and> (ret_metas res = None \<or> ret_metas res = Some (top w')))
    \<and> (ret_err res = None \<longrightarrow> ret_metas res = Some (top w'))"
proof -
  define f mt flts where "f = wrapped mf" and "mt = metrics mf" and "flts = filters mf"
  from ret obtain f'' mt' flts' where
    r: "fetch l env fl f w mt flts = Returns (res, f'', w'', mt', flts')"
    and mf': "mf' = \<lparr>wrapped = f'', metrics = mt', filters = flts'\<rparr>"
    by (auto simp: Fetch_def f_def mt_def flts_def split: outcome.splits)
  note g = g [folded f_def]
  note gw = g_Do_wf [OF wf [folded f_def] g]
  have "f'' = f'
    \<and> heap w'' (cached f) = heap w (cached f)
    \<and> heap w'' (cached f') = heap w' (cached f')
    \<and> (cached f' \<noteq> cached f \<longrightarrow>
          (\<exists>run resp. fl = Leads run \<and> v = Inr resp \<and> metaErrs resp = []
             \<and> top w \<le> cached f' \<and> heap w' (cached f') = heap w' (metas resp)))
    \<and> (\<forall>resp. v = Inr resp \<longrightarrow>
          top w \<le> top w' \<and> top w' \<noteq> cached f' \<and> top w' \<noteq> metas resp
          \<and> heap w'' (metas resp) = heap w' (metas resp)
          \<and> (\<exists>s e s' m'. run_filters env flts
                (store (snd (make_map w')) (top w') (heap w' (metas resp))) (top w')
                s (ResetTx (Modified mt)) = Returns (e, flts', w'', s', m'))
          \<and> (ret_metas res = None \<or> ret_metas res = Some (top w')))
    \<and> (ret_err res = None \<longrightarrow> ret_metas res = Some (top w'))"
  proof (cases v)
    case (Inl e)
    from fetch_failed [OF g [unfolded Inl], of env mt flts] r gw Inl show ?thesis
      by auto
  next
    case (Inr resp)
    from gw Inr have al: "allocated w' (metas resp)" by simp
    from fetch_outcomes [OF g [unfolded Inr], of env mt flts] r
    obtain ms where w'': "w'' = store (snd (make_map w')) (top w') ms" and f'': "f'' = f'"
      and rm: "ret_metas res = None \<or> ret_metas res = Some (top w')"
      and re: "ret_err res = None \<longrightarrow> ret_metas res = Some (top w')"
      by auto
    from fetch_runs_filters_on_copy [OF g [unfolded Inr] al r]
    have run: "\<exists>s e s' m'. run_filters env flts
                (store (snd (make_map w')) (top w') (heap w' (metas resp))) (top w')
                s (ResetTx (Modified mt)) = Returns (e, flts', w'', s', m')" .
    from al have lt: "metas resp < top w'" by (simp add: allocated_def)
    have untouched: "heap w'' x = heap w' x" if "x < top w'" for x
      using that by (simp add: w'' store_def make_map_def)
    from gw lt untouched run rm re f'' Inr show ?thesis
      by auto
  qed
  then show ?thesis
    by (simp add: mf' f_def mt_def flts_def)
qed

theorem filters_run_on_fresh_copy_witness:
  "(case Fetch demo_lib2 demo_env (Leads demo_run) demo_meta_fetcher demo_world of
      Returns (res, mf', w') \<Rightarrow>
        ret_err res = None \<and> ret_metas res = Some 3 \<and> cached (wrapped mf') = 2
        \<and> heap w' 1 = [(1, demo_meta)] \<and> heap w' 2 = [(1, demo_meta)] \<and> heap w' 3 = []
        \<and> heap w' (cached demo_fetcher) = heap demo_world (cached demo_fetcher)
    | Blocks \<Rightarrow> False
    | Panics \<Rightarrow> False)"
proof -
  have ev: "(case Fetch demo_lib2 demo_env (Leads demo_run) demo_meta_fetcher demo_world of
      Returns (res, mf', w') \<Rightarrow>
        ret_err res = None \<and> ret_metas res = Some 3 \<and> cached (wrapped mf') = 2
        \<and> heap w' 1 = [(1, demo_meta)] \<and> heap w' 2 = [(1, demo_meta)] \<and> heap w' 3 = []
    | Blocks \<Rightarrow> False
    | Panics \<Rightarrow> False)"
    by (simp add: Fetch_def demo_meta_fetcher_def fetch_demo_defs fetch_defs)
  then obtain res mf' w'' where
    r: "Fetch demo_lib2 demo_env (Leads demo_run) demo_meta_fetcher demo_world
          = Returns (res, mf', w'')"
    by (auto split: outcome.splits)
  have "case g_Do demo_lib2 (Leads demo_run) (wrapped demo_meta_fetcher) demo_world of
          Returns (v, f', w') \<Rightarrow> True | Blocks \<Rightarrow> False | Panics \<Rightarrow> False"
    by (simp add: demo_meta_fetcher_def fetch_demo_defs fetch_defs)
  then obtain v f' w' where
    g: "g_Do demo_lib2 (Leads demo_run) (wrapped demo_meta_fetcher) demo_world = Returns (v, f', w')"
    by (auto split: outcome.splits)
  have wf: "wf_call demo_world (wrapped demo_meta_fetcher) (Leads demo_run)"
    by (simp add: wf_call_def demo_meta_fetcher_def fetch_demo_defs)
  have w: "wrapped demo_meta_fetcher = demo_fetcher" by (simp add: demo_meta_fetcher_def)
  show ?thesis
    using filters_run_on_fresh_copy [OF wf g r] ev r w by simp
qed

subsection \<open>A sync without transport-level errors\<close>

text \<open>
  C1, as the code has it. Take a sync with workers whose listing completed and in
  which no block failed with a transport-level error. \<open>fetchMetadata\<close> then replaces
  the cache by a new map with the content of the response's map, the unfiltered result
  of the sync, and that is what the cache holds when \<open>fetch\<close> returns. The map
  returned to the caller of \<open>Fetch\<close> is another map: a copy of the response's map
  that went through the filter chain. With no filters it equals the cache; after the
  filters of this file its entries are entries of the cache.
\<close>

theorem complete_sync_cache_is_response:
  assumes wf: "cached f < top w"
    and conc: "0 < concurrency f"
    and comp: "completes run"
    and sc: "scan l f w (dirs run) = (resp, w2)"
    and noerr: "metaErrs resp = []"
  shows "(\<exists>w'. fetchMetadata l run f w =
            Returns (Inr resp, f\<lparr>syncs := syncs f + 1, cached := Suc (top w)\<rparr>, w')
          \<and> heap w' (Suc (top w)) = heap w' (metas resp)
          \<and> heap w' (metas resp) = heap w2 (metas resp))
    \<and> (\<forall>res f' w' mt' flts'.
          fetch l env (Leads run) f w mt flts = Returns (res, f', w', mt', flts') \<longrightarrow>
            cached f' = Suc (top w) \<and> heap w' (cached f') = heap w' (metas resp)
            \<and> heap w' (metas resp) = heap w2 (metas resp)
            \<and> (ret_err res = None \<longrightarrow>
                  ret_metas res = Some (Suc (Suc (top w)))
                  \<and> (list_all source_filter flts \<longrightarrow>
                        set (heap w' (Suc (Suc (top w)))) \<subseteq> set (heap w' (cached f')))))
    \<and> (\<exists>w' mt'. fetch l env (Leads run) f w mt [] =
            Returns (\<lparr>ret_metas = Some (Suc (Suc (top w))), ret_partial = Some (partial resp),
                       ret_err = None\<rparr>,
                     f\<lparr>syncs := syncs f + 1, cached := Suc (top w)\<rparr>, w', mt', [])
          \<and> heap w' (Suc (Suc (top w))) = heap w' (Suc (top w)))"
proof -
  note sf = scan_frame [OF sc]
  define f2 where "f2 = f\<lparr>syncs := syncs f + 1, cached := Suc (top w)\<rparr>"
  define w5 where "w5 = sweep_local f2 (store (snd (make_map w2)) (Suc (top w)) (heap w2 (top w)))
      (heap w2 (top w))"
  from g_Do_leads [OF conc scheduler_completes [OF conc comp] sc] noerr
  have g: "g_Do l (Leads run) f w = Returns (Inr resp, f2, w5)"
    by (simp add: f2_def w5_def)
  then have fm: "fetchMetadata l run f w = Returns (Inr resp, f2, w5)"
    by (simp add: g_Do_def)
  have w5: "top w5 = Suc (Suc (top w))" "heap w5 (Suc (top w)) = heap w2 (top w)"
    "heap w5 (top w) = heap w2 (top w)" "metas resp = top w"
    using sf by (simp_all add: w5_def store_def make_map_def)
  have al: "allocated w5 (metas resp)"
    using sf w5 by (simp add: allocated_def)
  have iv: "incomplete_view resp = None" using noerr by (simp add: incomplete_view_def)
  have part1: "\<exists>w'. fetchMetadata l run f w =
            Returns (Inr resp, f\<lparr>syncs := syncs f + 1, cached := Suc (top w)\<rparr>, w')
          \<and> heap w' (Suc (top w)) = heap w' (metas resp)
          \<and> heap w' (metas resp) = heap w2 (metas resp)"
    using fm w5 by (auto simp: f2_def)
  have part2: "cached f' = Suc (top w) \<and> heap w' (cached f') = heap w' (metas resp)
            \<and> heap w' (metas resp) = heap w2 (metas resp)
            \<and> (ret_err res = None \<longrightarrow>
                  ret_metas res = Some (Suc (Suc (top w)))
                  \<and> (list_all source_filter flts \<longrightarrow>
                        set (heap w' (Suc (Suc (top w)))) \<subseteq> set (heap w' (cached f'))))"
    if r: "fetch l env (Leads run) f w mt flts = Returns (res, f', w', mt', flts')"
    for res f' w' mt' flts'
  proof -
    from fetch_outcomes [OF g, of env mt flts] r
    obtain ms where w': "w' = store (snd (make_map w5)) (top w5) ms" and f': "f' = f2"
      and re: "ret_err res = None \<longrightarrow> ret_metas res = Some (top w5)"
      by auto
    have low: "heap w' x = heap w5 x" if "x < top w5" for x
      using that by (simp add: w' store_def make_map_def)
    from fetch_runs_filters_on_copy [OF g al r] obtain s e s' m' where
      run: "run_filters env flts (store (snd (make_map w5)) (top w5) (heap w5 (metas resp)))
              (top w5) s (ResetTx (Modified mt)) = Returns (e, flts', w', s', m')"
      by blast
    have sub: "set (heap w' (top w5)) \<subseteq> set (heap w5 (metas resp))"
      if "list_all source_filter flts"
      using run_filters_source_subset [OF that run] by (simp add: store_def)
    from low [of "Suc (top w)"] low [of "top w"] w5 f' re sub show ?thesis
      by (auto simp: f2_def)
  qed
  have part3: "\<exists>w' mt'. fetch l env (Leads run) f w mt [] =
            Returns (\<lparr>ret_metas = Some (Suc (Suc (top w))), ret_partial = Some (partial resp),
                       ret_err = None\<rparr>,
                     f\<lparr>syncs := syncs f + 1, cached := Suc (top w)\<rparr>, w', mt', [])
          \<and> heap w' (Suc (Suc (top w))) = heap w' (Suc (top w))"
  proof -
    from al have ne: "metas resp \<noteq> top w5" and
      cp: "copy_into (heap w5 (metas resp)) [] = heap w5 (metas resp)"
      by (auto simp: allocated_def copy_into_distinct)
    from fetch_no_filters [OF g ne, of env mt] iv cp w5 show ?thesis
      by (auto simp: f2_def store_def make_map_def)
  qed
  from part1 part2 part3 show ?thesis by blast
qed

theorem complete_sync_cache_is_response_witness:
  "completes demo_run
   \<and> scan demo_lib2 demo_fetcher demo_world (dirs demo_run)
       = (\<lparr>metas = 1, partial = [], metaErrs = [], noMetas = 0, corruptedMetas = 0\<rparr>,
          demo_world\<lparr>heap := (heap demo_world)(1 := [(1, demo_meta)]), top := 2\<rparr>)
   \<and> (case fetch demo_lib2 demo_env (Leads demo_run) demo_fetcher demo_world demo_metrics [] of
      Returns (res, f', w', mt', flts') \<Rightarrow>
        ret_err res = None \<and> ret_metas res = Some 3 \<and> cached f' = 2
        \<and> heap w' 3 = heap w' 2 \<and> heap w' 2 = [(1, demo_meta)]
    | Blocks \<Rightarrow> False
    | Panics \<Rightarrow> False)"
proof -
  have wf: "cached demo_fetcher < top demo_world" and conc: "0 < concurrency demo_fetcher"
    and comp: "completes demo_run"
    by (simp_all add: fetch_demo_defs completes_def)
  have sc: "scan demo_lib2 demo_fetcher demo_world (dirs demo_run)
       = (\<lparr>metas = 1, partial = [], metaErrs = [], noMetas = 0, corruptedMetas = 0\<rparr>,
          demo_world\<lparr>heap := (heap demo_world)(1 := [(1, demo_meta)]), top := 2\<rparr>)"
    by (simp add: fetch_demo_defs fetch_defs)
  have noerr: "metaErrs \<lparr>metas = 1, partial = [], metaErrs = [], noMetas = 0, corruptedMetas = 0\<rparr> = []"
    by simp
  have ev: "(case fetch demo_lib2 demo_env (Leads demo_run) demo_fetcher demo_world demo_metrics [] of
      Returns (res, f', w', mt', flts') \<Rightarrow> heap w' 2 = [(1, demo_meta)]
    | Blocks \<Rightarrow> False
    | Panics \<Rightarrow> False)"
    by (simp add: fetch_demo_defs fetch_defs)
  then obtain res f' w' mt' flts' where
    r: "fetch demo_lib2 demo_env (Leads demo_run) demo_fetcher demo_world demo_metrics []
          = Returns (res, f', w', mt', flts')"
    and h2: "heap w' 2 = [(1, demo_meta)]"
    by (auto split: outcome.splits)
  have t: "top demo_world = 1" "syncs demo_fetcher = 0" by (simp_all add: fetch_demo_defs)
  note inst = complete_sync_cache_is_response [OF wf conc comp sc noerr, of demo_env demo_metrics "[]"]
  from inst r t have "ret_err res = None \<and> ret_metas res = Some 3 \<and> cached f' = 2
        \<and> heap w' 3 = heap w' 2"
    by (simp add: numeral_3_eq_3 numeral_2_eq_2)
  with comp sc r h2 show ?thesis by simp
qed


text \<open>
  The claim as written equates the cache with the map returned to the caller of
  \<open>Fetch\<close>. A consistency-delay filter of thirty minutes removes the one block of the
  bucket, created at time 0 and seen at one second, from the returned map; the cache
  keeps it.
\<close>

theorem filtered_result_differs_from_cache_counterexample:
  "(case fetch demo_lib2 demo_env (Leads demo_run) demo_fetcher demo_world demo_metrics
          [ConsistencyDelayMetaFilter 1800000000000] of
      Returns (res, f', w', mt', flts') \<Rightarrow>
        ret_err res = None \<and> heap w' (cached f') = [(1, demo_meta)]
        \<and> ret_metas res = Some 3 \<and> heap w' 3 = []
    | Blocks \<Rightarrow> False
    | Panics \<Rightarrow> False)"
  by (simp add: fetch_demo_defs fetch_defs)



subsection \<open>One block in a sync\<close>

lemma loadMeta_deleted:
  assumes "deleted_in_between l f i" "reaches_bucket f w i"
  shows "\<exists>w'. loadMeta l f w i = (Inl deleted_err, w') \<and> reaches_bucket f w' i"
  using assms
  by (auto simp: deleted_in_between_def reaches_bucket_def loadMeta_def Let_def read_local_def
      deleted_err_def split: sum.splits option.splits disk_entry.splits)

lemma loadMeta_unknown_version:
  assumes "unknown_version l f i" "reaches_bucket f w i"
  shows "\<exists>w'. loadMeta l f w i = (Inl (version_err l i), w') \<and> reaches_bucket f w' i"
  using assms
  by (auto simp: unknown_version_def reaches_bucket_def loadMeta_def Let_def read_local_def
      version_err_def split: sum.splits option.splits disk_entry.splits)

lemma loadMeta_transport_safe:
  assumes "transport_safe l f i" "loadMeta l f w i = (Inl e, w')"
  shows "partial_error e"
  using assms
  by (auto simp: transport_safe_def loadMeta_def Let_def partial_error_def
      split: sum.splits option.splits bool.splits prod.splits if_splits)

lemma worker_step_other:
  assumes st: "worker_step l f j (resp, w) = (resp', w')"
    and ne: "j \<noteq> i" and c: "cached f \<noteq> metas resp"
  shows "(reaches_bucket f w i \<longrightarrow> reaches_bucket f w' i)
    \<and> (map_of (heap w (metas resp)) i = None \<longrightarrow> map_of (heap w' (metas resp')) i = None)
    \<and> map_of (partial resp') i = map_of (partial resp) i
    \<and> (\<exists>es. metaErrs resp' = metaErrs resp @ es)
    \<and> noMetas resp \<le> noMetas resp'"
proof -
  obtain r w1 where lm: "loadMeta l f w j = (r, w1)" by (cases "loadMeta l f w j")
  note fr = loadMeta_frame [OF lm]
  from fr ne have rb: "reaches_bucket f w i \<longrightarrow> reaches_bucket f w1 i"
    by (simp add: reaches_bucket_def)
  from st fr ne c rb show ?thesis
    by (cases r)
      (auto simp: worker_step_def lm store_def reaches_bucket_def update_conv'
        split: if_splits)
qed

lemma worker_step_self:
  assumes lm: "loadMeta l f w i = (Inl e, w1)"
  shows "worker_step l f i (resp, w) =
    (if Cause e = ErrorSyncMetaNotFound
     then (resp\<lparr>noMetas := noMetas resp + 1, partial := AList.update i e (partial resp)\<rparr>, w1)
     else if Cause e = ErrorSyncMetaCorrupted
     then (resp\<lparr>corruptedMetas := corruptedMetas resp + 1,
                partial := AList.update i e (partial resp)\<rparr>, w1)
     else (resp\<lparr>metaErrs := metaErrs resp @ [e]\<rparr>, w1))"
  by (simp add: worker_step_def lm)

lemma fold_block_not_found:
  assumes beh: "\<And>w. reaches_bucket f w i \<Longrightarrow>
        \<exists>w'. loadMeta l f w i = (Inl e, w') \<and> reaches_bucket f w' i"
    and nf: "Cause e = ErrorSyncMetaNotFound"
    and fd: "fold (worker_step l f) ids (resp, w) = (resp', w')"
    and rb: "reaches_bucket f w i" and c: "cached f \<noteq> metas resp"
    and nom: "map_of (heap w (metas resp)) i = None"
  shows "reaches_bucket f w' i \<and> map_of (heap w' (metas resp)) i = None
    \<and> (i \<in> set ids \<longrightarrow> map_of (partial resp') i = Some e \<and> noMetas resp < noMetas resp')
    \<and> (i \<notin> set ids \<longrightarrow> map_of (partial resp') i = map_of (partial resp) i)
    \<and> noMetas resp \<le> noMetas resp'"
  using fd rb c nom
proof (induction ids arbitrary: resp w)
  case Nil
  then show ?case by simp
next
  case (Cons j ids)
  obtain r1 w1 where st: "worker_step l f j (resp, w) = (r1, w1)"
    by (cases "worker_step l f j (resp, w)")
  from Cons.prems(1) have fd': "fold (worker_step l f) ids (r1, w1) = (resp', w')"
    by (simp add: st)
  note fr = worker_step_frame [OF st]
  show ?case
  proof (cases "j = i")
    case True
    from beh [OF Cons.prems(2)] obtain w2 where
      lm: "loadMeta l f w i = (Inl e, w2)" and rb2: "reaches_bucket f w2 i" by blast
    from worker_step_self [OF lm, of resp] nf st True
    have r1: "r1 = resp\<lparr>noMetas := noMetas resp + 1, partial := AList.update i e (partial resp)\<rparr>"
      and w1: "w1 = w2" by simp_all
    from loadMeta_frame [OF lm] Cons.prems(4) have nom1: "map_of (heap w1 (metas r1)) i = None"
      by (simp add: r1 w1)
    have m1: "metas r1 = metas resp" by (simp add: r1)
    from Cons.IH [OF fd' rb2 [folded w1]] Cons.prems(3) nom1 m1
    show ?thesis by (auto simp: r1 update_conv' True)
  next
    case False
    note ot = worker_step_other [OF st False Cons.prems(3)]
    from ot Cons.prems have rb1: "reaches_bucket f w1 i"
      and nom1: "map_of (heap w1 (metas r1)) i = None" by auto
    from fr have m1: "metas r1 = metas resp" by simp
    from Cons.IH [OF fd' rb1] Cons.prems(3) nom1 m1 ot False
    show ?thesis by auto
  qed
qed

lemma fold_block_failed:
  assumes beh: "\<And>w. reaches_bucket f w i \<Longrightarrow>
        \<exists>w'. loadMeta l f w i = (Inl e, w') \<and> reaches_bucket f w' i"
    and np: "\<not> partial_error e"
    and fd: "fold (worker_step l f) ids (resp, w) = (resp', w')"
    and rb: "reaches_bucket f w i" and c: "cached f \<noteq> metas resp"
    and nom: "map_of (heap w (metas resp)) i = None"
  shows "reaches_bucket f w' i \<and> map_of (heap w' (metas resp)) i = None
    \<and> map_of (partial resp') i = map_of (partial resp) i
    \<and> (i \<in> set ids \<longrightarrow> e \<in> set (metaErrs resp'))
    \<and> (\<exists>es. metaErrs resp' = metaErrs resp @ es)"
  using fd rb c nom
proof (induction ids arbitrary: resp w)
  case Nil
  then show ?case by simp
next
  case (Cons j ids)
  obtain r1 w1 where st: "worker_step l f j (resp, w) = (r1, w1)"
    by (cases "worker_step l f j (resp, w)")
  from Cons.prems(1) have fd': "fold (worker_step l f) ids (r1, w1) = (resp', w')"
    by (simp add: st)
  note fr = worker_step_frame [OF st]
  show ?case
  proof (cases "j = i")
    case True
    from beh [OF Cons.prems(2)] obtain w2 where
      lm: "loadMeta l f w i = (Inl e, w2)" and rb2: "reaches_bucket f w2 i" by blast
    from worker_step_self [OF lm, of resp] np st True
    have r1: "r1 = resp\<lparr>metaErrs := metaErrs resp @ [e]\<rparr>"
      and w1: "w1 = w2" by (simp_all add: partial_error_def)
    from loadMeta_frame [OF lm] Cons.prems(4) have nom1: "map_of (heap w1 (metas r1)) i = None"
      by (simp add: r1 w1)
    have m1: "metas r1 = metas resp" by (simp add: r1)
    from Cons.IH [OF fd' rb2 [folded w1]] Cons.prems(3) nom1 m1
    show ?thesis by (auto simp: r1 True)
  next
    case False
    note ot = worker_step_other [OF st False Cons.prems(3)]
    from ot Cons.prems have rb1: "reaches_bucket f w1 i"
      and nom1: "map_of (heap w1 (metas r1)) i = None" by auto
    from fr have m1: "metas r1 = metas resp" by simp
    from Cons.IH [OF fd' rb1] Cons.prems(3) nom1 m1 ot False
    show ?thesis by auto
  qed
qed

lemma fold_transport_safe:
  assumes "\<forall>j \<in> set ids. transport_safe l f j"
    and "fold (worker_step l f) ids (resp, w) = (resp', w')"
  shows "metaErrs resp' = metaErrs resp"
  using assms
proof (induction ids arbitrary: resp w)
  case Nil
  then show ?case by simp
next
  case (Cons j ids)
  obtain r1 w1 where st: "worker_step l f j (resp, w) = (r1, w1)"
    by (cases "worker_step l f j (resp, w)")
  from Cons.prems(2) have fd': "fold (worker_step l f) ids (r1, w1) = (resp', w')"
    by (simp add: st)
  obtain r w2 where lm: "loadMeta l f w j = (r, w2)" by (cases "loadMeta l f w j")
  from Cons.prems(1) have ts: "transport_safe l f j" by simp
  have "metaErrs r1 = metaErrs resp"
  proof (cases r)
    case (Inl e)
    from loadMeta_transport_safe [OF ts lm [unfolded Inl]] st lm Inl show ?thesis
      by (auto simp: worker_step_def partial_error_def split: if_splits)
  next
    case (Inr m)
    with st lm show ?thesis by (auto simp: worker_step_def)
  qed
  with Cons.IH [OF _ fd'] Cons.prems(1) show ?case by simp
qed

lemma ConsistencyDelay_loop_gauge:
  "lv \<noteq> tooFreshMeta \<Longrightarrow> tx (snd (ConsistencyDelay_loop env d es ms s)) lv = tx s lv"
proof (induction es arbitrary: ms s)
  case Nil
  then show ?case by simp
next
  case (Cons e es)
  obtain i m where e: "e = (i, m)" by (cases e)
  from Cons show ?case by (simp add: e gauge_Inc_def)
qed

lemma fold_probe_step_gauge:
  "lv \<noteq> MarkedForDeletionMeta \<Longrightarrow>
   tx (snd (snd (fold (probe_step env f) ids (dm, ms, s)))) lv = tx s lv"
proof (induction ids arbitrary: dm ms s)
  case Nil
  then show ?case by simp
next
  case (Cons i ids)
  obtain dm1 ms1 s1 where st: "probe_step env f i (dm, ms, s) = (dm1, ms1, s1)"
    by (cases "probe_step env f i (dm, ms, s)")
  with Cons.prems have "tx s1 lv = tx s lv"
    by (auto simp: probe_step_def gauge_Inc_def split: sum.splits if_splits)
  with Cons.IH [OF Cons.prems, of dm1 ms1 s1] show ?case by (simp add: st)
qed

lemma IgnoreDeletionMark_Filter_gauge:
  assumes "IgnoreDeletionMark_Filter env f ms s = Returns (e, f', ms', s')"
    and "lv \<noteq> MarkedForDeletionMeta"
  shows "tx s' lv = tx s lv"
proof -
  from assms(1) have "\<exists>sent. s' = snd (snd (fold (probe_step env f) sent ([], ms, s)))"
    by (auto simp: IgnoreDeletionMark_Filter_def Let_def split: if_splits option.splits prod.splits)
      (metis snd_conv)+
  then obtain sent where "s' = snd (snd (fold (probe_step env f) sent ([], ms, s)))" ..
  with fold_probe_step_gauge [OF assms(2), of env f sent "[]" ms s] show ?thesis by simp
qed

lemma Filter_source_gauge:
  assumes "source_filter flt" and "Filter env flt w a s m = Returns (e, flt', w', s', m')"
    and "lv \<noteq> tooFreshMeta" "lv \<noteq> MarkedForDeletionMeta"
  shows "tx s' lv = tx s lv"
proof (cases flt)
  case (ConsistencyDelayMetaFilter d)
  with assms(2) ConsistencyDelay_loop_gauge [OF assms(3), of env d "heap w a" "heap w a" s]
  show ?thesis by (auto split: prod.splits)
next
  case (IgnoreDeletionMark f)
  with assms(2) obtain f1 ms1 where
    "IgnoreDeletionMark_Filter env f (heap w a) s = Returns (e, f1, ms1, s')"
    by (auto split: outcome.splits)
  from IgnoreDeletionMark_Filter_gauge [OF this assms(4)] show ?thesis .
next
  case (OtherFilter g)
  with assms(1) show ?thesis by simp
qed

lemma run_filters_source_gauge:
  assumes "list_all source_filter flts"
    and "run_filters env flts w a s m = Returns (e, flts', w', s', m')"
    and "lv \<noteq> tooFreshMeta" "lv \<noteq> MarkedForDeletionMeta"
  shows "tx s' lv = tx s lv"
  using assms(1,2)
proof (induction flts arbitrary: w s m e flts' w' s' m')
  case Nil
  then show ?case by simp
next
  case (Cons flt flts)
  from Cons.prems(1) have sf: "source_filter flt" and rest: "list_all source_filter flts" by auto
  show ?case
  proof (cases "Filter env flt w a s m")
    case (Returns r)
    obtain e1 flt1 w1 s1 m1 where r: "r = (e1, flt1, w1, s1, m1)" by (cases r)
    note g1 = Filter_source_gauge [OF sf Returns [unfolded r] assms(3,4)]
    show ?thesis
    proof (cases e1)
      case (Some err)
      with Cons.prems(2) Returns r g1 show ?thesis by auto
    next
      case None
      with Cons.prems(2) Returns r obtain e2 rest2 where
        "run_filters env flts w1 a s1 m1 = Returns (e2, rest2, w', s', m')"
        by (auto split: outcome.splits)
      from Cons.IH [OF rest this] g1 show ?thesis by simp
    qed
  next
    case Blocks
    with Cons.prems(2) show ?thesis by simp
  next
    case Panics
    with Cons.prems(2) show ?thesis by simp
  qed
qed

lemma fetch_gauges:
  assumes g: "g_Do l fl f w = Returns (Inr resp, f', w')"
    and r: "fetch l env fl f w mt flts = Returns (res, f'', w'', mt', flts')"
    and ok: "ret_metas res \<noteq> None"
    and src: "list_all source_filter flts"
  shows "published (Synced mt') NoMeta = noMetas resp
    \<and> published (Synced mt') CorruptedMeta = corruptedMetas resp
    \<and> published (Synced mt') FailedMeta = length (metaErrs resp)"
proof -
  let ?w2 = "store (snd (make_map w')) (top w') (copy_into (heap (snd (make_map w')) (metas resp))
      (heap (snd (make_map w')) (top w')))"
  let ?s1 = "gauge_Set (gauge_Set (gauge_Set (ResetTx (Synced mt))
                              FailedMeta (length (metaErrs resp)))
                              NoMeta (noMetas resp))
                              CorruptedMeta (corruptedMetas resp)"
  have s1: "tx ?s1 NoMeta = noMetas resp" "tx ?s1 CorruptedMeta = corruptedMetas resp"
    "tx ?s1 FailedMeta = length (metaErrs resp)"
    by (simp_all add: gauge_Set_def NoMeta_def CorruptedMeta_def FailedMeta_def)
  show ?thesis
  proof (cases "run_filters env flts ?w2 (top w') ?s1 (ResetTx (Modified mt))")
    case (Returns x)
    obtain e flts1 w3 s' m' where x: "x = (e, flts1, w3, s', m')" by (cases x)
    have keep: "tx s' lv = tx ?s1 lv" if "lv \<noteq> tooFreshMeta" "lv \<noteq> MarkedForDeletionMeta" for lv
      using run_filters_source_gauge [OF src Returns [unfolded x] that] .
    have k: "tx s' NoMeta = noMetas resp" "tx s' CorruptedMeta = corruptedMetas resp"
      "tx s' FailedMeta = length (metaErrs resp)"
      using keep [of NoMeta] keep [of CorruptedMeta] keep [of FailedMeta] s1
      by (simp_all add: NoMeta_def CorruptedMeta_def FailedMeta_def tooFreshMeta_def
          MarkedForDeletionMeta_def)
    from g r ok Returns x k show ?thesis
      by (cases e)
        (auto simp: fetch_def Let_def make_map_def Submit_def gauge_Set_def deferred_def
          LoadedMeta_def NoMeta_def CorruptedMeta_def FailedMeta_def split: if_splits)
  next
    case Blocks
    with g r show ?thesis by (simp add: fetch_def Let_def make_map_def)
  next
    case Panics
    with g r show ?thesis by (simp add: fetch_def Let_def make_map_def)
  qed
qed


lemma reaches_bucket_syncs [simp]:
  "reaches_bucket (f\<lparr>syncs := n\<rparr>) w i = reaches_bucket f w i"
  by (simp add: reaches_bucket_def)

lemma block_preds_syncs [simp]:
  "deleted_in_between l (f\<lparr>syncs := n\<rparr>) i = deleted_in_between l f i"
  "unknown_version l (f\<lparr>syncs := n\<rparr>) i = unknown_version l f i"
  "transport_safe l (f\<lparr>syncs := n\<rparr>) i = transport_safe l f i"
  by (simp_all add: deleted_in_between_def unknown_version_def transport_safe_def Let_def
      cong: sum.case_cong bool.case_cong)

lemma scan_start:
  assumes wf: "cached f < top w" and rb: "reaches_bucket f w i"
  shows "reaches_bucket (f\<lparr>syncs := syncs f + 1\<rparr>) (snd (make_map w)) i
    \<and> cached (f\<lparr>syncs := syncs f + 1\<rparr>) \<noteq> top w
    \<and> map_of (heap (snd (make_map w)) (top w)) i = None"
  using assms by (auto simp: reaches_bucket_def make_map_def)

lemma deleted_in_between_safe: "deleted_in_between l f i \<Longrightarrow> transport_safe l f i"
  by (auto simp: deleted_in_between_def transport_safe_def Let_def split: sum.splits)


lemmas block_defs = reaches_bucket_def deleted_in_between_def unknown_version_def
  transport_safe_def deleted_err_def version_err_def completes_def

subsection \<open>A meta.json deleted between Exists and Get\<close>

text \<open>
  C8. Take a block whose \<open>meta.json\<close> exists when \<open>loadMeta\<close> asks and is reported
  as not found by the \<open>Get\<close> that follows (the block being neither in the in-memory
  cache nor in the local one, so that the \<open>Get\<close> is made). \<open>loadMeta\<close> returns an
  error whose cause is \<open>ErrorSyncMetaNotFound\<close>, and a worker's step on this block
  puts the block into the partial map with that error, adds one to \<open>noMetas\<close> and
  adds nothing to the sync's transport-level errors. In a sync with workers whose listing
  completes and contains the block, \<open>fetchMetadata\<close> returns a response in which the
  block is in the partial map with that error, is counted in \<open>noMetas\<close>, and is not
  among the metas; the response has no transport-level errors at all when the other
  listed blocks cannot produce any. Whenever \<open>fetch\<close> returns maps, the partial map
  is the response's, the error is the one made of the response's transport-level
  errors (none, if there are none), and, after filters of this file, the published
  \<open>no-meta-json\<close> gauge is the response's count; with no filters \<open>fetch\<close> does
  return so.
\<close>

theorem deleted_meta_is_partial:
  assumes wf: "cached f < top w" and conc: "0 < concurrency f" and comp: "completes run"
    and mem: "blockID \<in> set (dirs run)"
    and del: "deleted_in_between l f blockID"
    and rb: "reaches_bucket f w blockID"
  shows "(\<exists>w1. loadMeta l f w blockID = (Inl deleted_err, w1))
    \<and> Cause deleted_err = ErrorSyncMetaNotFound
    \<and> (\<forall>resp0 w0. reaches_bucket f w0 blockID \<longrightarrow>
          metaErrs (fst (worker_step l f blockID (resp0, w0))) = metaErrs resp0
          \<and> noMetas (fst (worker_step l f blockID (resp0, w0))) = noMetas resp0 + 1
          \<and> map_of (partial (fst (worker_step l f blockID (resp0, w0)))) blockID = Some deleted_err)
    \<and> (\<exists>resp f' w'. fetchMetadata l run f w = Returns (Inr resp, f', w')
          \<and> map_of (partial resp) blockID = Some deleted_err
          \<and> 0 < noMetas resp
          \<and> map_of (heap w' (metas resp)) blockID = None
          \<and> ((\<forall>j \<in> set (dirs run). j \<noteq> blockID \<longrightarrow> transport_safe l f j) \<longrightarrow> metaErrs resp = [])
          \<and> (\<forall>res f'' w'' mt' flts'.
                fetch l env (Leads run) f w mt flts = Returns (res, f'', w'', mt', flts')
                \<and> ret_metas res \<noteq> None \<longrightarrow>
                  ret_partial res = Some (partial resp) \<and> ret_err res = incomplete_view resp
                  \<and> (list_all source_filter flts \<longrightarrow> published (Synced mt') NoMeta = noMetas resp))
          \<and> (\<exists>res w'' mt'. fetch l env (Leads run) f w mt [] = Returns (res, f', w'', mt', [])
                \<and> ret_partial res = Some (partial resp) \<and> ret_err res = incomplete_view resp
                \<and> published (Synced mt') NoMeta = noMetas resp))"
proof -
  let ?f1 = "f\<lparr>syncs := syncs f + 1\<rparr>"
  have beh: "\<exists>w'. loadMeta l ?f1 w0 blockID = (Inl deleted_err, w') \<and> reaches_bucket ?f1 w' blockID"
    if "reaches_bucket ?f1 w0 blockID" for w0
    using loadMeta_deleted [of l ?f1 blockID w0] del that by simp
  have nf: "Cause deleted_err = ErrorSyncMetaNotFound" by (simp add: deleted_err_def)
  from loadMeta_deleted [OF del rb] have p1: "\<exists>w1. loadMeta l f w blockID = (Inl deleted_err, w1)"
    by blast
  have p3: "metaErrs (fst (worker_step l f blockID (resp0, w0))) = metaErrs resp0
          \<and> noMetas (fst (worker_step l f blockID (resp0, w0))) = noMetas resp0 + 1
          \<and> map_of (partial (fst (worker_step l f blockID (resp0, w0)))) blockID = Some deleted_err"
    if "reaches_bucket f w0 blockID" for resp0 w0
  proof -
    from loadMeta_deleted [OF del that] obtain w1 where
      "loadMeta l f w0 blockID = (Inl deleted_err, w1)" by blast
    from worker_step_self [OF this, of resp0] nf show ?thesis by (simp add: update_conv')
  qed
  obtain resp w2 where sc: "scan l f w (dirs run) = (resp, w2)" by (cases "scan l f w (dirs run)")
  then have fd: "fold (worker_step l ?f1) (dirs run)
      (\<lparr>metas = top w, partial = [], metaErrs = [], noMetas = 0, corruptedMetas = 0\<rparr>,
       snd (make_map w)) = (resp, w2)"
    by (simp add: scan_def)
  note st = scan_start [OF wf rb]
  from fold_block_not_found [OF beh nf fd] st mem
  have blk: "map_of (heap w2 (top w)) blockID = None" "map_of (partial resp) blockID = Some deleted_err"
    "0 < noMetas resp"
    by auto
  have safe: "metaErrs resp = []" if "\<forall>j \<in> set (dirs run). j \<noteq> blockID \<longrightarrow> transport_safe l f j"
  proof -
    from that deleted_in_between_safe [OF del]
    have "\<forall>j \<in> set (dirs run). transport_safe l ?f1 j" by auto
    from fold_transport_safe [OF this fd] show ?thesis by simp
  qed
  note sf = scan_frame [OF sc]
  note gd = g_Do_leads [OF conc scheduler_completes [OF conc comp] sc]
  then obtain f' w' where g: "g_Do l (Leads run) f w = Returns (Inr resp, f', w')"
    and hw: "heap w' (top w) = heap w2 (top w)" and tw: "top w < top w'"
    using sf by (cases "metaErrs resp = []") (auto simp: store_def make_map_def)
  then have fm: "fetchMetadata l run f w = Returns (Inr resp, f', w')" by (simp add: g_Do_def)
  from sf have mr: "metas resp = top w" by simp
  have general: "ret_partial res = Some (partial resp) \<and> ret_err res = incomplete_view resp
        \<and> (list_all source_filter flts \<longrightarrow> published (Synced mt') NoMeta = noMetas resp)"
    if r: "fetch l env (Leads run) f w mt flts = Returns (res, f'', w'', mt', flts')"
      and ok: "ret_metas res \<noteq> None" for res f'' w'' mt' flts'
    using fetch_outcomes [OF g, of env mt flts] r ok fetch_gauges [OF g r ok]
    by auto
  from tw mr have ne: "metas resp \<noteq> top w'" by simp
  from fetch_no_filters [OF g ne, of env mt] obtain mt' where
    r0: "fetch l env (Leads run) f w mt [] =
          Returns (\<lparr>ret_metas = Some (top w'), ret_partial = Some (partial resp),
                     ret_err = incomplete_view resp\<rparr>,
                   f', store (snd (make_map w')) (top w') (copy_into (heap w' (metas resp)) []),
                   mt', [])" by blast
  from fetch_gauges [OF g r0] have "published (Synced mt') NoMeta = noMetas resp" by simp
  with r0 have nofilters: "\<exists>res w'' mt'. fetch l env (Leads run) f w mt [] = Returns (res, f', w'', mt', [])
                \<and> ret_partial res = Some (partial resp) \<and> ret_err res = incomplete_view resp
                \<and> published (Synced mt') NoMeta = noMetas resp"
    by auto
  from fm blk hw mr safe general nofilters
  have "\<exists>resp f' w'. fetchMetadata l run f w = Returns (Inr resp, f', w')
          \<and> map_of (partial resp) blockID = Some deleted_err
          \<and> 0 < noMetas resp
          \<and> map_of (heap w' (metas resp)) blockID = None
          \<and> ((\<forall>j \<in> set (dirs run). j \<noteq> blockID \<longrightarrow> transport_safe l f j) \<longrightarrow> metaErrs resp = [])
          \<and> (\<forall>res f'' w'' mt' flts'.
                fetch l env (Leads run) f w mt flts = Returns (res, f'', w'', mt', flts')
                \<and> ret_metas res \<noteq> None \<longrightarrow>
                  ret_partial res = Some (partial resp) \<and> ret_err res = incomplete_view resp
                  \<and> (list_all source_filter flts \<longrightarrow> published (Synced mt') NoMeta = noMetas resp))
          \<and> (\<exists>res w'' mt'. fetch l env (Leads run) f w mt [] = Returns (res, f', w'', mt', [])
                \<and> ret_partial res = Some (partial resp) \<and> ret_err res = incomplete_view resp
                \<and> published (Synced mt') NoMeta = noMetas resp)"
    apply (intro exI [of _ resp] exI [of _ f'] exI [of _ w'])
    apply (intro conjI)
          apply simp_all
    done
  with p1 nf p3 show ?thesis by blast
qed


theorem deleted_meta_is_partial_witness:
  "deleted_in_between demo_lib2 demo_deleted_fetcher 1
   \<and> reaches_bucket demo_deleted_fetcher demo_world 1
   \<and> loadMeta demo_lib2 demo_deleted_fetcher demo_world 1 = (Inl deleted_err, demo_world)
   \<and> (case fetch demo_lib2 demo_env (Leads demo_run) demo_deleted_fetcher demo_world
             demo_metrics [] of
         Returns (res, f', w', mt', flts') \<Rightarrow>
           ret_err res = None \<and> ret_partial res = Some [(1, deleted_err)]
           \<and> published (Synced mt') NoMeta = 1
       | Blocks \<Rightarrow> False
       | Panics \<Rightarrow> False)"
proof -
  have wf: "cached demo_deleted_fetcher < top demo_world"
    and conc: "0 < concurrency demo_deleted_fetcher"
    and comp: "completes demo_run"
    and mem: "1 \<in> set (dirs demo_run)"
    and del: "deleted_in_between demo_lib2 demo_deleted_fetcher 1"
    and rb: "reaches_bucket demo_deleted_fetcher demo_world 1"
    by (simp_all add: fetch_demo_defs block_defs path_Join_def MetaFilename_def)
  have ev: "(case fetch demo_lib2 demo_env (Leads demo_run) demo_deleted_fetcher demo_world
             demo_metrics [] of
         Returns (res, f', w', mt', flts') \<Rightarrow>
           ret_err res = None \<and> ret_partial res = Some [(1, deleted_err)]
           \<and> published (Synced mt') NoMeta = 1
       | Blocks \<Rightarrow> False
       | Panics \<Rightarrow> False)"
    by (simp add: fetch_demo_defs fetch_defs block_defs NoMeta_def CorruptedMeta_def
        FailedMeta_def LoadedMeta_def)
  from deleted_meta_is_partial [OF wf conc comp mem del rb] obtain w1 where
    lm: "loadMeta demo_lib2 demo_deleted_fetcher demo_world 1 = (Inl deleted_err, w1)"
    by blast
  have "w1 = demo_world"
    using lm by (simp add: fetch_demo_defs fetch_defs)
  with lm del rb ev show ?thesis by simp
qed

subsection \<open>What fetch does after the sync\<close>

lemma fetch_after_sync:
  assumes "g_Do l fl f w = Returns (Inr resp, f', w')"
  shows "fetch l env fl f w mt flts =
    (case filter_run env flts w' resp mt of
       Blocks \<Rightarrow> Blocks
     | Panics \<Rightarrow> Panics
     | Returns (Some e, flts', w3, s', m') \<Rightarrow>
         Returns (\<lparr>ret_metas = None, ret_partial = None, ret_err = Some (Wrap e ''filter metas'')\<rparr>,
                  f', w3,
                  mt\<lparr>Syncs := Syncs mt + 1, Synced := s', Modified := m',
                     SyncFailures := SyncFailures mt + 1\<rparr>,
                  flts')
     | Returns (None, flts', w3, s', m') \<Rightarrow>
         Returns (\<lparr>ret_metas = Some (top w'), ret_partial = Some (partial resp),
                    ret_err = incomplete_view resp\<rparr>,
                  f', w3,
                  mt\<lparr>Syncs := Syncs mt + 1,
                     Synced := Submit (gauge_Set s' LoadedMeta (len (heap w3 (top w')))),
                     Modified := Submit m',
                     SyncFailures := SyncFailures mt + (if metaErrs resp = [] then 0 else 1)\<rparr>,
                  flts'))"
  using assms
  by (auto simp: fetch_def filter_run_def Let_def make_map_def incomplete_view_def deferred_def
      split: outcome.splits option.splits prod.splits)

lemma ConsistencyDelay_loop_published:
  "published (snd (ConsistencyDelay_loop env d es ms s)) = published s"
proof (induction es arbitrary: ms s)
  case Nil
  then show ?case by simp
next
  case (Cons e es)
  obtain i m where e: "e = (i, m)" by (cases e)
  from Cons show ?case by (simp add: e gauge_Inc_def)
qed

lemma fold_probe_step_published:
  "published (snd (snd (fold (probe_step env f) ids (dm, ms, s)))) = published s"
proof (induction ids arbitrary: dm ms s)
  case Nil
  then show ?case by simp
next
  case (Cons i ids)
  obtain dm1 ms1 s1 where st: "probe_step env f i (dm, ms, s) = (dm1, ms1, s1)"
    by (cases "probe_step env f i (dm, ms, s)")
  then have "published s1 = published s"
    by (auto simp: probe_step_def gauge_Inc_def split: sum.splits if_splits)
  with Cons.IH [of dm1 ms1 s1] show ?case by (simp add: st)
qed

lemma IgnoreDeletionMark_Filter_published:
  assumes "IgnoreDeletionMark_Filter env f ms s = Returns (e, f', ms', s')"
  shows "published s' = published s"
proof -
  from assms have "\<exists>sent. s' = snd (snd (fold (probe_step env f) sent ([], ms, s)))"
    by (auto simp: IgnoreDeletionMark_Filter_def Let_def split: if_splits option.splits prod.splits)
      (metis snd_conv)+
  then obtain sent where "s' = snd (snd (fold (probe_step env f) sent ([], ms, s)))" ..
  with fold_probe_step_published [of env f sent "[]" ms s] show ?thesis by simp
qed

lemma Filter_source_published:
  assumes "source_filter flt" and "Filter env flt w a s m = Returns (e, flt', w', s', m')"
  shows "published s' = published s"
proof (cases flt)
  case (ConsistencyDelayMetaFilter d)
  with assms(2) ConsistencyDelay_loop_published [of env d "heap w a" "heap w a" s]
  show ?thesis by (auto split: prod.splits)
next
  case (IgnoreDeletionMark f)
  with assms(2) obtain f1 ms1 where
    "IgnoreDeletionMark_Filter env f (heap w a) s = Returns (e, f1, ms1, s')"
    by (auto split: outcome.splits)
  from IgnoreDeletionMark_Filter_published [OF this] show ?thesis .
next
  case (OtherFilter g)
  with assms(1) show ?thesis by simp
qed

lemma run_filters_source_published:
  assumes "list_all source_filter flts"
    and "run_filters env flts w a s m = Returns (e, flts', w', s', m')"
  shows "published s' = published s"
  using assms
proof (induction flts arbitrary: w s m e flts' w' s' m')
  case Nil
  then show ?case by simp
next
  case (Cons flt flts)
  from Cons.prems(1) have sf: "source_filter flt" and rest: "list_all source_filter flts" by auto
  show ?case
  proof (cases "Filter env flt w a s m")
    case (Returns r)
    obtain e1 flt1 w1 s1 m1 where r: "r = (e1, flt1, w1, s1, m1)" by (cases r)
    note g1 = Filter_source_published [OF sf Returns [unfolded r]]
    show ?thesis
    proof (cases e1)
      case (Some err)
      with Cons.prems(2) Returns r g1 show ?thesis by auto
    next
      case None
      with Cons.prems(2) Returns r obtain e2 rest2 where
        "run_filters env flts w1 a s1 m1 = Returns (e2, rest2, w', s', m')"
        by (auto split: outcome.splits)
      from Cons.IH [OF rest this] g1 show ?thesis by simp
    qed
  next
    case Blocks
    with Cons.prems(2) show ?thesis by simp
  next
    case Panics
    with Cons.prems(2) show ?thesis by simp
  qed
qed

lemma filter_run_source:
  assumes src: "list_all source_filter flts"
    and al: "allocated w (metas resp)"
    and fr: "filter_run env flts w resp mt = Returns (e, flts', w3, s', m')"
  shows "tx s' FailedMeta = length (metaErrs resp)
    \<and> published s' = published (Synced mt)
    \<and> set (heap w3 (top w)) \<subseteq> set (heap w (metas resp))"
proof -
  let ?w2 = "store (snd (make_map w)) (top w) (copy_into (heap (snd (make_map w)) (metas resp))
      (heap (snd (make_map w)) (top w)))"
  let ?s1 = "gauge_Set (gauge_Set (gauge_Set (ResetTx (Synced mt))
                              FailedMeta (length (metaErrs resp)))
                              NoMeta (noMetas resp))
                              CorruptedMeta (corruptedMetas resp)"
  from fr have rf: "run_filters env flts ?w2 (top w) ?s1 (ResetTx (Modified mt))
      = Returns (e, flts', w3, s', m')"
    by (simp add: filter_run_def Let_def make_map_def)
  from al have ne: "metas resp \<noteq> top w"
    and cp: "copy_into (heap w (metas resp)) [] = heap w (metas resp)"
    by (auto simp: allocated_def copy_into_distinct)
  then have start: "heap ?w2 (top w) = heap w (metas resp)"
    by (simp add: store_def make_map_def)
  have "tx s' FailedMeta = tx ?s1 FailedMeta"
    using run_filters_source_gauge [OF src rf, of FailedMeta]
    by (simp add: FailedMeta_def tooFreshMeta_def MarkedForDeletionMeta_def)
  moreover have "tx ?s1 FailedMeta = length (metaErrs resp)"
    by (simp add: gauge_Set_def NoMeta_def CorruptedMeta_def FailedMeta_def)
  moreover have "published s' = published ?s1"
    by (rule run_filters_source_published [OF src rf])
  moreover have "published ?s1 = published (Synced mt)"
    by (simp add: gauge_Set_def ResetTx_def)
  moreover from run_filters_source_subset [OF src rf] start
  have "set (heap w3 (top w)) \<subseteq> set (heap w (metas resp))" by simp
  ultimately show ?thesis by simp
qed

lemma map_of_subset_None:
  "set xs \<subseteq> set ys \<Longrightarrow> map_of ys k = None \<Longrightarrow> map_of xs k = None"
  by (auto simp: map_of_eq_None_iff)


subsection \<open>A meta.json of an unrecognized version\<close>

text \<open>
  C2, as the code has it. Take a block whose \<open>meta.json\<close> is read from the bucket
  (the block is neither in the in-memory cache nor in the local one), parses, and
  carries another version than the recognized one. \<open>loadMeta\<close> returns an error that
  is neither \<open>ErrorSyncMetaNotFound\<close> nor \<open>ErrorSyncMetaCorrupted\<close>. In a sync with
  workers to which the block was sent, that error is among the response's
  transport-level errors, and the block is in neither the partial map nor the metas;
  the cache is not replaced; a listing that did not complete makes \<open>fetchMetadata\<close>
  return the listing's error. When the listing completed, \<open>fetch\<close> returns an error
  whatever the filters are, and counts a failure. If no filter fails, it returns the
  metas and the partial map together with the aggregated errors wrapped as
  \<open>incomplete view\<close>, and the published \<open>failed\<close> gauge is the staged one, which
  after filters of this file counts the aggregated errors; the block is not in the map
  returned. If a filter fails, it returns that filter's error wrapped as
  \<open>filter metas\<close> and no maps, and the gauges are left unpublished. It blocks or
  panics when the filters do. With no filters it returns the former.
\<close>

theorem unknown_version_fails_sync:
  assumes wf: "cached f < top w" and conc: "0 < concurrency f"
    and sch: "scheduler (concurrency f) (dirs run) (list_err run) (cancelled_after run) = Some (sent, sched_err)"
    and mem: "blockID \<in> set sent"
    and uv: "unknown_version l f blockID"
    and rb: "reaches_bucket f w blockID"
    and sc: "scan l f w sent = (resp, w2)"
  shows "(\<exists>w1. loadMeta l f w blockID = (Inl (version_err l blockID), w1))
    \<and> \<not> partial_error (version_err l blockID)
    \<and> version_err l blockID \<in> set (metaErrs resp)
    \<and> map_of (partial resp) blockID = None
    \<and> map_of (heap w2 (metas resp)) blockID = None
    \<and> fetchMetadata l run f w =
        Returns (case sched_err of None \<Rightarrow> Inr resp | Some e \<Rightarrow> Inl (Wrap e ''BaseFetcher: iter bucket''),
                 f\<lparr>syncs := syncs f + 1\<rparr>, w2)
    \<and> heap w2 (cached f) = heap w (cached f)
    \<and> (\<forall>e. sched_err = Some e \<longrightarrow>
          (\<exists>mt'. fetch l env (Leads run) f w mt flts =
              Returns (\<lparr>ret_metas = None, ret_partial = None,
                         ret_err = Some (Wrap e ''BaseFetcher: iter bucket'')\<rparr>,
                       f\<lparr>syncs := syncs f + 1\<rparr>, w2, mt', flts)))
    \<and> (sched_err = None \<longrightarrow>
          (case filter_run env flts w2 resp mt of
             Blocks \<Rightarrow> fetch l env (Leads run) f w mt flts = Blocks
           | Panics \<Rightarrow> fetch l env (Leads run) f w mt flts = Panics
           | Returns (e, flts', w3, s', m') \<Rightarrow>
               (\<exists>mt'. fetch l env (Leads run) f w mt flts =
                   Returns (case e of
                              None \<Rightarrow>
                                \<lparr>ret_metas = Some (top w2), ret_partial = Some (partial resp),
                                 ret_err = Some (Wrap (MultiError (metaErrs resp)) ''incomplete view'')\<rparr>
                            | Some x \<Rightarrow>
                                \<lparr>ret_metas = None, ret_partial = None,
                                 ret_err = Some (Wrap x ''filter metas'')\<rparr>,
                            f\<lparr>syncs := syncs f + 1\<rparr>, w3, mt', flts')
                  \<and> SyncFailures mt' = SyncFailures mt + 1
                  \<and> (case e of
                        None \<Rightarrow> published (Synced mt') FailedMeta = tx s' FailedMeta
                      | Some x \<Rightarrow> Synced mt' = s' \<and> Modified mt' = m')
                  \<and> (list_all source_filter flts \<longrightarrow>
                        tx s' FailedMeta = length (metaErrs resp)
                        \<and> published s' = published (Synced mt)
                        \<and> map_of (heap w3 (top w2)) blockID = None))))
    \<and> (sched_err = None \<longrightarrow>
          (\<exists>w' mt'. fetch l env (Leads run) f w mt [] =
              Returns (\<lparr>ret_metas = Some (top w2), ret_partial = Some (partial resp),
                         ret_err = Some (Wrap (MultiError (metaErrs resp)) ''incomplete view'')\<rparr>,
                       f\<lparr>syncs := syncs f + 1\<rparr>, w', mt', [])
              \<and> published (Synced mt') FailedMeta = length (metaErrs resp)))"
proof -
  let ?f1 = "f\<lparr>syncs := syncs f + 1\<rparr>"
  have beh: "\<exists>w'. loadMeta l ?f1 w0 blockID = (Inl (version_err l blockID), w')
        \<and> reaches_bucket ?f1 w' blockID"
    if "reaches_bucket ?f1 w0 blockID" for w0
    using loadMeta_unknown_version [of l ?f1 blockID w0] uv that by simp
  have np: "\<not> partial_error (version_err l blockID)"
    by (simp add: partial_error_def version_err_def)
  from loadMeta_unknown_version [OF uv rb]
  have p1: "\<exists>w1. loadMeta l f w blockID = (Inl (version_err l blockID), w1)" by blast
  from sc have fd: "fold (worker_step l ?f1) sent
      (\<lparr>metas = top w, partial = [], metaErrs = [], noMetas = 0, corruptedMetas = 0\<rparr>,
       snd (make_map w)) = (resp, w2)"
    by (simp add: scan_def)
  note st = scan_start [OF wf rb]
  note sf = scan_frame [OF sc]
  from fold_block_failed [OF beh np fd] st mem sf
  have blk: "map_of (heap w2 (metas resp)) blockID = None" "map_of (partial resp) blockID = None"
    "version_err l blockID \<in> set (metaErrs resp)"
    by auto
  then have errs: "metaErrs resp \<noteq> []" by auto
  then have iv: "incomplete_view resp = Some (Wrap (MultiError (metaErrs resp)) ''incomplete view'')"
    by (simp add: incomplete_view_def)
  note swe = sync_with_errors [OF wf conc sch sc errs, of env mt "[]"]
  from sf have al: "allocated w2 (metas resp)" by (simp add: allocated_def)
  have filtered: "(case filter_run env flts w2 resp mt of
             Blocks \<Rightarrow> fetch l env (Leads run) f w mt flts = Blocks
           | Panics \<Rightarrow> fetch l env (Leads run) f w mt flts = Panics
           | Returns (e, flts', w3, s', m') \<Rightarrow>
               (\<exists>mt'. fetch l env (Leads run) f w mt flts =
                   Returns (case e of
                              None \<Rightarrow>
                                \<lparr>ret_metas = Some (top w2), ret_partial = Some (partial resp),
                                 ret_err = Some (Wrap (MultiError (metaErrs resp)) ''incomplete view'')\<rparr>
                            | Some x \<Rightarrow>
                                \<lparr>ret_metas = None, ret_partial = None,
                                 ret_err = Some (Wrap x ''filter metas'')\<rparr>,
                            f\<lparr>syncs := syncs f + 1\<rparr>, w3, mt', flts')
                  \<and> SyncFailures mt' = SyncFailures mt + 1
                  \<and> (case e of
                        None \<Rightarrow> published (Synced mt') FailedMeta = tx s' FailedMeta
                      | Some x \<Rightarrow> Synced mt' = s' \<and> Modified mt' = m')
                  \<and> (list_all source_filter flts \<longrightarrow>
                        tx s' FailedMeta = length (metaErrs resp)
                        \<and> published s' = published (Synced mt)
                        \<and> map_of (heap w3 (top w2)) blockID = None)))"
    if None: "sched_err = None"
  proof -
    from swe None have g: "g_Do l (Leads run) f w = Returns (Inr resp, f\<lparr>syncs := syncs f + 1\<rparr>, w2)"
      by (simp add: g_Do_def)
    note eq = fetch_after_sync [OF g, of env mt flts]
    show ?thesis
    proof (cases "filter_run env flts w2 resp mt")
      case Blocks
      with eq show ?thesis by simp
    next
      case Panics
      with eq show ?thesis by simp
    next
      case (Returns r)
      obtain e flts' w3 s' m' where r: "r = (e, flts', w3, s', m')" by (cases r)
      have src: "tx s' FailedMeta = length (metaErrs resp)
                        \<and> published s' = published (Synced mt)
                        \<and> map_of (heap w3 (top w2)) blockID = None"
        if "list_all source_filter flts"
        using filter_run_source [OF that al Returns [unfolded r]] blk(1)
          map_of_subset_None [of "heap w3 (top w2)" "heap w2 (metas resp)" blockID]
        by simp
      show ?thesis
      proof (cases e)
        case None
        with eq Returns r iv errs src show ?thesis
          by (simp add: Submit_def gauge_Set_def LoadedMeta_def FailedMeta_def)
      next
        case (Some x)
        with eq Returns r src show ?thesis by simp
      qed
    qed
  qed
  have listing: "\<exists>mt'. fetch l env (Leads run) f w mt flts =
              Returns (\<lparr>ret_metas = None, ret_partial = None,
                         ret_err = Some (Wrap e ''BaseFetcher: iter bucket'')\<rparr>,
                       f\<lparr>syncs := syncs f + 1\<rparr>, w2, mt', flts)"
    if Some: "sched_err = Some e" for e
  proof -
    from swe Some have "g_Do l (Leads run) f w =
        Returns (Inl (Wrap e ''BaseFetcher: iter bucket''), f\<lparr>syncs := syncs f + 1\<rparr>, w2)"
      by (simp add: g_Do_def)
    from fetch_failed [OF this] show ?thesis .
  qed
  have gauge: "\<exists>w' mt'. fetch l env (Leads run) f w mt [] =
              Returns (\<lparr>ret_metas = Some (top w2), ret_partial = Some (partial resp),
                         ret_err = Some (Wrap (MultiError (metaErrs resp)) ''incomplete view'')\<rparr>,
                       f\<lparr>syncs := syncs f + 1\<rparr>, w', mt', [])
              \<and> published (Synced mt') FailedMeta = length (metaErrs resp)"
    if None: "sched_err = None"
  proof -
    from swe None obtain w' mt' where
      r: "fetch l env (Leads run) f w mt [] =
              Returns (\<lparr>ret_metas = Some (top w2), ret_partial = Some (partial resp),
                         ret_err = Some (Wrap (MultiError (metaErrs resp)) ''incomplete view'')\<rparr>,
                       f\<lparr>syncs := syncs f + 1\<rparr>, w', mt', [])"
      by blast
    from swe None have g: "g_Do l (Leads run) f w = Returns (Inr resp, f\<lparr>syncs := syncs f + 1\<rparr>, w2)"
      by (simp add: g_Do_def)
    from fetch_gauges [OF g r] r show ?thesis by auto
  qed
  from p1 np blk swe listing filtered gauge show ?thesis by blast
qed

theorem unknown_version_fails_sync_witness:
  "unknown_version demo_lib2 demo_pair_fetcher 1
   \<and> reaches_bucket demo_pair_fetcher demo_world 1
   \<and> loadMeta demo_lib2 demo_pair_fetcher demo_world 1 = (Inl (version_err demo_lib2 1), demo_world)
   \<and> metaErrs (fst (scan demo_lib2 demo_pair_fetcher demo_world [1, 2])) = [version_err demo_lib2 1]
   \<and> partial (fst (scan demo_lib2 demo_pair_fetcher demo_world [1, 2])) = []
   \<and> (case fetch demo_lib2 demo_mark_env (Leads demo_pair_run) demo_pair_fetcher demo_world
             demo_metrics [IgnoreDeletionMark demo_mark_filter] of
         Returns (res, f', w', mt', flts') \<Rightarrow>
           res = \<lparr>ret_metas = None, ret_partial = None,
                   ret_err = Some (Wrap (Wrap (External ''timeout'')
                     ''filter blocks marked for deletion'') ''filter metas'')\<rparr>
           \<and> SyncFailures mt' = 1
           \<and> published (Synced mt') FailedMeta = 0
       | Blocks \<Rightarrow> False
       | Panics \<Rightarrow> False)"
proof -
  have wf: "cached demo_pair_fetcher < top demo_world"
    and conc: "0 < concurrency demo_pair_fetcher"
    and sch: "scheduler (concurrency demo_pair_fetcher) (dirs demo_pair_run) (list_err demo_pair_run)
        (cancelled_after demo_pair_run) = Some ([1, 2], None)"
    and mem: "1 \<in> set [1, 2 :: ulid]"
    and uv: "unknown_version demo_lib2 demo_pair_fetcher 1"
    and rb: "reaches_bucket demo_pair_fetcher demo_world 1"
    by (simp_all add: fetch_demo_defs demo_pair_fetcher_def demo_pair_run_def block_defs
        path_Join_def MetaFilename_def scheduler_def)
  obtain resp w2 where sc: "scan demo_lib2 demo_pair_fetcher demo_world [1, 2] = (resp, w2)"
    by (cases "scan demo_lib2 demo_pair_fetcher demo_world [1, 2]")
  have ev: "metaErrs (fst (scan demo_lib2 demo_pair_fetcher demo_world [1, 2])) = [version_err demo_lib2 1]
   \<and> partial (fst (scan demo_lib2 demo_pair_fetcher demo_world [1, 2])) = []"
    by (simp add: fetch_demo_defs demo_pair_fetcher_def fetch_defs block_defs)
  have "\<exists>flts' w3 s' m'.
      filter_run demo_mark_env [IgnoreDeletionMark demo_mark_filter]
        (snd (scan demo_lib2 demo_pair_fetcher demo_world [1, 2]))
        (fst (scan demo_lib2 demo_pair_fetcher demo_world [1, 2])) demo_metrics
      = Returns (Some (Wrap (External ''timeout'') ''filter blocks marked for deletion''),
                 flts', w3, s', m')"
    by (simp add: fetch_demo_defs demo_pair_fetcher_def fetch_defs filter_run_def
        IgnoreDeletionMark_Filter_def workers_errs_def probe_step_def probe_err_def
        demo_mark_env_def demo_mark_filter_def)
  with sc obtain flts' w3 s' m' where
    fr: "filter_run demo_mark_env [IgnoreDeletionMark demo_mark_filter] w2 resp demo_metrics
      = Returns (Some (Wrap (External ''timeout'') ''filter blocks marked for deletion''),
                 flts', w3, s', m')"
    by auto
  note inst = unknown_version_fails_sync [OF wf conc sch mem uv rb sc,
      where env = demo_mark_env and flts = "[IgnoreDeletionMark demo_mark_filter]"
        and mt = demo_metrics]
  from inst obtain w1 where
    lm: "loadMeta demo_lib2 demo_pair_fetcher demo_world 1 = (Inl (version_err demo_lib2 1), w1)"
    by blast
  have w1: "w1 = demo_world"
    using lm by (simp add: fetch_demo_defs demo_pair_fetcher_def fetch_defs)
  from inst fr obtain mt' where
    r: "fetch demo_lib2 demo_mark_env (Leads demo_pair_run) demo_pair_fetcher demo_world
          demo_metrics [IgnoreDeletionMark demo_mark_filter]
        = Returns (\<lparr>ret_metas = None, ret_partial = None,
                     ret_err = Some (Wrap (Wrap (External ''timeout'')
                       ''filter blocks marked for deletion'') ''filter metas'')\<rparr>,
                   demo_pair_fetcher\<lparr>syncs := syncs demo_pair_fetcher + 1\<rparr>, w3, mt', flts')"
    and sf: "SyncFailures mt' = SyncFailures demo_metrics + 1"
    and sy: "Synced mt' = s'"
    and pb: "published s' = published (Synced demo_metrics)"
    by auto
  have "published (Synced mt') FailedMeta = 0" "SyncFailures mt' = 1"
    using sf sy pb by (simp_all add: demo_metrics_def)
  with r lm w1 uv rb ev show ?thesis by simp
qed

text \<open>
  The claim as written puts such a block into the partial map and lets the sync
  succeed. Here the bucket's one block has version 2: the partial map that \<open>fetch\<close>
  returns is empty, and \<open>fetch\<close> returns an error.
\<close>

theorem unknown_version_not_partial_counterexample:
  "(case fetch demo_lib2 demo_env (Leads demo_run) demo_v2_fetcher demo_world demo_metrics [] of
      Returns (res, f', w', mt', flts') \<Rightarrow>
        ret_partial res = Some []
        \<and> ret_err res = Some (Wrap (MultiError
             [Errorf ''unexpected meta file: 00000000000000000000000001/meta.json version''])
             ''incomplete view'')
        \<and> published (Synced mt') FailedMeta = 1
    | Blocks \<Rightarrow> False
    | Panics \<Rightarrow> False)"
  by (simp add: fetch_demo_defs fetch_defs NoMeta_def CorruptedMeta_def
      FailedMeta_def LoadedMeta_def)


subsection \<open>The deletion-mark filter when a probe fails\<close>

lemma worker_lastErr_Some:
  "worker_lastErr env ids acc = Some e \<Longrightarrow>
   acc = Some e \<or> (\<exists>i \<in> set ids. probe_err env i = Some e)"
  by (induction ids arbitrary: acc) (auto split: option.splits)

lemma worker_lastErr_keeps:
  "acc \<noteq> None \<Longrightarrow> worker_lastErr env ids acc \<noteq> None"
  by (induction ids arbitrary: acc) (auto split: option.splits)

lemma worker_lastErr_fails:
  "\<exists>i \<in> set ids. probe_err env i \<noteq> None \<Longrightarrow> worker_lastErr env ids acc \<noteq> None"
proof (induction ids arbitrary: acc)
  case Nil
  then show ?case by simp
next
  case (Cons j ids)
  show ?case
  proof (cases "probe_err env j")
    case None
    with Cons show ?thesis by auto
  next
    case (Some e)
    then show ?thesis using worker_lastErr_keeps [of "Some e" env ids] by simp
  qed
qed

lemma eg_Wait_Some: "eg_Wait es = Some e \<Longrightarrow> Some e \<in> set es"
  by (induction es rule: eg_Wait.induct) auto

lemma eg_Wait_fails: "x \<in> set es \<Longrightarrow> x \<noteq> None \<Longrightarrow> eg_Wait es \<noteq> None"
  by (induction es rule: eg_Wait.induct) auto

lemma workers_errs_fails:
  assumes n: "0 < n" and mem: "i \<in> set sent" and pe: "probe_err env i \<noteq> None"
  shows "\<exists>x \<in> set (workers_errs env n sent). x \<noteq> None"
proof -
  let ?k = "owner env i mod n"
  have k: "?k < n" using n by simp
  have "i \<in> set (filter (\<lambda>blockID. owner env blockID mod n = ?k) sent)" using mem by simp
  with pe have "worker_lastErr env (filter (\<lambda>blockID. owner env blockID mod n = ?k) sent) None \<noteq> None"
    by (intro worker_lastErr_fails) blast
  moreover have "worker_lastErr env (filter (\<lambda>blockID. owner env blockID mod n = ?k) sent) None
      \<in> set (workers_errs env n sent)"
    using k by (auto simp: workers_errs_def)
  ultimately show ?thesis by blast
qed

lemma workers_errs_Some:
  assumes "Some e \<in> set (workers_errs env n sent)"
  shows "\<exists>i \<in> set sent. probe_err env i = Some e"
proof -
  from assms obtain k where
    "worker_lastErr env (filter (\<lambda>blockID. owner env blockID mod n = k) sent) None = Some e"
    by (auto simp: workers_errs_def)
  from worker_lastErr_Some [OF this] show ?thesis by auto
qed


lemma eg_Wait_none: "\<forall>x \<in> set es. x = None \<Longrightarrow> eg_Wait es = None"
  by (induction es rule: eg_Wait.induct) auto

lemma workers_errs_none:
  assumes "\<forall>i \<in> set sent. probe_err env i = None"
  shows "\<forall>x \<in> set (workers_errs env n sent). x = None"
proof
  fix x assume "x \<in> set (workers_errs env n sent)"
  then obtain k where x: "x = worker_lastErr env (filter (\<lambda>blockID. owner env blockID mod n = k) sent) None"
    by (auto simp: workers_errs_def)
  show "x = None"
  proof (cases x)
    case None
    then show ?thesis .
  next
    case (Some e)
    from worker_lastErr_Some [OF Some [unfolded x]] assms show ?thesis by auto
  qed
qed

lemma worker_lastErr_last:
  "worker_lastErr env ids acc =
     (if failing env ids = [] then acc else probe_err env (last (failing env ids)))"
proof (induction ids arbitrary: acc)
  case Nil
  then show ?case by (simp add: failing_def)
next
  case (Cons j ids)
  show ?case
  proof (cases "probe_err env j")
    case None
    with Cons.IH [of acc] show ?thesis by (simp add: failing_def)
  next
    case (Some e)
    with Cons.IH [of "Some e"] show ?thesis by (simp add: failing_def)
  qed
qed

lemma eg_Wait_first:
  "eg_Wait es = Some e \<Longrightarrow> \<exists>k < length es. es ! k = Some e \<and> (\<forall>j < k. es ! j = None)"
proof (induction es rule: eg_Wait.induct)
  case 1
  then show ?case by simp
next
  case (2 x rest)
  then show ?case by auto
next
  case (3 rest)
  then obtain k where k: "k < length rest" "rest ! k = Some e" "\<forall>j < k. rest ! j = None"
    by auto
  show ?case
  proof (intro exI [of _ "Suc k"] conjI allI impI)
    fix j assume "j < Suc k"
    with k(3) show "(None # rest) ! j = None" by (cases j) auto
  qed (use k in auto)
qed

lemma workers_errs_nth:
  "k < n \<Longrightarrow> workers_errs env n sent ! k = worker_lastErr env (taken_by env n sent k) None"
  by (simp add: workers_errs_def taken_by_def)

lemma workers_errs_first:
  assumes "eg_Wait (workers_errs env n sent) = Some e"
  shows "\<exists>k < n. failing env (taken_by env n sent k) \<noteq> []
      \<and> probe_err env (last (failing env (taken_by env n sent k))) = Some e
      \<and> (\<forall>j < k. failing env (taken_by env n sent j) = [])"
proof -
  from eg_Wait_first [OF assms] obtain k where
    k: "k < n" "workers_errs env n sent ! k = Some e"
      "\<forall>j < k. workers_errs env n sent ! j = None"
    by (auto simp: workers_errs_def)
  from k(1,2) have a: "failing env (taken_by env n sent k) \<noteq> []
      \<and> probe_err env (last (failing env (taken_by env n sent k))) = Some e"
    by (auto simp: workers_errs_nth worker_lastErr_last split: if_splits)
  have b: "failing env (taken_by env n sent j) = []" if "j < k" for j
  proof (rule ccontr)
    assume ne: "failing env (taken_by env n sent j) \<noteq> []"
    then have "last (failing env (taken_by env n sent j)) \<in> set (failing env (taken_by env n sent j))"
      by simp
    then have "probe_err env (last (failing env (taken_by env n sent j))) \<noteq> None"
      by (simp add: failing_def)
    moreover from that k have "worker_lastErr env (taken_by env n sent j) None = None"
      by (simp add: workers_errs_nth)
    ultimately show False using ne by (simp add: worker_lastErr_last)
  qed
  from k(1) a b show ?thesis by blast
qed

lemma eg_Wait_order:
  "eg_Wait (sched_err # errs) = (case sched_err of Some e \<Rightarrow> Some e | None \<Rightarrow> eg_Wait errs)"
  "eg_Wait (errs @ [sched_err]) = (case eg_Wait errs of Some e \<Rightarrow> Some e | None \<Rightarrow> sched_err)"
proof -
  show "eg_Wait (sched_err # errs) = (case sched_err of Some e \<Rightarrow> Some e | None \<Rightarrow> eg_Wait errs)"
    by (cases sched_err) simp_all
  show "eg_Wait (errs @ [sched_err]) = (case eg_Wait errs of Some e \<Rightarrow> Some e | None \<Rightarrow> sched_err)"
    by (induction errs rule: eg_Wait.induct) (cases sched_err; simp)+
qed

lemma scheduler_listing_ok:
  "scheduler conc ids None cancelled = Some (sent, sched_err) \<Longrightarrow>
   sched_err = None \<or> sched_err = Some ctx_Err"
  by (auto simp: scheduler_def split: if_splits option.splits)

text \<open>
  C7, as the code has it. Take a run of \<open>IgnoreDeletionMarkFilter.Filter\<close> with
  workers. If the probe of some block that was handed to a worker fails with an error
  other than not-found or unmarshal, the filter returns an error, wrapped: the
  context's error when the feeding goroutine is the first to return an error, and
  otherwise the last such error seen by the first worker that returns one. The filter
  itself is returned as it was: the published deletion-mark map (what
  \<open>DeletionMarkBlocks\<close> reads) is not updated, and the marks found by the run are
  dropped with the run's local map. The metas whose marks were found past the delay
  have been removed from the map handed in all the same. A run in which no probe fails
  so but the feeding goroutine returns the context's error returns that error, and
  leaves the published map alone as well. The published map is replaced by the run's
  local map exactly when no probe fails so and the feeding goroutine returns no error.
\<close>

theorem failed_probe_keeps_published_marks:
  assumes conc: "0 < mark_concurrency f"
    and sch: "scheduler (mark_concurrency f) (map fst ms) None (marks_cancelled_after env) = Some (sent, sched_err)"
    and fd: "fold (probe_step env f) sent ([], ms, synced) = (dm, ms', synced')"
  shows "((\<exists>i \<in> set sent. probe_err env i \<noteq> None) \<longrightarrow>
      (\<exists>e. IgnoreDeletionMark_Filter env f ms synced =
          Returns (Some (Wrap e ''filter blocks marked for deletion''), f, ms', synced')
        \<and> (if scheduler_first env \<and> sched_err \<noteq> None then e = ctx_Err
            else \<exists>k < nat (mark_concurrency f).
                   failing env (taken_by env (nat (mark_concurrency f)) sent k) \<noteq> []
                   \<and> probe_err env (last (failing env (taken_by env (nat (mark_concurrency f)) sent k)))
                       = Some e
                   \<and> (\<forall>j < k. failing env (taken_by env (nat (mark_concurrency f)) sent j) = []))))
    \<and> ((\<forall>i \<in> set sent. probe_err env i = None) \<and> sched_err \<noteq> None \<longrightarrow>
          sched_err = Some ctx_Err
          \<and> IgnoreDeletionMark_Filter env f ms synced =
              Returns (Some (Wrap ctx_Err ''filter blocks marked for deletion''), f, ms', synced'))
    \<and> ((\<forall>i \<in> set sent. probe_err env i = None) \<and> sched_err = None \<longrightarrow>
          IgnoreDeletionMark_Filter env f ms synced =
              Returns (None, f\<lparr>deletionMarkMap := dm\<rparr>, ms', synced'))
    \<and> (\<forall>e f' ms1 s1. IgnoreDeletionMark_Filter env f ms synced = Returns (e, f', ms1, s1) \<longrightarrow>
          (e = None \<longleftrightarrow> (\<forall>i \<in> set sent. probe_err env i = None) \<and> sched_err = None)
          \<and> (e \<noteq> None \<longrightarrow> f' = f \<and> DeletionMarkBlocks f' = DeletionMarkBlocks f)
          \<and> (e = None \<longrightarrow> f' = f\<lparr>deletionMarkMap := dm\<rparr>))"
proof -
  let ?n = "nat (mark_concurrency f)"
  let ?errs = "workers_errs env ?n sent"
  let ?all = "if scheduler_first env then sched_err # ?errs else ?errs @ [sched_err]"
  from conc have n: "0 < ?n" by simp
  have run: "IgnoreDeletionMark_Filter env f ms synced =
      (case eg_Wait ?all of
         Some e \<Rightarrow> Returns (Some (Wrap e ''filter blocks marked for deletion''), f, ms', synced')
       | None \<Rightarrow> Returns (None, f\<lparr>deletionMarkMap := dm\<rparr>, ms', synced'))"
    using conc sch fd by (simp add: IgnoreDeletionMark_Filter_def Let_def)
  have wait: "eg_Wait ?all =
      (if scheduler_first env
       then (case sched_err of Some e \<Rightarrow> Some e | None \<Rightarrow> eg_Wait ?errs)
       else (case eg_Wait ?errs of Some e \<Rightarrow> Some e | None \<Rightarrow> sched_err))"
    by (simp add: eg_Wait_order)
  have workers_fail: "eg_Wait ?errs \<noteq> None" if "\<exists>i \<in> set sent. probe_err env i \<noteq> None"
  proof -
    from that obtain i where "i \<in> set sent" "probe_err env i \<noteq> None" by blast
    from workers_errs_fails [OF n this] obtain x where "x \<in> set ?errs" "x \<noteq> None" by blast
    then show ?thesis by (rule eg_Wait_fails)
  qed
  have workers_ok: "eg_Wait ?errs = None" if "\<forall>i \<in> set sent. probe_err env i = None"
    using workers_errs_none [OF that] by (rule eg_Wait_none)
  have failing_case: "\<exists>e. IgnoreDeletionMark_Filter env f ms synced =
          Returns (Some (Wrap e ''filter blocks marked for deletion''), f, ms', synced')
        \<and> (if scheduler_first env \<and> sched_err \<noteq> None then e = ctx_Err
            else \<exists>k < ?n. failing env (taken_by env ?n sent k) \<noteq> []
                   \<and> probe_err env (last (failing env (taken_by env ?n sent k))) = Some e
                   \<and> (\<forall>j < k. failing env (taken_by env ?n sent j) = []))"
    if fail: "\<exists>i \<in> set sent. probe_err env i \<noteq> None"
  proof (cases "scheduler_first env \<and> sched_err \<noteq> None")
    case True
    with scheduler_listing_ok [OF sch] have "sched_err = Some ctx_Err" by auto
    with True run wait show ?thesis by simp
  next
    case False
    from workers_fail [OF fail] obtain e where e: "eg_Wait ?errs = Some e" by auto
    with False wait have "eg_Wait ?all = Some e" by (auto split: option.splits)
    with run have "IgnoreDeletionMark_Filter env f ms synced =
          Returns (Some (Wrap e ''filter blocks marked for deletion''), f, ms', synced')"
      by simp
    with workers_errs_first [OF e] False show ?thesis by auto
  qed
  have cancel_case: "sched_err = Some ctx_Err
          \<and> IgnoreDeletionMark_Filter env f ms synced =
              Returns (Some (Wrap ctx_Err ''filter blocks marked for deletion''), f, ms', synced')"
    if ok: "\<forall>i \<in> set sent. probe_err env i = None" and se: "sched_err \<noteq> None"
  proof -
    from scheduler_listing_ok [OF sch] se have c: "sched_err = Some ctx_Err" by simp
    with wait workers_ok [OF ok] have "eg_Wait ?all = Some ctx_Err" by simp
    with run c show ?thesis by simp
  qed
  have passing_case: "IgnoreDeletionMark_Filter env f ms synced =
          Returns (None, f\<lparr>deletionMarkMap := dm\<rparr>, ms', synced')"
    if ok: "\<forall>i \<in> set sent. probe_err env i = None" and se: "sched_err = None"
  proof -
    from wait workers_ok [OF ok] se have "eg_Wait ?all = None" by simp
    with run show ?thesis by simp
  qed
  have only: "(e = None \<longleftrightarrow> (\<forall>i \<in> set sent. probe_err env i = None) \<and> sched_err = None)
          \<and> (e \<noteq> None \<longrightarrow> f' = f \<and> DeletionMarkBlocks f' = DeletionMarkBlocks f)
          \<and> (e = None \<longrightarrow> f' = f\<lparr>deletionMarkMap := dm\<rparr>)"
    if r: "IgnoreDeletionMark_Filter env f ms synced = Returns (e, f', ms1, s1)" for e f' ms1 s1
  proof (cases "\<forall>i \<in> set sent. probe_err env i = None")
    case True
    show ?thesis
    proof (cases "sched_err = None")
      case se: True
      from passing_case [OF True se] r True se show ?thesis by simp
    next
      case se: False
      from cancel_case [OF True se] r True se show ?thesis by auto
    qed
  next
    case False
    then have "\<exists>i \<in> set sent. probe_err env i \<noteq> None" by simp
    from failing_case [OF this] r False show ?thesis by auto
  qed
  from failing_case cancel_case passing_case only show ?thesis by blast
qed

theorem failed_probe_keeps_published_marks_witness:
  "probe_err demo_mark_env 2 = Some (External ''timeout'')
   \<and> IgnoreDeletionMark_Filter demo_mark_env demo_mark_filter [(1, demo_meta), (2, demo_meta)] demo_gauge
       = Returns (Some (Wrap (External ''timeout'') ''filter blocks marked for deletion''),
                  demo_mark_filter, [(2, demo_meta)], gauge_Inc demo_gauge MarkedForDeletionMeta)
   \<and> probe_err demo_two_failures_env 1 = Some (External ''connection reset'')
   \<and> IgnoreDeletionMark_Filter demo_two_failures_env demo_mark_filter
         [(1, demo_meta), (2, demo_meta)] demo_gauge
       = Returns (Some (Wrap (External ''timeout'') ''filter blocks marked for deletion''),
                  demo_mark_filter, [(1, demo_meta), (2, demo_meta)], demo_gauge)
   \<and> probe_err demo_cancelled_env 1 = None
   \<and> IgnoreDeletionMark_Filter demo_cancelled_env demo_mark_filter
         [(1, demo_meta), (2, demo_meta)] demo_gauge
       = Returns (Some (Wrap ctx_Err ''filter blocks marked for deletion''),
                  demo_mark_filter, [(1, demo_meta), (2, demo_meta)], demo_gauge)"
proof -
  have conc: "0 < mark_concurrency demo_mark_filter"
    by (simp add: demo_mark_filter_def)
  have n: "nat (mark_concurrency demo_mark_filter) = 1"
    by (simp add: demo_mark_filter_def)
  have sch1: "scheduler (mark_concurrency demo_mark_filter) (map fst [(1, demo_meta), (2, demo_meta)])
        None (marks_cancelled_after demo_mark_env) = Some ([1, 2], None)"
    and sch2: "scheduler (mark_concurrency demo_mark_filter) (map fst [(1, demo_meta), (2, demo_meta)])
        None (marks_cancelled_after demo_two_failures_env) = Some ([1, 2], None)"
    and sch3: "scheduler (mark_concurrency demo_mark_filter) (map fst [(1, demo_meta), (2, demo_meta)])
        None (marks_cancelled_after demo_cancelled_env) = Some ([1], Some ctx_Err)"
    by (simp_all add: demo_mark_env_def demo_two_failures_env_def demo_cancelled_env_def
        demo_mark_filter_def demo_env_def scheduler_def)
  have fd1: "fold (probe_step demo_mark_env demo_mark_filter) [1, 2]
        ([], [(1, demo_meta), (2, demo_meta)], demo_gauge)
      = ([(1, \<lparr>mark_ID = 1, DeletionTime = 0\<rparr>)], [(2, demo_meta)],
         gauge_Inc demo_gauge MarkedForDeletionMeta)"
    and fd2: "fold (probe_step demo_two_failures_env demo_mark_filter) [1, 2]
        ([], [(1, demo_meta), (2, demo_meta)], demo_gauge)
      = ([], [(1, demo_meta), (2, demo_meta)], demo_gauge)"
    and fd3: "fold (probe_step demo_cancelled_env demo_mark_filter) [1]
        ([], [(1, demo_meta), (2, demo_meta)], demo_gauge)
      = ([], [(1, demo_meta), (2, demo_meta)], demo_gauge)"
    by (simp_all add: probe_step_def demo_mark_env_def demo_two_failures_env_def
        demo_cancelled_env_def demo_env_def)
  have pe1: "probe_err demo_mark_env 1 = None" "probe_err demo_mark_env 2 = Some (External ''timeout'')"
    and pe2: "probe_err demo_two_failures_env 1 = Some (External ''connection reset'')"
      "probe_err demo_two_failures_env 2 = Some (External ''timeout'')"
    and pe3: "probe_err demo_cancelled_env 1 = None"
    by (simp_all add: probe_err_def demo_mark_env_def demo_two_failures_env_def
        demo_cancelled_env_def demo_env_def)
  have sf: "\<not> scheduler_first demo_mark_env" "\<not> scheduler_first demo_two_failures_env"
    by (simp_all add: demo_mark_env_def demo_two_failures_env_def demo_env_def)
  have a: "IgnoreDeletionMark_Filter demo_mark_env demo_mark_filter
        [(1, demo_meta), (2, demo_meta)] demo_gauge
       = Returns (Some (Wrap (External ''timeout'') ''filter blocks marked for deletion''),
                  demo_mark_filter, [(2, demo_meta)], gauge_Inc demo_gauge MarkedForDeletionMeta)"
    using failed_probe_keeps_published_marks [OF conc sch1 fd1] pe1 sf
    by (simp add: n taken_by_def failing_def)
  have b: "IgnoreDeletionMark_Filter demo_two_failures_env demo_mark_filter
         [(1, demo_meta), (2, demo_meta)] demo_gauge
       = Returns (Some (Wrap (External ''timeout'') ''filter blocks marked for deletion''),
                  demo_mark_filter, [(1, demo_meta), (2, demo_meta)], demo_gauge)"
    using failed_probe_keeps_published_marks [OF conc sch2 fd2] pe2 sf
    by (simp add: n taken_by_def failing_def)
  have c: "IgnoreDeletionMark_Filter demo_cancelled_env demo_mark_filter
         [(1, demo_meta), (2, demo_meta)] demo_gauge
       = Returns (Some (Wrap ctx_Err ''filter blocks marked for deletion''),
                  demo_mark_filter, [(1, demo_meta), (2, demo_meta)], demo_gauge)"
    using failed_probe_keeps_published_marks [OF conc sch3 fd3] pe3
    by simp
  from a b c pe1 pe2 pe3 show ?thesis by simp
qed

text \<open>
  The claim as written has the published map updated with the marks of the blocks that
  were probed successfully. Here the first block's mark is read and the second block's
  probe times out: the filter returns the error, and \<open>DeletionMarkBlocks\<close> is as empty
  as before the run.
\<close>

theorem failed_probe_marks_not_published_counterexample:
  "ReadMarker demo_mark_env 1 = Inr \<lparr>mark_ID = 1, DeletionTime = 0\<rparr>
   \<and> (case IgnoreDeletionMark_Filter demo_mark_env demo_mark_filter
             [(1, demo_meta), (2, demo_meta)] demo_gauge of
         Returns (e, f', ms', synced') \<Rightarrow>
           e = Some (Wrap (External ''timeout'') ''filter blocks marked for deletion'')
           \<and> DeletionMarkBlocks f' = []
       | Blocks \<Rightarrow> False
       | Panics \<Rightarrow> False)"
  by (simp add: IgnoreDeletionMark_Filter_def Let_def scheduler_def workers_errs_def probe_step_def
      probe_err_def demo_mark_env_def demo_mark_filter_def demo_env_def DeletionMarkBlocks_def
      copy_into_def)

subsection \<open>The readiness gate\<close>

lemma probe_level1_exempt:
  "\<forall>m \<in> set ms. Level m \<noteq> 1 \<Longrightarrow> probe_level1 l env wp ms = (True, None, None)"
  by (induction ms) auto

lemma probe_level1_recent:
  "too_recent l env wp m \<Longrightarrow> probe_level1 l env wp (m # rest) = (False, Some m, None)"
  by (auto simp: too_recent_def split: sum.splits)

lemma probe_level1_skip:
  "\<not> too_recent l env wp m \<Longrightarrow> \<not> probe_fails l env m \<Longrightarrow>
   probe_level1 l env wp (m # rest) = probe_level1 l env wp rest"
  by (auto simp: too_recent_def probe_fails_def split: sum.splits)

lemma probe_level1_first:
  assumes "\<forall>p \<in> set pre. \<not> too_recent l env wp p \<and> \<not> probe_fails l env p"
    and "too_recent l env wp m"
  shows "probe_level1 l env wp (pre @ m # post) = (False, Some m, None)"
  using assms
proof (induction pre)
  case Nil
  then show ?case by (simp add: probe_level1_recent del: probe_level1.simps)
next
  case (Cons p pre)
  then show ?case by (simp add: probe_level1_skip del: probe_level1.simps)
qed

lemma probe_level1_some:
  assumes "\<forall>p \<in> set ms. \<not> probe_fails l env p"
    and "\<exists>m \<in> set ms. too_recent l env wp m"
  shows "\<exists>m \<in> set ms. too_recent l env wp m \<and> probe_level1 l env wp ms = (False, Some m, None)"
  using assms
proof (induction ms)
  case Nil
  then show ?case by simp
next
  case (Cons p ms)
  show ?case
  proof (cases "too_recent l env wp p")
    case True
    then show ?thesis using probe_level1_recent [OF True] by auto
  next
    case False
    with Cons.prems have "\<exists>m \<in> set ms. too_recent l env wp m" and "\<not> probe_fails l env p"
      and "\<forall>p \<in> set ms. \<not> probe_fails l env p" by auto
    with Cons.IH False show ?thesis
      by (auto simp: probe_level1_skip simp del: probe_level1.simps)
  qed
qed

lemma probe_level1_cong:
  assumes "\<forall>m \<in> set ms. Level m = 1 \<longrightarrow>
      Attributes env' (path_Join (ulid_String l (ULID m)) MetaFilename)
        = Attributes env (path_Join (ulid_String l (ULID m)) MetaFilename)"
    and "time_Now env' = time_Now env"
  shows "probe_level1 l env' wp ms = probe_level1 l env wp ms"
  using assms by (induction ms) (auto split: sum.splits)


lemmas test_defs = jobWaitPeriodElapsed_def test_job_def test_meta_def test_bucket_def minute_def
  path_Join_def MetaFilename_def demo_lib2_def demo_lib_def too_recent_def probe_fails_def

lemma TestJobWaitPeriodElapsed:
  "jobWaitPeriodElapsed demo_lib2
     (test_bucket [(''00000000000000000000000001/meta.json'', Inr (80 * minute)),
                   (''00000000000000000000000002/meta.json'', Inr (95 * minute))])
     (test_job [test_meta 1 1, test_meta 2 1]) 0 = (True, None, None)"
  "jobWaitPeriodElapsed demo_lib2
     (test_bucket [(''00000000000000000000000001/meta.json'', Inr (80 * minute)),
                   (''00000000000000000000000002/meta.json'', Inr (75 * minute))])
     (test_job [test_meta 1 1, test_meta 2 1]) (10 * minute) = (True, None, None)"
  "jobWaitPeriodElapsed demo_lib2
     (test_bucket [(''00000000000000000000000001/meta.json'', Inr (80 * minute)),
                   (''00000000000000000000000002/meta.json'', Inr (95 * minute))])
     (test_job [test_meta 1 1, test_meta 2 1]) (10 * minute) = (False, Some (test_meta 2 1), None)"
  "jobWaitPeriodElapsed demo_lib2
     (test_bucket [(''00000000000000000000000003/meta.json'', Inr (96 * minute)),
                   (''00000000000000000000000004/meta.json'', Inr (95 * minute))])
     (test_job [test_meta 3 2, test_meta 4 2]) (10 * minute) = (True, None, None)"
  "jobWaitPeriodElapsed demo_lib2
     (test_bucket [(''00000000000000000000000001/meta.json'', Inr (80 * minute)),
                   (''00000000000000000000000002/meta.json'', Inl (External ''mocked error''))])
     (test_job [test_meta 1 1, test_meta 2 1]) (10 * minute)
     = (False, Some (test_meta 2 1), Some (External ''mocked error''))"
  by (simp_all add: test_defs)

text \<open>
  C5, against the gate as the spec describes it. With a wait period of 0 the result is
  \<open>(true, nil, nil)\<close>. A job without level-1 metas gives \<open>(true, nil, nil)\<close>,
  and the attributes of metas of another level play no part in the result: they are
  not probed. With a wait period other than 0, a level-1 meta that is too recent is
  returned as \<open>(false, thatMeta, nil)\<close> when no level-1 meta before it in the job is
  too recent or fails its probe; and when no probe fails and some level-1 meta is too
  recent, the result is \<open>(false, m, nil)\<close> for such a meta \<open>m\<close>.
\<close>

theorem jobWaitPeriodElapsed_gate:
  "(waitPeriod = 0 \<longrightarrow> jobWaitPeriodElapsed l env job waitPeriod = (True, None, None))
   \<and> ((\<forall>m \<in> set (metasByMinTime job). Level m \<noteq> 1) \<longrightarrow>
        jobWaitPeriodElapsed l env job waitPeriod = (True, None, None))
   \<and> (waitPeriod \<noteq> 0 \<and> metasByMinTime job = pre @ m # post
        \<and> (\<forall>p \<in> set pre. \<not> too_recent l env waitPeriod p \<and> \<not> probe_fails l env p)
        \<and> too_recent l env waitPeriod m \<longrightarrow>
        jobWaitPeriodElapsed l env job waitPeriod = (False, Some m, None))
   \<and> (waitPeriod \<noteq> 0 \<and> (\<forall>p \<in> set (metasByMinTime job). \<not> probe_fails l env p)
        \<and> (\<exists>m \<in> set (metasByMinTime job). too_recent l env waitPeriod m) \<longrightarrow>
        (\<exists>m \<in> set (metasByMinTime job). too_recent l env waitPeriod m
           \<and> jobWaitPeriodElapsed l env job waitPeriod = (False, Some m, None)))
   \<and> ((\<forall>m \<in> set (metasByMinTime job). Level m = 1 \<longrightarrow>
          Attributes env' (path_Join (ulid_String l (ULID m)) MetaFilename)
            = Attributes env (path_Join (ulid_String l (ULID m)) MetaFilename))
        \<and> time_Now env' = time_Now env \<longrightarrow>
        jobWaitPeriodElapsed l env' job waitPeriod = jobWaitPeriodElapsed l env job waitPeriod)"
  using probe_level1_exempt [of "metasByMinTime job" l env waitPeriod]
    probe_level1_first [of pre l env waitPeriod m post]
    probe_level1_some [of "metasByMinTime job" l env waitPeriod]
    probe_level1_cong [of "metasByMinTime job" env' l env waitPeriod]
  by (auto simp: jobWaitPeriodElapsed_def)


theorem jobWaitPeriodElapsed_gate_witness:
  "too_recent demo_lib2
     (test_bucket [(''00000000000000000000000001/meta.json'', Inr (80 * minute)),
                   (''00000000000000000000000002/meta.json'', Inr (95 * minute))])
     (10 * minute) (test_meta 2 1)
   \<and> jobWaitPeriodElapsed demo_lib2
     (test_bucket [(''00000000000000000000000001/meta.json'', Inr (80 * minute)),
                   (''00000000000000000000000002/meta.json'', Inr (95 * minute))])
     (test_job [test_meta 1 1, test_meta 2 1]) (10 * minute) = (False, Some (test_meta 2 1), None)"
  using jobWaitPeriodElapsed_gate [where l = demo_lib2
      and env = "test_bucket [(''00000000000000000000000001/meta.json'', Inr (80 * minute)),
                   (''00000000000000000000000002/meta.json'', Inr (95 * minute))]"
      and job = "test_job [test_meta 1 1, test_meta 2 1]" and waitPeriod = "10 * minute"
      and pre = "[test_meta 1 1]" and m = "test_meta 2 1" and post = "[]"]
  by (simp add: test_defs)

text \<open>
  The claim as written returns \<open>(false, thatMeta, nil)\<close> whenever some level-1 meta is
  too recent. Here the second block of the job is too recent, but the probe of the first
  fails: the gate returns the first block and the error.
\<close>

theorem jobWaitPeriodElapsed_error_first_counterexample:
  "too_recent demo_lib2
     (test_bucket [(''00000000000000000000000001/meta.json'', Inl (External ''mocked error'')),
                   (''00000000000000000000000002/meta.json'', Inr (95 * minute))])
     (10 * minute) (test_meta 2 1)
   \<and> jobWaitPeriodElapsed demo_lib2
     (test_bucket [(''00000000000000000000000001/meta.json'', Inl (External ''mocked error'')),
                   (''00000000000000000000000002/meta.json'', Inr (95 * minute))])
     (test_job [test_meta 1 1, test_meta 2 1]) (10 * minute)
     = (False, Some (test_meta 1 1), Some (External ''mocked error''))"
  by (simp add: test_defs)

end
